(* ===== verification/Ring_Prelude.thy ===== *)
theory Ring_Prelude
  imports Main "HOL-Library.Word"
begin

text \<open>
  Shared vocabulary of the development: Rust's machine integers and byte slices, the two ways a
  Rust function of this program can fail (a panic or an error value), checked arithmetic,
  fixed-width byte encodings, decimal printing and the slice adaptor \<open>chunk_by\<close>, each with the
  lemmas the components use.

  \<^item> \<open>u8\<close> .. \<open>u64\<close> are words, so \<open>+\<close> wraps; \<open>usize\<close> is 64 bits wide (the targets are 64-bit Linux)
    and, where the code only indexes and measures slices, a \<open>nat\<close> whose bound is stated.
  \<^item> \<open>i32\<close> values (errno results, cmsg levels) are \<open>int\<close>s read with \<open>sint\<close>.
  \<^item> A slice \<open>&[u8]\<close> is a list of bytes.
\<close>

section \<open>Machine integers, bytes and slices\<close>

type_synonym u8 = "8 word"
type_synonym u16 = "16 word"
type_synonym u32 = "32 word"
type_synonym u64 = "64 word"
type_synonym usize = "64 word"
type_synonym i32 = int
type_synonym bytes = "u8 list"

named_theorems fault_simps \<open>evaluation of the error plumbing\<close>
named_theorems byte_simps \<open>fixed-width byte encodings\<close>

text \<open>\<open>slice.get(a..b)\<close>: \<open>None\<close> when the range is reversed or runs past the end.\<close>

definition get_range :: "'a list \<Rightarrow> nat \<Rightarrow> nat \<Rightarrow> 'a list option" where
  "get_range bs a b = (if a \<le> b \<and> b \<le> length bs then Some (take (b - a) (drop a bs)) else None)"

lemma get_range_Some_iff:
  "get_range bs a b = Some r \<longleftrightarrow> a \<le> b \<and> b \<le> length bs \<and> r = take (b - a) (drop a bs)"
  by (auto simp: get_range_def)

lemma get_range_None_iff: "get_range bs a b = None \<longleftrightarrow> b < a \<or> length bs < b"
  by (auto simp: get_range_def)

lemma length_get_range: "get_range bs a b = Some r \<Longrightarrow> length r = b - a"
  by (auto simp: get_range_def split: if_splits)

text \<open>Only the first \<open>b\<close> elements matter to \<open>get_range bs a b\<close>.\<close>

lemma get_range_take: "b \<le> n \<Longrightarrow> n \<le> length bs \<Longrightarrow> get_range (take n bs) a b = get_range bs a b"
  by (auto simp: get_range_def drop_take min_def)

lemma get_range_append: "b \<le> length xs \<Longrightarrow> get_range (xs @ ys) a b = get_range xs a b"
  by (auto simp: get_range_def)

section \<open>Checked arithmetic\<close>

lemma unat_bound: "unat (x :: 'a::len word) < 2 ^ LENGTH('a)"
  by (rule unsigned_less)

definition checked_sub :: "'a::len word \<Rightarrow> 'a word \<Rightarrow> 'a word option" where
  "checked_sub a b = (if b \<le> a then Some (a - b) else None)"

definition checked_sub_usize :: "nat \<Rightarrow> nat \<Rightarrow> nat option" where
  "checked_sub_usize a b = (if b \<le> a then Some (a - b) else None)"

definition checked_add :: "'a::len word \<Rightarrow> 'a word \<Rightarrow> 'a word option" where
  "checked_add a b = (if unat a + unat b < 2 ^ LENGTH('a) then Some (a + b) else None)"

definition overflowing_add :: "'a::len word \<Rightarrow> 'a word \<Rightarrow> 'a word \<times> bool" where
  "overflowing_add a b = (a + b, 2 ^ LENGTH('a) \<le> unat a + unat b)"

text \<open>\<open>u16::try_from\<close> on a wider unsigned value.\<close>

definition u16_try_from :: "'a::len word \<Rightarrow> u16 option" where
  "u16_try_from x = (if unat x < 2 ^ 16 then Some (ucast x) else None)"

lemma checked_sub_Some_iff:
  "checked_sub a b = Some c \<longleftrightarrow> b \<le> a \<and> c = a - b"
  by (auto simp: checked_sub_def)

lemma checked_sub_unat: "checked_sub a b = Some c \<Longrightarrow> unat a = unat b + unat c"
  by (auto simp: checked_sub_def unat_sub word_le_nat_alt split: if_splits)

lemma checked_add_unat: "checked_add a b = Some c \<Longrightarrow> unat c = unat a + unat b"
  by (auto simp: checked_add_def unat_word_ariths split: if_splits)

section \<open>Failing computations\<close>

text \<open>
  The panics and the error values this program can produce, one constructor per place of the
  source that raises it. \<open>ArithmeticOverflow\<close> is the panic of a build with overflow checks.
\<close>

datatype panic_site =
    ArithmeticOverflow
  | IndexOutOfBounds
  | UnexpectedStateValue    \<comment> \<open>\<open>State::from_bits\<close>: unexpected value\<close>
  | InvalidSlabKey          \<comment> \<open>\<open>Slab::remove\<close>\<close>
  | ExpectBufferId          \<comment> \<open>read has a buffer ID\<close>
  | AssertReadLength        \<comment> \<open>\<open>assert!(len > 0)\<close>\<close>
  | ExpectBuffer            \<comment> \<open>buffer ring contains buffer ID\<close>
  | ExpectMsghdr            \<comment> \<open>parsing msghdr\<close>
  | ExpectSocketAddress     \<comment> \<open>source is a socket address\<close>
  | UnwrapTcpPacket
  | UnwrapUnixTime
  | UnreachableFamilies
  | AssertionFailed         \<comment> \<open>\<open>assert!\<close> and \<open>assert_eq!\<close> of the unit tests\<close>
  | UnwrapErr               \<comment> \<open>\<open>unwrap()\<close> of the unit tests\<close>

datatype app_error =
    IoError i32
  | PacketTooSmall nat string
  | NotASocketAddress
  | FeatureProbeFailed i32
  | RecvMsgMultiUnsupported
  | IntConversion
  | SubmissionQueueFull
  | FirstHopNotBelowMax
  | IpVersionMismatch
  | NoMatchingDnsAnswer

datatype fault = Panic panic_site | Fail app_error

type_synonym 'a rust = "fault + 'a"

text \<open>The operator \<open>?\<close>: an error or a panic leaves the function, a value goes on.\<close>

definition try_bind :: "'e + 'a \<Rightarrow> ('a \<Rightarrow> 'e + 'b) \<Rightarrow> 'e + 'b" where
  "try_bind m f = (case m of Inl e \<Rightarrow> Inl e | Inr x \<Rightarrow> f x)"

definition ok_or :: "'e \<Rightarrow> 'a option \<Rightarrow> 'e + 'a" where
  "ok_or e x = (case x of None \<Rightarrow> Inl e | Some v \<Rightarrow> Inr v)"

definition never_panics :: "'a rust \<Rightarrow> bool" where
  "never_panics m = (case m of Inl (Panic _) \<Rightarrow> False | _ \<Rightarrow> True)"

lemma try_bind_simps [simp, fault_simps]:
  "try_bind (Inl e) f = Inl e" "try_bind (Inr x) f = f x"
  by (simp_all add: try_bind_def)

lemma ok_or_simps [simp, fault_simps]:
  "ok_or e None = Inl e" "ok_or e (Some v) = Inr v"
  by (simp_all add: ok_or_def)

lemma try_bind_Inr_iff: "try_bind m f = Inr y \<longleftrightarrow> (\<exists>x. m = Inr x \<and> f x = Inr y)"
  by (cases m) auto

lemma try_bind_Inl_iff: "try_bind m f = Inl e \<longleftrightarrow> m = Inl e \<or> (\<exists>x. m = Inr x \<and> f x = Inl e)"
  by (cases m) auto

lemma ok_or_Inr_iff: "ok_or e x = Inr v \<longleftrightarrow> x = Some v"
  by (cases x) auto

lemma never_panics_simps [simp, fault_simps]:
  "never_panics (Inr x)" "never_panics (Inl (Fail e))" "\<not> never_panics (Inl (Panic p))"
  by (simp_all add: never_panics_def)

lemma never_panics_try_bind:
  "never_panics m \<Longrightarrow> (\<And>x. m = Inr x \<Longrightarrow> never_panics (f x)) \<Longrightarrow> never_panics (try_bind m f)"
  by (cases m) (auto simp: never_panics_def split: fault.splits)

lemma never_panics_iff: "never_panics m \<longleftrightarrow> (\<forall>p. m \<noteq> Inl (Panic p))"
  by (auto simp: never_panics_def split: sum.splits fault.splits)

section \<open>Byte encodings\<close>

text \<open>\<open>be_bytes n x\<close> is \<open>to_be_bytes\<close> of an \<open>n\<close>-byte integer, \<open>be_nat\<close> is \<open>from_be_bytes\<close>.\<close>

fun be_bytes :: "nat \<Rightarrow> nat \<Rightarrow> bytes" where
  "be_bytes 0 x = []"
| "be_bytes (Suc n) x = be_bytes n (x div 256) @ [of_nat x]"

definition be_nat :: "bytes \<Rightarrow> nat" where
  "be_nat bs = foldl (\<lambda>a b. a * 256 + unat b) 0 bs"

definition le_bytes :: "nat \<Rightarrow> nat \<Rightarrow> bytes" where
  "le_bytes n x = rev (be_bytes n x)"

definition le_nat :: "bytes \<Rightarrow> nat" where
  "le_nat bs = be_nat (rev bs)"

lemma length_be_bytes [simp]: "length (be_bytes n x) = n"
  by (induction n x rule: be_bytes.induct) auto

lemma length_le_bytes [simp]: "length (le_bytes n x) = n"
  by (simp add: le_bytes_def)

lemma be_nat_Nil [simp]: "be_nat [] = 0"
  by (simp add: be_nat_def)

lemma be_nat_snoc [simp]: "be_nat (bs @ [b]) = be_nat bs * 256 + unat b"
  by (simp add: be_nat_def)

lemma unat_of_nat_byte: "unat (of_nat x :: u8) = x mod 256"
  by (simp add: unat_of_nat)

lemma be_nat_be_bytes [byte_simps]: "be_nat (be_bytes n x) = x mod 256 ^ n"
proof (induction n x rule: be_bytes.induct)
  case (1 x)
  then show ?case by simp
next
  case (2 n x)
  have "be_nat (be_bytes (Suc n) x) = (x div 256) mod 256 ^ n * 256 + x mod 256"
    using 2 by (simp add: unat_of_nat_byte)
  also have "\<dots> = x mod (256 * 256 ^ n)"
    using mod_mult2_eq [of x 256 "256 ^ n"] by simp
  finally show ?case by simp
qed

lemma be_nat_less: "be_nat bs < 256 ^ length bs"
proof (induction bs rule: rev_induct)
  case Nil
  then show ?case by simp
next
  case (snoc b bs)
  have "unat b < 256" using unsigned_less [of b] by simp
  with snoc show ?case by simp
qed

lemma be_bytes_be_nat [byte_simps]: "be_bytes (length bs) (be_nat bs) = bs"
proof (induction bs rule: rev_induct)
  case Nil
  then show ?case by simp
next
  case (snoc b bs)
  have b: "unat b < 256" using unsigned_less [of b] by simp
  have "(of_nat (be_nat bs * 256 + unat b) :: u8) = b"
  proof (rule word_unat_eq_iff [THEN iffD2])
    show "unat (of_nat (be_nat bs * 256 + unat b) :: u8) = unat b"
      using b by (simp only: unat_of_nat_byte) simp
  qed
  with snoc b show ?case by simp
qed

lemma le_nat_le_bytes [byte_simps]: "le_nat (le_bytes n x) = x mod 256 ^ n"
  by (simp add: le_nat_def le_bytes_def be_nat_be_bytes)

lemma le_bytes_le_nat [byte_simps]: "le_bytes (length bs) (le_nat bs) = bs"
  using be_bytes_be_nat [of "rev bs"] by (simp add: le_nat_def le_bytes_def)

lemma le_nat_less: "le_nat bs < 256 ^ length bs"
  using be_nat_less [of "rev bs"] by (simp add: le_nat_def)

text \<open>The integer types' own conversions.\<close>

definition u16_to_be :: "u16 \<Rightarrow> bytes" where
  "u16_to_be w = be_bytes 2 (unat w)"

definition u16_from_be :: "bytes \<Rightarrow> u16" where
  "u16_from_be bs = of_nat (be_nat bs)"

definition u32_to_be :: "u32 \<Rightarrow> bytes" where
  "u32_to_be w = be_bytes 4 (unat w)"

definition u32_from_be :: "bytes \<Rightarrow> u32" where
  "u32_from_be bs = of_nat (be_nat bs)"

lemma length_to_be [simp]: "length (u16_to_be w) = 2" "length (u32_to_be v) = 4"
  by (simp_all add: u16_to_be_def u32_to_be_def)

lemma u16_from_to_be [simp, byte_simps]: "u16_from_be (u16_to_be w) = w"
proof -
  have "unat w < 2 ^ LENGTH(16)" by (rule unsigned_less)
  then have "unat w mod 256 ^ 2 = unat w" by simp
  then show ?thesis by (simp add: u16_from_be_def u16_to_be_def be_nat_be_bytes)
qed

lemma u32_from_to_be [simp, byte_simps]: "u32_from_be (u32_to_be w) = w"
proof -
  have "unat w < 2 ^ LENGTH(32)" by (rule unsigned_less)
  then have "unat w mod 256 ^ 4 = unat w" by simp
  then show ?thesis by (simp add: u32_from_be_def u32_to_be_def be_nat_be_bytes)
qed

lemma u16_to_from_be: "length bs = 2 \<Longrightarrow> u16_to_be (u16_from_be bs) = bs"
  using be_nat_less [of bs] be_bytes_be_nat [of bs]
  by (simp add: u16_to_be_def u16_from_be_def unat_of_nat)

section \<open>Decimal printing\<close>

text \<open>The \<open>Display\<close> of the unsigned integer types.\<close>

fun show_nat :: "nat \<Rightarrow> string" where
  "show_nat n =
     (if n < 10 then [char_of (48 + n)] else show_nat (n div 10) @ [char_of (48 + n mod 10)])"

declare show_nat.simps [simp del]

definition read_nat :: "string \<Rightarrow> nat" where
  "read_nat s = foldl (\<lambda>a c. a * 10 + (of_char c - 48)) 0 s"

lemma of_char_digit: "d < 10 \<Longrightarrow> of_char (char_of (48 + d) :: char) = (48 + d :: nat)"
  by (simp add: of_char_of)

lemma read_show_nat [simp]: "read_nat (show_nat n) = n"
proof (induction n rule: show_nat.induct)
  case (1 n)
  show ?case
  proof (cases "n < 10")
    case True
    then show ?thesis by (simp add: show_nat.simps [of n] read_nat_def of_char_of)
  next
    case False
    have "of_char (char_of (48 + n mod 10) :: char) = 48 + n mod 10"
      by (rule of_char_digit) simp
    with False 1 show ?thesis by (simp add: show_nat.simps [of n] read_nat_def)
  qed
qed

lemma show_nat_inject [simp]: "show_nat m = show_nat n \<longleftrightarrow> m = n"
  by (metis read_show_nat)

definition is_digit :: "char \<Rightarrow> bool" where
  "is_digit c \<longleftrightarrow> 48 \<le> (of_char c :: nat) \<and> (of_char c :: nat) \<le> 57"

lemma is_digit_char_of: "d < 10 \<Longrightarrow> is_digit (char_of (48 + d :: nat))"
  by (simp add: is_digit_def of_char_of)

lemma show_nat_digits: "c \<in> set (show_nat n) \<Longrightarrow> is_digit c"
proof (induction n rule: show_nat.induct)
  case (1 n)
  have "is_digit (char_of (48 + n mod 10))" by (rule is_digit_char_of) simp
  with 1 show ?case using is_digit_char_of [of n]
    by (auto simp: show_nat.simps [of n] split: if_splits)
qed

lemma show_nat_nonempty [simp]: "show_nat n \<noteq> []"
  by (simp add: show_nat.simps [of n])

section \<open>Splitting a slice into runs\<close>

text \<open>\<open>slice.chunk_by(pred)\<close>: a new run starts where \<open>pred\<close> fails for two neighbours.\<close>

fun chunk_by :: "('a \<Rightarrow> 'a \<Rightarrow> bool) \<Rightarrow> 'a list \<Rightarrow> 'a list list" where
  "chunk_by p [] = []"
| "chunk_by p [x] = [[x]]"
| "chunk_by p (x # y # xs) =
     (if p x y then (case chunk_by p (y # xs) of [] \<Rightarrow> [[x]] | c # cs \<Rightarrow> (x # c) # cs)
      else [x] # chunk_by p (y # xs))"

lemma chunk_by_eq_Nil [simp]: "chunk_by p xs = [] \<longleftrightarrow> xs = []"
  by (induction p xs rule: chunk_by.induct) (auto split: list.splits)

lemma concat_chunk_by [simp]: "concat (chunk_by p xs) = xs"
  by (induction p xs rule: chunk_by.induct) (auto split: list.splits)

lemma chunk_by_nonempty: "c \<in> set (chunk_by p xs) \<Longrightarrow> c \<noteq> []"
  by (induction p xs arbitrary: c rule: chunk_by.induct) (auto split: list.splits if_splits)

text \<open>Cutting by a key depends on the keys alone.\<close>

lemma chunk_by_map_key:
  "map (map f) (chunk_by (\<lambda>a b. f a = f b) xs) = chunk_by (=) (map f xs)"
proof (induction "\<lambda>a b. f a = f b" xs rule: chunk_by.induct)
  case (3 x y xs)
  show ?case
  proof (cases "f x = f y")
    case True
    obtain c cs where c: "chunk_by (\<lambda>a b. f a = f b) (y # xs) = c # cs"
      by (metis chunk_by_eq_Nil list.distinct(1) list.exhaust)
    with 3 True have "chunk_by (=) (map f (y # xs)) = map f c # map (map f) cs" by simp
    with True c show ?thesis by simp
  next
    case False
    with 3 show ?thesis by simp
  qed
qed simp_all

lemma chunk_by_cong_key:
  assumes "map f xs = map f ys"
  shows "map length (chunk_by (\<lambda>a b. f a = f b) xs) = map length (chunk_by (\<lambda>a b. f a = f b) ys)"
proof -
  have "map (map f) (chunk_by (\<lambda>a b. f a = f b) xs) = map (map f) (chunk_by (\<lambda>a b. f a = f b) ys)"
    using assms by (simp add: chunk_by_map_key)
  then have "map length (map (map f) (chunk_by (\<lambda>a b. f a = f b) xs)) =
             map length (map (map f) (chunk_by (\<lambda>a b. f a = f b) ys))"
    by (rule arg_cong)
  then show ?thesis by (simp add: comp_def)
qed

lemma chunk_by_replicate_append:
  assumes "n > 0" and "ys \<noteq> [] \<Longrightarrow> hd ys \<noteq> x"
  shows "chunk_by (=) (replicate n x @ ys) = replicate n x # chunk_by (=) ys"
  using assms
proof (induction n)
  case 0
  then show ?case by simp
next
  case (Suc n)
  show ?case
  proof (cases n)
    case 0
    with Suc.prems show ?thesis by (cases ys) auto
  next
    case (Suc m)
    with Suc.IH Suc.prems show ?thesis by simp
  qed
qed

text \<open>A list of runs with different neighbouring keys is cut back into those runs.\<close>

lemma chunk_by_runs:
  assumes "n > 0" and "distinct ks"
  shows "chunk_by (=) (concat (map (replicate n) ks)) = map (replicate n) ks"
  using assms
proof (induction ks)
  case Nil
  then show ?case by simp
next
  case (Cons k ks)
  have "concat (map (replicate n) ks) \<noteq> [] \<Longrightarrow> hd (concat (map (replicate n) ks)) \<noteq> k"
    using Cons.prems by (cases ks; cases n) auto
  from chunk_by_replicate_append [OF Cons.prems(1) this] Cons show ?case by simp
qed

lemma chunk_by_eq_constant: "c \<in> set (chunk_by (=) xs) \<Longrightarrow> a \<in> set c \<Longrightarrow> a = hd c"
proof (induction xs arbitrary: c a rule: induct_list012)
  case (3 x y xs)
  obtain d ds where d: "chunk_by (=) (y # xs) = d # ds"
    by (metis chunk_by_eq_Nil list.distinct(1) list.exhaust)
  have "d \<noteq> []" using chunk_by_nonempty [of d "(=)" "y # xs"] d by simp
  moreover have "concat (d # ds) = y # xs" using d concat_chunk_by by metis
  ultimately have "hd d = y" by (cases d) auto
  moreover have "\<And>c a. c \<in> set (d # ds) \<Longrightarrow> a \<in> set c \<Longrightarrow> a = hd c"
    using 3(2) d by simp
  ultimately show ?case using 3(3,4) d by (auto split: if_splits)
qed auto

lemma chunk_by_same_key:
  assumes "c \<in> set (chunk_by (\<lambda>a b. f a = f b) xs)" "a \<in> set c" "b \<in> set c"
  shows "f a = f b"
proof -
  have "map f c \<in> set (chunk_by (=) (map f xs))"
    using assms(1) by (simp flip: chunk_by_map_key)
  with assms(2,3) have "f a = hd (map f c)" "f b = hd (map f c)"
    by (auto intro!: chunk_by_eq_constant [of "map f c"])
  then show ?thesis by simp
qed

text \<open>Sorted by the key, the runs are the classes of the keys in order.\<close>

lemma distinct_remdups_adj_sorted: "sorted (xs :: 'a::linorder list) \<Longrightarrow> distinct (remdups_adj xs)"
  by (induction xs rule: induct_list012) (auto simp: less_le)

lemma chunk_by_sorted:
  fixes f :: "'a \<Rightarrow> 'k::linorder"
  assumes "sorted (map f xs)"
  shows "chunk_by (\<lambda>a b. f a = f b) xs =
    map (\<lambda>k. filter (\<lambda>x. f x = k) xs) (remdups_adj (map f xs))"
  using assms
proof (induction "\<lambda>a b. f a = f b" xs rule: chunk_by.induct)
  case (3 x y xs)
  let ?cls = "\<lambda>zs k. filter (\<lambda>z. f z = k) zs"
  have s: "sorted (map f (y # xs))" and le: "\<forall>z \<in> set (y # xs). f x \<le> f z"
    using 3(3) by auto
  obtain ks where ks: "remdups_adj (map f (y # xs)) = f y # ks"
    by (metis list.simps(9) remdups_adj_Cons_alt)
  have d: "distinct (f y # ks)" using distinct_remdups_adj_sorted [OF s] ks by simp
  show ?case
  proof (cases "f x = f y")
    case True
    have "map (?cls (x # y # xs)) ks = map (?cls (y # xs)) ks" using d True by auto
    then show ?thesis using 3(1) [OF True s] ks True by simp
  next
    case False
    have k: "k \<in> set (f y # ks) \<Longrightarrow> k \<in> f ` set (y # xs)" for k
      using ks by (metis remdups_adj_set set_map)
    have gt: "f x < f z" if "z \<in> set (y # xs)" for z
      using that le False s by (cases "z = y") (auto simp: less_le)
    then have "\<forall>z \<in> set (y # xs). f z \<noteq> f x" by fastforce
    then have "?cls (x # y # xs) (f x) = [x]" by (simp add: filter_empty_conv)
    moreover have "map (?cls (x # y # xs)) (f y # ks) = map (?cls (y # xs)) (f y # ks)"
      using k gt by fastforce
    ultimately show ?thesis using 3(2) [OF False s] ks False by simp
  qed
qed simp_all

lemma takeWhile_sorted:
  "sorted ks \<Longrightarrow> distinct ks \<Longrightarrow>
   k \<in> set (takeWhile P ks) \<longleftrightarrow> k \<in> set ks \<and> (\<forall>k' \<in> set ks. k' \<le> (k :: 'k::linorder) \<longrightarrow> P k')"
proof (induction ks)
  case (Cons a ks)
  then have "\<forall>b \<in> set ks. a < b" by (auto simp: less_le)
  with Cons show ?case by (auto simp: not_le [symmetric])
qed simp

end
