(* ===== verification/Platform.thy ===== *)
theory Platform
  imports Ring_Prelude
begin

text \<open>
  What the program takes from its surroundings. The \<open>libc\<close> crate and the C ABI are a record of
  constants and struct layouts that every definition using them takes as an argument; the
  operating system is a record of answers to system calls. \<open>platform_ok\<close> collects the documented
  facts the code relies on, the locale \<open>libc_layout\<close> states them as an interface, and
  \<open>linux64\<close> is the layout of 64-bit Linux, for either byte order, with which the interface is
  interpreted. Addresses are those of \<open>std::net\<close> and \<open>socket2::SockAddr\<close>.
\<close>

section \<open>Addresses\<close>

datatype ip_addr = V4 "32 word" | V6 "128 word"

datatype domain = DomainIpv4 | DomainIpv6 | DomainOther

text \<open>
  A \<open>SockAddr\<close> is an IPv4 or IPv6 socket address, or an address of another family and some length
  (\<open>as_socket\<close> is then \<open>None\<close>), which only the operating system can produce here.
\<close>

datatype sock_addr =
    SockV4 "32 word" u16
  | SockV6 "128 word" u16 u32 u32
  | SockOther nat

fun sa_ip :: "sock_addr \<Rightarrow> ip_addr option" where
  "sa_ip (SockV4 a _) = Some (V4 a)"
| "sa_ip (SockV6 a _ _ _) = Some (V6 a)"
| "sa_ip (SockOther _) = None"

fun sa_port :: "sock_addr \<Rightarrow> u16 option" where
  "sa_port (SockV4 _ p) = Some p"
| "sa_port (SockV6 _ p _ _) = Some p"
| "sa_port (SockOther _) = None"

text \<open>\<open>SockAddr::as_socket\<close>: the address and the port.\<close>

definition as_socket :: "sock_addr \<Rightarrow> (ip_addr \<times> u16) option" where
  "as_socket a = (case (sa_ip a, sa_port a) of (Some i, Some p) \<Rightarrow> Some (i, p) | _ \<Rightarrow> None)"

fun sa_domain :: "sock_addr \<Rightarrow> domain" where
  "sa_domain (SockV4 _ _) = DomainIpv4"
| "sa_domain (SockV6 _ _ _ _) = DomainIpv6"
| "sa_domain (SockOther _) = DomainOther"

text \<open>\<open>SockAddr::from(SocketAddr::new(ip, port))\<close>: flow information and scope are zero.\<close>

fun sock_addr_new :: "ip_addr \<Rightarrow> u16 \<Rightarrow> sock_addr" where
  "sock_addr_new (V4 a) p = SockV4 a p"
| "sock_addr_new (V6 a) p = SockV6 a p 0 0"

lemma as_socket_new [simp]: "as_socket (sock_addr_new ip p) = Some (ip, p)"
  by (cases ip) (simp_all add: as_socket_def)

lemma as_socket_simps [simp]:
  "as_socket (SockV4 a p) = Some (V4 a, p)"
  "as_socket (SockV6 b p f s) = Some (V6 b, p)"
  "as_socket (SockOther n) = None"
  by (simp_all add: as_socket_def)

section \<open>The C ABI\<close>

text \<open>
  Struct sizes are the end of the last field plus tail padding, as \<open>repr(C)\<close> lays structs out;
  field widths are those of the C declarations.
\<close>

record platform =
  little_endian :: bool
  off_cmsg_len :: nat
  off_cmsg_level :: nat
  off_cmsg_type :: nat
  pad_cmsghdr :: nat
  off_ee_origin :: nat
  off_ee_type :: nat
  off_ee_code :: nat
  off_ee_info :: nat
  size_sock_extended_err :: nat
  off_sin_port :: nat
  off_sin_addr :: nat
  size_sockaddr_in :: nat
  off_sin6_port :: nat
  off_sin6_flowinfo :: nat
  off_sin6_addr :: nat
  off_sin6_scope_id :: nat
  size_sockaddr_in6 :: nat
  AF_INET :: i32
  AF_INET6 :: i32
  IPPROTO_IP :: i32
  IPPROTO_IPV6 :: i32
  IP_RECVERR :: i32
  IPV6_RECVERR :: i32
  IP_TTL :: i32
  IPV6_HOPLIMIT :: i32
  SO_EE_ORIGIN_ICMP :: u8
  SO_EE_ORIGIN_ICMP6 :: u8
  MSG_ERRQUEUE :: i32
  EHOSTUNREACH :: i32
  ETIME :: i32
  EBUSY :: i32
  CMSG_LEN :: "nat \<Rightarrow> nat"
  CMSG_SPACE :: "nat \<Rightarrow> nat"

definition size_of_usize :: nat where "size_of_usize = 8"
definition size_of_c_int :: nat where "size_of_c_int = 4"
definition size_of_u32 :: nat where "size_of_u32 = 4"

definition size_cmsghdr :: "platform \<Rightarrow> nat" where
  "size_cmsghdr P =
     max (off_cmsg_len P + size_of_usize)
         (max (off_cmsg_level P + size_of_c_int) (off_cmsg_type P + size_of_c_int)) + pad_cmsghdr P"

lemma size_cmsghdr_pos: "8 \<le> size_cmsghdr P"
  by (simp add: size_cmsghdr_def size_of_usize_def)

text \<open>The next multiple of the word size, the alignment rule of control messages.\<close>

definition align_up :: "nat \<Rightarrow> nat" where
  "align_up n = (n + 7) div 8 * 8"

lemma align_up_ge: "n \<le> align_up n"
  by (simp add: align_up_def)

lemma align_up_less: "align_up n < n + 8"
  by (simp add: align_up_def)

lemma align_up_dvd: "8 dvd align_up n"
  by (simp add: align_up_def)

text \<open>\<open>SockAddr::len\<close>.\<close>

fun sa_len :: "platform \<Rightarrow> sock_addr \<Rightarrow> nat" where
  "sa_len P (SockV4 _ _) = size_sockaddr_in P"
| "sa_len P (SockV6 _ _ _ _) = size_sockaddr_in6 P"
| "sa_len P (SockOther n) = n"

text \<open>The documented facts the code relies on.\<close>

definition platform_ok :: "platform \<Rightarrow> bool" where
  "platform_ok P \<longleftrightarrow>
     size_cmsghdr P \<le> 4096 \<and> size_sock_extended_err P \<le> 4096 \<and>
     off_ee_origin P < size_sock_extended_err P \<and>
     off_ee_type P < size_sock_extended_err P \<and>
     off_ee_code P < size_sock_extended_err P \<and>
     off_ee_info P + 4 \<le> size_sock_extended_err P \<and>
     2 \<le> size_sockaddr_in P \<and> off_sin_port P + 2 \<le> size_sockaddr_in P \<and>
     off_sin_addr P + 4 \<le> size_sockaddr_in P \<and> size_sockaddr_in P \<le> 4096 \<and>
     2 \<le> size_sockaddr_in6 P \<and> off_sin6_port P + 2 \<le> size_sockaddr_in6 P \<and>
     off_sin6_flowinfo P + 4 \<le> size_sockaddr_in6 P \<and> off_sin6_addr P + 16 \<le> size_sockaddr_in6 P \<and>
     off_sin6_scope_id P + 4 \<le> size_sockaddr_in6 P \<and> size_sockaddr_in6 P \<le> 4096 \<and>
     AF_INET P \<noteq> AF_INET6 P \<and> SO_EE_ORIGIN_ICMP P \<noteq> SO_EE_ORIGIN_ICMP6 P \<and>
     0 < ETIME P \<and> 0 < EHOSTUNREACH P \<and> 0 < EBUSY P \<and>
     (\<forall>n \<le> 8192. CMSG_LEN P n = align_up (size_cmsghdr P) + n) \<and>
     (\<forall>n \<le> 8192. CMSG_SPACE P n = align_up (size_cmsghdr P) + align_up n)"

text \<open>Native-endian integers in memory.\<close>

definition ne_nat :: "platform \<Rightarrow> bytes \<Rightarrow> nat" where
  "ne_nat P bs = (if little_endian P then le_nat bs else be_nat bs)"

definition ne_bytes :: "platform \<Rightarrow> nat \<Rightarrow> nat \<Rightarrow> bytes" where
  "ne_bytes P n x = (if little_endian P then le_bytes n x else be_bytes n x)"

lemma ne_nat_ne_bytes [byte_simps]: "ne_nat P (ne_bytes P n x) = x mod 256 ^ n"
  by (simp add: ne_nat_def ne_bytes_def byte_simps)

lemma ne_bytes_ne_nat [byte_simps]: "length bs = n \<Longrightarrow> ne_bytes P n (ne_nat P bs) = bs"
  by (auto simp: ne_nat_def ne_bytes_def byte_simps)

lemma length_ne_bytes [simp]: "length (ne_bytes P n x) = n"
  by (simp add: ne_bytes_def)

lemma ne_nat_less: "ne_nat P bs < 256 ^ length bs"
  by (simp add: ne_nat_def be_nat_less le_nat_less)

text \<open>The bytes of a field, in a buffer whose bounds were checked before.\<close>

definition field :: "bytes \<Rightarrow> nat \<Rightarrow> nat \<Rightarrow> bytes" where
  "field bs off n = take n (drop off bs)"

lemma length_field: "off + n \<le> length bs \<Longrightarrow> length (field bs off n) = n"
  by (simp add: field_def)

definition ne_i32 :: "platform \<Rightarrow> bytes \<Rightarrow> i32" where
  "ne_i32 P bs = sint (of_nat (ne_nat P bs) :: u32)"

text \<open>\<open>u16::from_be\<close> on a value that was read with the native byte order.\<close>

definition swap_bytes16 :: "nat \<Rightarrow> nat" where
  "swap_bytes16 x = be_nat (le_bytes 2 x)"

definition u16_from_be_value :: "platform \<Rightarrow> nat \<Rightarrow> u16" where
  "u16_from_be_value P x = of_nat (if little_endian P then swap_bytes16 x else x)"

lemma u16_from_be_value_ne:
  "length bs = 2 \<Longrightarrow> u16_from_be_value P (ne_nat P bs) = u16_from_be bs"
  using le_bytes_le_nat [of bs]
  by (simp add: u16_from_be_value_def ne_nat_def swap_bytes16_def u16_from_be_def)

text \<open>\<open>Ipv4Addr::from\<close> and \<open>Ipv6Addr::from\<close> on octets.\<close>

definition ipv4_from_octets :: "bytes \<Rightarrow> 32 word" where
  "ipv4_from_octets bs = of_nat (be_nat bs)"

definition ipv6_from_octets :: "bytes \<Rightarrow> 128 word" where
  "ipv6_from_octets bs = of_nat (be_nat bs)"

section \<open>64-bit Linux\<close>

text \<open>The layout of \<open>linux/socket.h\<close>, \<open>linux/errqueue.h\<close> and \<open>netinet/in.h\<close> on 64-bit targets.\<close>

definition linux64 :: "bool \<Rightarrow> platform" where
  "linux64 le = \<lparr>
     little_endian = le,
     off_cmsg_len = 0, off_cmsg_level = 8, off_cmsg_type = 12, pad_cmsghdr = 0,
     off_ee_origin = 4, off_ee_type = 5, off_ee_code = 6, off_ee_info = 8,
     size_sock_extended_err = 16,
     off_sin_port = 2, off_sin_addr = 4, size_sockaddr_in = 16,
     off_sin6_port = 2, off_sin6_flowinfo = 4, off_sin6_addr = 8, off_sin6_scope_id = 24,
     size_sockaddr_in6 = 28,
     AF_INET = 2, AF_INET6 = 10, IPPROTO_IP = 0, IPPROTO_IPV6 = 41,
     IP_RECVERR = 11, IPV6_RECVERR = 25, IP_TTL = 2, IPV6_HOPLIMIT = 52,
     SO_EE_ORIGIN_ICMP = 2, SO_EE_ORIGIN_ICMP6 = 3, MSG_ERRQUEUE = 8192,
     EHOSTUNREACH = 113, ETIME = 62, EBUSY = 16,
     CMSG_LEN = (\<lambda>n. 16 + n), CMSG_SPACE = (\<lambda>n. 16 + align_up n) \<rparr>"

lemma linux64_fields [simp]:
  "little_endian (linux64 le) = le"
  "off_cmsg_len (linux64 le) = 0"
  "off_cmsg_level (linux64 le) = 8"
  "off_cmsg_type (linux64 le) = 12"
  "pad_cmsghdr (linux64 le) = 0"
  "off_ee_origin (linux64 le) = 4"
  "off_ee_type (linux64 le) = 5"
  "off_ee_code (linux64 le) = 6"
  "off_ee_info (linux64 le) = 8"
  "size_sock_extended_err (linux64 le) = 16"
  "off_sin_port (linux64 le) = 2"
  "off_sin_addr (linux64 le) = 4"
  "size_sockaddr_in (linux64 le) = 16"
  "off_sin6_port (linux64 le) = 2"
  "off_sin6_flowinfo (linux64 le) = 4"
  "off_sin6_addr (linux64 le) = 8"
  "off_sin6_scope_id (linux64 le) = 24"
  "size_sockaddr_in6 (linux64 le) = 28"
  "AF_INET (linux64 le) = 2"
  "AF_INET6 (linux64 le) = 10"
  "IPPROTO_IP (linux64 le) = 0"
  "IPPROTO_IPV6 (linux64 le) = 41"
  "IP_RECVERR (linux64 le) = 11"
  "IPV6_RECVERR (linux64 le) = 25"
  "IP_TTL (linux64 le) = 2"
  "IPV6_HOPLIMIT (linux64 le) = 52"
  "SO_EE_ORIGIN_ICMP (linux64 le) = 2"
  "SO_EE_ORIGIN_ICMP6 (linux64 le) = 3"
  "MSG_ERRQUEUE (linux64 le) = 8192"
  "EHOSTUNREACH (linux64 le) = 113"
  "ETIME (linux64 le) = 62"
  "EBUSY (linux64 le) = 16"
  "CMSG_LEN (linux64 le) = (\<lambda>n. 16 + n)"
  "CMSG_SPACE (linux64 le) = (\<lambda>n. 16 + align_up n)"
  by (simp_all add: linux64_def)

lemma size_cmsghdr_linux64 [simp]: "size_cmsghdr (linux64 le) = 16"
  by (simp add: size_cmsghdr_def size_of_usize_def size_of_c_int_def)

lemma platform_ok_linux64: "platform_ok (linux64 le)"
proof -
  have "align_up 16 = 16" by (simp add: align_up_def)
  then show ?thesis by (simp add: platform_ok_def)
qed

locale libc_layout =
  fixes P :: platform
  assumes ok: "platform_ok P"
begin

lemma cmsghdr_size: "size_cmsghdr P \<le> 4096"
  using ok by (simp add: platform_ok_def)

lemma extended_err_fields:
  "off_ee_origin P < size_sock_extended_err P" "off_ee_type P < size_sock_extended_err P"
  "off_ee_code P < size_sock_extended_err P" "off_ee_info P + 4 \<le> size_sock_extended_err P"
  "size_sock_extended_err P \<le> 4096"
  using ok by (simp_all add: platform_ok_def)

lemma sockaddr_in_fields:
  "2 \<le> size_sockaddr_in P" "off_sin_port P + 2 \<le> size_sockaddr_in P"
  "off_sin_addr P + 4 \<le> size_sockaddr_in P" "size_sockaddr_in P \<le> 4096"
  using ok by (simp_all add: platform_ok_def)

lemma sockaddr_in6_fields:
  "2 \<le> size_sockaddr_in6 P" "off_sin6_port P + 2 \<le> size_sockaddr_in6 P"
  "off_sin6_addr P + 16 \<le> size_sockaddr_in6 P" "size_sockaddr_in6 P \<le> 4096"
  using ok by (simp_all add: platform_ok_def)

lemma cmsg_macros:
  "n \<le> 8192 \<Longrightarrow> CMSG_LEN P n = align_up (size_cmsghdr P) + n"
  "n \<le> 8192 \<Longrightarrow> CMSG_SPACE P n = align_up (size_cmsghdr P) + align_up n"
  using ok by (simp_all add: platform_ok_def)

lemma families_differ: "AF_INET P \<noteq> AF_INET6 P"
  using ok by (simp add: platform_ok_def)

end

interpretation linux: libc_layout "linux64 le" for le
  by unfold_locales (rule platform_ok_linux64)

section \<open>The operating system\<close>

text \<open>
  The socket calls of the program and its name lookup. The operating system answers each call, knowing the calls made
  before it; an answer is an errno or a value. A computation threads the list of calls made so
  far, so a statement can say which calls were made and in what order.
\<close>

type_synonym fd = nat

datatype sock_type = Dgram | Stream | Raw
datatype protocol = ProtoIcmpV4 | ProtoIcmpV6 | ProtoUdp | ProtoTcp

datatype syscall =
    SysSocket domain sock_type protocol
  | SysBind fd sock_addr
  | SysConnect fd sock_addr
  | SysLocalAddr fd
  | SysDomain fd
  | SysSetsockopt fd i32 i32 i32
  | SysLookup string          \<comment> \<open>\<open>getaddrinfo\<close> of a host name\<close>

record os =
  os_socket :: "syscall list \<Rightarrow> i32 + fd"
  os_unit :: "syscall list \<Rightarrow> i32 + unit"     \<comment> \<open>bind, connect and setsockopt\<close>
  os_addr :: "syscall list \<Rightarrow> i32 + sock_addr"
  os_domain :: "syscall list \<Rightarrow> i32 + domain"

text \<open>Each answer may depend on the whole history, whose last element is the call it answers.\<close>

type_synonym 'a io = "syscall list \<Rightarrow> 'a rust \<times> syscall list"

definition io_return :: "'a \<Rightarrow> 'a io" where
  "io_return x = (\<lambda>h. (Inr x, h))"

definition io_fail :: "fault \<Rightarrow> 'a io" where
  "io_fail e = (\<lambda>h. (Inl e, h))"

definition io_bind :: "'a io \<Rightarrow> ('a \<Rightarrow> 'b io) \<Rightarrow> 'b io" where
  "io_bind m f = (\<lambda>h. case m h of (Inl e, h') \<Rightarrow> (Inl e, h') | (Inr x, h') \<Rightarrow> f x h')"

definition io_call :: "(syscall list \<Rightarrow> i32 + 'a) \<Rightarrow> syscall \<Rightarrow> 'a io" where
  "io_call answer c = (\<lambda>h. (case answer (h @ [c]) of Inl e \<Rightarrow> Inl (Fail (IoError e)) | Inr x \<Rightarrow> Inr x, h @ [c]))"

definition io_lift :: "'a rust \<Rightarrow> 'a io" where
  "io_lift m = (\<lambda>h. (m, h))"

lemmas io_defs = io_return_def io_fail_def io_bind_def io_call_def io_lift_def

lemma io_bind_return [simp]: "io_bind (io_return x) f = f x"
  by (simp add: io_defs)

lemma io_lift_simps [simp]: "io_lift (Inr x) = io_return x" "io_lift (Inl e) = io_fail e"
  by (simp_all add: io_defs)

lemma io_bind_fail [simp]: "io_bind (io_fail e) f = io_fail e"
  by (simp add: io_defs)

lemma io_bind_assoc: "io_bind (io_bind m f) g = io_bind m (\<lambda>x. io_bind (f x) g)"
  by (auto simp: io_bind_def fun_eq_iff split: prod.splits sum.splits)

lemma io_bind_Inr:
  "io_bind m f h = (Inr y, h') \<longleftrightarrow> (\<exists>x h1. m h = (Inr x, h1) \<and> f x h1 = (Inr y, h'))"
  by (auto simp: io_bind_def split: prod.splits sum.splits)

lemma io_call_Inr:
  "io_call answer c h = (Inr x, h') \<longleftrightarrow> answer (h @ [c]) = Inr x \<and> h' = h @ [c]"
  by (auto simp: io_call_def split: sum.splits)

end
