(* ===== verification/Reply_Kinds.thy ===== *)
theory Reply_Kinds
  imports Ring_Prelude
begin

text \<open>
  What a reply means for the trace (\<open>ReplyKind\<close> and \<open>Unreachable\<close> of src/src/method/mod.rs), how an
  unreachable annotation is printed, and the classification of ICMP errors
  (\<open>IcmpError::kind\<close> of src/src/icmp.rs), with the lemmas that say exactly which ICMP messages end
  the trace, which are hops, and that printed annotations can be told apart.
\<close>

section \<open>Reply kinds\<close>

datatype unreachable =
    Marker string
  | Code u8
  | Other u8 u8
  | TooBig u32

datatype reply_kind =
    Hop
  | Destination
  | Unreachable unreachable

text \<open>\<open>impl Display for Unreachable\<close>.\<close>

fun display_unreachable :: "unreachable \<Rightarrow> string" where
  "display_unreachable (Marker marker) = marker"
| "display_unreachable (Code code) = ''!<'' @ show_nat (unat code) @ ''>''"
| "display_unreachable (Other icmp_type code) =
     ''!<'' @ show_nat (unat icmp_type) @ ''-'' @ show_nat (unat code) @ ''>''"
| "display_unreachable (TooBig mtu) = ''!F-'' @ show_nat (unat mtu)"

definition terminates_trace :: "reply_kind \<Rightarrow> bool" where
  "terminates_trace k = (case k of Destination \<Rightarrow> True | _ \<Rightarrow> False)"

lemma terminates_trace_iff [simp]: "terminates_trace k \<longleftrightarrow> k = Destination"
  by (cases k) (simp_all add: terminates_trace_def)

section \<open>ICMP errors\<close>

definition v4_ECHO_REQUEST :: u8 where "v4_ECHO_REQUEST = 8"
definition v4_DEST_UNREACH :: u8 where "v4_DEST_UNREACH = 3"
definition v4_TIME_EXCEEDED :: u8 where "v4_TIME_EXCEEDED = 11"

definition v6_ECHO_REQUEST :: u8 where "v6_ECHO_REQUEST = 128"
definition v6_DEST_UNREACH :: u8 where "v6_DEST_UNREACH = 1"
definition v6_PACKET_TOO_BIG :: u8 where "v6_PACKET_TOO_BIG = 2"
definition v6_TIME_EXCEEDED :: u8 where "v6_TIME_EXCEEDED = 3"

lemmas icmp_constants =
  v4_ECHO_REQUEST_def v4_DEST_UNREACH_def v4_TIME_EXCEEDED_def
  v6_ECHO_REQUEST_def v6_DEST_UNREACH_def v6_PACKET_TOO_BIG_def v6_TIME_EXCEEDED_def

datatype icmp_error =
    IcmpV4 (icmp_type: u8) (icmp_code: u8) (icmp_info: u32)
  | IcmpV6 (icmp_type: u8) (icmp_code: u8) (icmp_info: u32)

text \<open>The arms of \<open>IcmpError::kind\<close>, in the order of the source.\<close>

fun kind :: "icmp_error \<Rightarrow> reply_kind" where
  "kind (IcmpV4 ty code info) =
     (if ty = v4_TIME_EXCEEDED \<and> code = 0 then Hop
      else if ty = v4_DEST_UNREACH \<and> code = 3 then Destination
      else Unreachable
        (if ty = v4_DEST_UNREACH \<and> code \<in> {0, 6, 8, 11} then Marker ''!N''
         else if ty = v4_DEST_UNREACH \<and> code \<in> {1, 7, 12} then Marker ''!H''
         else if ty = v4_DEST_UNREACH \<and> code \<in> {9, 10, 13} then Marker ''!X''
         else if ty = v4_DEST_UNREACH \<and> code = 2 then Marker ''!P''
         else if ty = v4_DEST_UNREACH \<and> code = 4 then TooBig info
         else if ty = v4_DEST_UNREACH \<and> code = 5 then Marker ''!S''
         else if ty = v4_DEST_UNREACH \<and> code = 14 then Marker ''!V''
         else if ty = v4_DEST_UNREACH \<and> code = 15 then Marker ''!C''
         else if ty = v4_DEST_UNREACH then Code code
         else Other ty code))"
| "kind (IcmpV6 ty code info) =
     (if ty = v6_TIME_EXCEEDED \<and> code = 0 then Hop
      else if ty = v6_DEST_UNREACH \<and> code = 4 then Destination
      else Unreachable
        (if ty = v6_DEST_UNREACH \<and> code = 0 then Marker ''!N''
         else if ty = v6_DEST_UNREACH \<and> code = 1 then Marker ''!X''
         else if ty = v6_DEST_UNREACH \<and> code \<in> {2, 3} then Marker ''!H''
         else if ty = v6_DEST_UNREACH then Code code
         else if ty = v6_PACKET_TOO_BIG then TooBig info
         else Other ty code))"

lemma kind_Hop_iff:
  "kind e = Hop \<longleftrightarrow>
     (case e of IcmpV4 ty code _ \<Rightarrow> ty = 11 \<and> code = 0 | IcmpV6 ty code _ \<Rightarrow> ty = 3 \<and> code = 0)"
  by (cases e) (auto simp: icmp_constants)

lemma kind_Destination_iff:
  "kind e = Destination \<longleftrightarrow>
     (case e of IcmpV4 ty code _ \<Rightarrow> ty = 3 \<and> code = 3 | IcmpV6 ty code _ \<Rightarrow> ty = 1 \<and> code = 4)"
  by (cases e) (auto simp: icmp_constants)

section \<open>Which messages end the trace\<close>

text \<open>
  C30: An ICMP error ends the trace exactly when it is Port Unreachable, that is type 3 code 3 for
  ICMPv4 and type 1 code 4 for ICMPv6; it is an intermediate hop exactly when it is Time Exceeded
  in transit (type 11 code 0, respectively type 3 code 0).
\<close>

theorem icmp_error_ends_trace_iff:
  "(terminates_trace (kind e) \<longleftrightarrow>
      (\<exists>info. e = IcmpV4 3 3 info) \<or> (\<exists>info. e = IcmpV6 1 4 info)) \<and>
   (kind e = Hop \<longleftrightarrow> (\<exists>info. e = IcmpV4 11 0 info) \<or> (\<exists>info. e = IcmpV6 3 0 info))"
  unfolding terminates_trace_iff kind_Destination_iff kind_Hop_iff by (cases e) simp_all

section \<open>Annotations can be told apart\<close>

text \<open>The markers \<open>kind\<close> and the error queue's \<open>classify\<close> use.\<close>

definition known_markers :: "string list" where
  "known_markers = [''!N'', ''!H'', ''!X'', ''!P'', ''!S'', ''!V'', ''!C'', ''!?'']"

definition known_annotation :: "unreachable \<Rightarrow> bool" where
  "known_annotation u = (case u of Marker m \<Rightarrow> m \<in> set known_markers | _ \<Rightarrow> True)"

lemma kind_known_annotation: "kind e = Unreachable u \<Longrightarrow> known_annotation u"
  by (cases e) (auto simp: known_annotation_def known_markers_def icmp_constants
      split: if_splits)

lemma dash_not_in_show_nat: "CHR ''-'' \<notin> set (show_nat n)"
  using show_nat_digits [of "CHR ''-''" n] by (auto simp: is_digit_def)

lemma split_at_dash:
  assumes "show_nat a @ CHR ''-'' # x = show_nat b @ CHR ''-'' # y"
  shows "a = b \<and> x = y"
proof -
  have before: "takeWhile (\<lambda>c. c \<noteq> CHR ''-'') (show_nat n @ CHR ''-'' # z) = show_nat n" for n z
    using dash_not_in_show_nat [of n] by (subst takeWhile_append2) auto
  have "show_nat a = show_nat b" using arg_cong [OF assms] before by metis
  with assms show ?thesis by simp
qed

lemma known_marker_shape: "m \<in> set known_markers \<Longrightarrow> length m = 2"
  by (auto simp: known_markers_def)

lemma display_not_marker:
  "known_annotation (Marker m) \<Longrightarrow> display_unreachable u = m \<Longrightarrow> known_annotation u \<Longrightarrow> u = Marker m"
  by (cases u) (auto simp: known_annotation_def dest!: known_marker_shape)

lemma unat_inject_word: "unat (a :: 'a::len word) = unat b \<longleftrightarrow> a = b"
  by (simp add: word_unat_eq_iff)

lemma code_is_not_other: "display_unreachable (Code c) \<noteq> display_unreachable (Other t d)"
proof
  assume "display_unreachable (Code c) = display_unreachable (Other t d)"
  then have "show_nat (unat c) @ ''>'' = show_nat (unat t) @ CHR ''-'' # show_nat (unat d) @ ''>''"
    by simp
  then have "set (show_nat (unat c) @ ''>'') =
             set (show_nat (unat t) @ CHR ''-'' # show_nat (unat d) @ ''>'')"
    by (rule arg_cong)
  then show False using dash_not_in_show_nat [of "unat c"] by auto
qed

text \<open>
  Among the annotations the program can produce, two print the same text only when they are
  the same annotation, so a reader of the output can recover the ICMP type, code or MTU.
\<close>

lemma display_unreachable_inject:
  assumes "known_annotation u" and "known_annotation v"
    and "display_unreachable u = display_unreachable v"
  shows "u = v"
proof (cases "(\<exists>m. u = Marker m) \<or> (\<exists>m. v = Marker m)")
  case True
  with assms show ?thesis by (metis display_not_marker display_unreachable.simps(1))
next
  case False
  with assms(3) show ?thesis
    using code_is_not_other code_is_not_other [symmetric]
    by (cases u; cases v) (auto simp: unat_inject_word simp del: word_unat_eq_iff dest!: split_at_dash)
qed

lemma display_unreachable_inject_witness:
  "\<exists>u. kind (IcmpV4 3 99 0) = Unreachable u \<and> display_unreachable u = ''!<99>'' \<and> u = Code 99"
proof -
  have k: "kind (IcmpV4 3 99 0) = Unreachable (Code (90 + 9))" by (simp add: icmp_constants)
  have d: "display_unreachable (Code (90 + 9)) = ''!<99>''"
    "display_unreachable (Code (90 + 9)) = display_unreachable (Code 99)" by code_simp+
  have "known_annotation (Code 99)" by (simp add: known_annotation_def)
  with k d(1) show ?thesis
    using display_unreachable_inject [OF kind_known_annotation [OF k] _ d(2)] by blast
qed

text \<open>
  A Destination Unreachable without a marker of its own keeps its code: for ICMPv4 these are
  the codes from 16 on, for ICMPv6 the codes from 5 on; every smaller code has a marker, reports
  the MTU, or is the destination's answer.
\<close>

lemma dest_unreach_code_kept_iff:
  "(kind (IcmpV4 3 code info) = Unreachable (Code code) \<longleftrightarrow> 16 \<le> code) \<and>
   (kind (IcmpV6 1 code info) = Unreachable (Code code) \<longleftrightarrow> 5 \<le> code)"
proof -
  have small: "code < 16 \<longleftrightarrow> code \<in> {0, 1, 2, 3, 4, 5, 6, 7, 8, 9, 10, 11, 12, 13, 14, 15}"
  proof -
    have "code \<in> of_nat ` {..<16}" if "code < 16"
    proof -
      have "unat code < 16" using that by (simp add: word_less_nat_alt)
      then show ?thesis by (intro image_eqI [of _ _ "unat code"]) simp_all
    qed
    moreover have "(of_nat :: nat \<Rightarrow> u8) ` {..<16} =
        {0, 1, 2, 3, 4, 5, 6, 7, 8, 9, 10, 11, 12, 13, 14, 15}"
      by (simp add: lessThan_nat_numeral lessThan_Suc insert_commute)
    ultimately show ?thesis by auto
  qed
  have five: "5 \<le> code \<longleftrightarrow> code \<notin> {0, 1, 2, 3, 4}"
  proof (cases "code < 16")
    case True
    then show ?thesis using small by (auto simp: word_le_nat_alt)
  next
    case False
    then have "16 \<le> code" by simp
    then have "5 \<le> code" by (rule order_trans [rotated]) simp
    with False show ?thesis by (auto simp: word_le_nat_alt)
  qed
  have "16 \<le> code \<longleftrightarrow> \<not> code < 16" by auto
  then show ?thesis unfolding small five by (auto simp: icmp_constants)
qed

end
