(* ===== verification/Net.thy ===== *)
theory Net
  imports Platform Reply_Kinds
begin

unbundle bit_operations_syntax

text \<open>
  src/src/net.rs: socket addresses and ICMP errors read out of the buffers the kernel fills.
  \<open>parse_ip_recverr\<close> walks the control messages of an error queue read; its offsets are checked
  as a build with overflow checks does, so an overflow would be a panic of the model. The lemmas
  show that the walk terminates, that no offset overflows on a slice of legal length, that the
  result is the first \<open>IP_RECVERR\<close> message of a reference walk, and that buffers written the way
  the kernel writes them are read back.
\<close>

section \<open>Constants\<close>

definition MIN_IPV4_HEADER_LEN :: nat where "MIN_IPV4_HEADER_LEN = 20"
definition IPV6_HEADER_LENGTH :: nat where "IPV6_HEADER_LENGTH = 40"

text \<open>\<open>enable_recverr\<close>: the socket's domain selects the level and the option.\<close>

definition enable_recverr :: "platform \<Rightarrow> os \<Rightarrow> fd \<Rightarrow> unit io" where
  "enable_recverr P sys socket =
     io_bind (io_call (os_domain sys) (SysDomain socket)) (\<lambda>dom.
       let (level, name) = (if dom = DomainIpv6 then (IPPROTO_IPV6 P, IPV6_RECVERR P)
                            else (IPPROTO_IP P, IP_RECVERR P));
           enabled = 1
       in io_call (os_unit sys) (SysSetsockopt socket level name enabled))"

section \<open>Alignment\<close>

definition usize_add :: "nat \<Rightarrow> nat \<Rightarrow> nat rust" where
  "usize_add a b = (if a + b < 2 ^ 64 then Inr (a + b) else Inl (Panic ArithmeticOverflow))"

lemma usize_add_Inr [simp]: "a + b < 2 ^ 64 \<Longrightarrow> usize_add a b = Inr (a + b)"
  by (simp add: usize_add_def)

lemma usize_add_Inr_iff: "usize_add a b = Inr c \<longleftrightarrow> c = a + b \<and> a + b < 2 ^ 64"
  by (auto simp: usize_add_def)

text \<open>\<open>cmsg_align\<close>: round up to the word size with a mask.\<close>

definition cmsg_align :: "nat \<Rightarrow> nat rust" where
  "cmsg_align len =
     (let align = size_of_usize in
      try_bind (usize_add len align) (\<lambda>s.
        Inr (unat ((of_nat (s - 1) :: usize) AND NOT (of_nat (align - 1))))))"

lemma and_not_seven: "(x :: usize) AND NOT 7 = push_bit 3 (drop_bit 3 x)"
proof -
  have "(7 :: usize) = mask 3" by (simp add: mask_eq_exp_minus_1)
  then show ?thesis by (simp add: bit_eq_iff bit_simps) (auto simp: not_less)
qed

lemma unat_and_not_seven: "unat ((x :: usize) AND - 8) = unat x div 8 * 8"
proof -
  have "unat x div 8 * 8 < 2 ^ 64"
    using unat_bound [of x] div_times_less_eq_dividend [of "unat x" 8] by simp
  then have "unat (x div 8 * 8) = unat x div 8 * 8"
    by (simp add: unat_word_ariths unat_div)
  then show ?thesis using and_not_seven [of x]
    by (simp add: push_bit_eq_mult drop_bit_eq_div)
qed

lemma cmsg_align_eq:
  "cmsg_align n = (if n + 8 < 2 ^ 64 then Inr (align_up n) else Inl (Panic ArithmeticOverflow))"
proof (cases "n + 8 < 2 ^ 64")
  case True
  moreover have "unat (of_nat (n + 7) :: usize) = (n + 7) mod 2 ^ LENGTH(64)"
    by (rule unat_of_nat)
  ultimately have "unat (of_nat (n + 7) :: usize) = n + 7" by simp
  then have "unat ((of_nat (n + 7) :: usize) AND - 8) = align_up n"
    by (simp add: unat_and_not_seven align_up_def)
  with True show ?thesis
    by (simp add: cmsg_align_def usize_add_def size_of_usize_def add.commute)
next
  case False
  then show ?thesis by (simp add: cmsg_align_def usize_add_def size_of_usize_def)
qed

lemma cmsg_align_ge: "cmsg_align n = Inr m \<Longrightarrow> n \<le> m"
  using align_up_ge [of n] by (auto simp: cmsg_align_eq split: if_splits)

text \<open>
  \<open>cmsg_align\<close> computes, with its mask, the least multiple of the word size that is not
  below its argument, for every argument that leaves room for the rounding.
\<close>

lemma cmsg_align_least_multiple:
  assumes "n + 8 < 2 ^ 64"
  shows "\<exists>m. cmsg_align n = Inr m \<and> 8 dvd m \<and> n \<le> m \<and> (\<forall>k. 8 dvd k \<longrightarrow> n \<le> k \<longrightarrow> m \<le> k)"
proof -
  have "align_up n \<le> k" if "8 dvd k" "n \<le> k" for k
    using that unfolding align_up_def by (auto elim!: dvdE)
  then show ?thesis
    using assms align_up_dvd [of n] align_up_ge [of n] by (auto simp: cmsg_align_eq)
qed

text \<open>The two constants the file computes with it, evaluated at compile time.\<close>

definition CMSG_HEADER_LEN :: "platform \<Rightarrow> nat rust" where
  "CMSG_HEADER_LEN P = cmsg_align (size_cmsghdr P)"

definition RECVERR_CONTROL_LEN :: "platform \<Rightarrow> nat" where
  "RECVERR_CONTROL_LEN P =
     CMSG_SPACE P ((size_sock_extended_err P + size_sockaddr_in6 P) mod 2 ^ 32)"

section \<open>Socket addresses\<close>

definition parse_sockaddr :: "platform \<Rightarrow> bytes \<Rightarrow> sock_addr option" where
  "parse_sockaddr P bs =
     (case get_range bs 0 2 of
        None \<Rightarrow> None
      | Some family_bytes \<Rightarrow>
          let family = int (ne_nat P family_bytes) in
          if family = AF_INET P then
            (case get_range bs 0 (size_sockaddr_in P) of
               None \<Rightarrow> None
             | Some address \<Rightarrow>
                 let s_addr = ne_nat P (field address (off_sin_addr P) 4);
                     sin_port = ne_nat P (field address (off_sin_port P) 2)
                 in Some (SockV4 (ipv4_from_octets (ne_bytes P 4 s_addr))
                                 (u16_from_be_value P sin_port)))
          else if family = AF_INET6 P then
            (case get_range bs 0 (size_sockaddr_in6 P) of
               None \<Rightarrow> None
             | Some address \<Rightarrow>
                 let s6_addr = field address (off_sin6_addr P) 16;
                     sin6_port = ne_nat P (field address (off_sin6_port P) 2);
                     sin6_flowinfo = ne_nat P (field address (off_sin6_flowinfo P) 4);
                     sin6_scope_id = ne_nat P (field address (off_sin6_scope_id P) 4)
                 in Some (SockV6 (ipv6_from_octets s6_addr) (u16_from_be_value P sin6_port)
                                 (of_nat sin6_flowinfo) (of_nat sin6_scope_id)))
          else None)"

lemma parse_sockaddr_is_socket:
  "parse_sockaddr P bs = Some a \<Longrightarrow> \<exists>ip p. as_socket a = Some (ip, p)"
  by (auto simp: parse_sockaddr_def Let_def split: option.splits if_splits)

text \<open>The kernel's side: a \<open>sockaddr_in\<close> and a \<open>sockaddr_in6\<close> of Linux, followed by other bytes.\<close>

definition linux_sockaddr_in :: "bool \<Rightarrow> 32 word \<Rightarrow> u16 \<Rightarrow> bytes" where
  "linux_sockaddr_in le ip port =
     ne_bytes (linux64 le) 2 2 @ u16_to_be port @ be_bytes 4 (unat ip) @ replicate 8 0"

definition linux_sockaddr_in6 :: "bool \<Rightarrow> 128 word \<Rightarrow> u16 \<Rightarrow> u32 \<Rightarrow> u32 \<Rightarrow> bytes" where
  "linux_sockaddr_in6 le ip port flow scope =
     ne_bytes (linux64 le) 2 10 @ u16_to_be port @ ne_bytes (linux64 le) 4 (unat flow) @
     be_bytes 16 (unat ip) @ ne_bytes (linux64 le) 4 (unat scope)"

lemma of_nat_unat_mod: "LENGTH('a::len) \<le> k \<Longrightarrow> of_nat (unat (w :: 'a word) mod 2 ^ k) = w"
proof -
  assume "LENGTH('a) \<le> k"
  then have "unat w < 2 ^ k"
    using unat_bound [of w] by (meson order_less_le_trans one_le_numeral power_increasing)
  then show ?thesis by simp
qed

lemma length_linux_sockaddr [simp]:
  "length (linux_sockaddr_in le ip port) = 16"
  "length (linux_sockaddr_in6 le ip6 port flow scope) = 28"
  by (simp_all add: linux_sockaddr_in_def linux_sockaddr_in6_def)

lemma octets_roundtrip:
  "ipv4_from_octets (be_bytes 4 (unat a)) = a"
  "ipv6_from_octets (be_bytes 16 (unat b)) = b"
  using of_nat_unat_mod [of 32 a] of_nat_unat_mod [of 128 b]
  by (simp_all add: ipv4_from_octets_def ipv6_from_octets_def be_nat_be_bytes)

lemma parse_sockaddr_linux:
  "parse_sockaddr (linux64 le) (linux_sockaddr_in le ip port @ rest) = Some (SockV4 ip port)"
  "parse_sockaddr (linux64 le) (linux_sockaddr_in6 le ip6 port flow scope @ rest) =
     Some (SockV6 ip6 port flow scope)"
  using of_nat_unat_mod [of 32 flow] of_nat_unat_mod [of 32 scope]
  by (simp_all add: parse_sockaddr_def linux_sockaddr_in_def linux_sockaddr_in6_def get_range_def
      field_def ne_nat_ne_bytes ne_bytes_ne_nat u16_from_be_value_ne octets_roundtrip)

text \<open>
  C39: A socket address laid out as Linux does, in either byte order and followed by any further
  bytes, is parsed back to the same address and port; cut short by one byte or more it is refused.
\<close>

theorem parse_sockaddr_roundtrip:
  "parse_sockaddr (linux64 le) (linux_sockaddr_in le ip port @ rest) = Some (SockV4 ip port) \<and>
   parse_sockaddr (linux64 le) (linux_sockaddr_in6 le ip6 port flow scope @ rest) =
     Some (SockV6 ip6 port flow scope) \<and>
   (\<forall>n < 16. parse_sockaddr (linux64 le) (take n (linux_sockaddr_in le ip port)) = None) \<and>
   (\<forall>n < 28. parse_sockaddr (linux64 le) (take n (linux_sockaddr_in6 le ip6 port flow scope)) = None)"
proof (intro conjI allI impI)
  show "parse_sockaddr (linux64 le) (linux_sockaddr_in le ip port @ rest) = Some (SockV4 ip port)"
    "parse_sockaddr (linux64 le) (linux_sockaddr_in6 le ip6 port flow scope @ rest) =
     Some (SockV6 ip6 port flow scope)"
    by (rule parse_sockaddr_linux)+
  fix n
  show "parse_sockaddr (linux64 le) (take n (linux_sockaddr_in le ip port)) = None" if "n < 16"
    using that by (cases "n < 2") (simp_all add: parse_sockaddr_def get_range_def
        linux_sockaddr_in_def ne_nat_ne_bytes)
  show "parse_sockaddr (linux64 le) (take n (linux_sockaddr_in6 le ip6 port flow scope)) = None"
    if "n < 28"
    using that by (cases "n < 2") (simp_all add: parse_sockaddr_def get_range_def
        linux_sockaddr_in6_def ne_nat_ne_bytes)
qed

theorem parse_sockaddr_roundtrip_witness:
  "parse_sockaddr (linux64 True) (take 15 (linux_sockaddr_in True 0x7F000001 80)) = None \<and>
   parse_sockaddr (linux64 False) (linux_sockaddr_in6 False 1 80 0 0) = Some (SockV6 1 80 0 0)"
  using parse_sockaddr_roundtrip [of True "0x7F000001" 80 "[]" 1 0 0]
    parse_sockaddr_roundtrip [of False 0 80 "[]" 1 0 0]
  by simp

section \<open>Walking the control messages\<close>

text \<open>A subset of the fields of \<open>sock_extended_err\<close>, and the address that follows it.\<close>

record extended_error =
  ee_error :: icmp_error
  ee_source_bytes :: bytes

lemma try_bind_cong [fundef_cong]:
  "m = m' \<Longrightarrow> (\<And>x. m' = Inr x \<Longrightarrow> f x = g x) \<Longrightarrow> try_bind m f = try_bind m' g"
  by (cases m') auto

text \<open>The fields of the \<open>cmsghdr\<close> at an offset.\<close>

definition hdr_cmsg_len :: "platform \<Rightarrow> bytes \<Rightarrow> nat \<Rightarrow> nat" where
  "hdr_cmsg_len P control offset = ne_nat P (field control (offset + off_cmsg_len P) size_of_usize)"

definition hdr_cmsg_level :: "platform \<Rightarrow> bytes \<Rightarrow> nat \<Rightarrow> i32" where
  "hdr_cmsg_level P control offset =
     ne_i32 P (field control (offset + off_cmsg_level P) size_of_c_int)"

definition hdr_cmsg_type :: "platform \<Rightarrow> bytes \<Rightarrow> nat \<Rightarrow> i32" where
  "hdr_cmsg_type P control offset =
     ne_i32 P (field control (offset + off_cmsg_type P) size_of_c_int)"

definition is_recverr :: "platform \<Rightarrow> i32 \<Rightarrow> i32 \<Rightarrow> bool" where
  "is_recverr P level ty \<longleftrightarrow>
     (level, ty) = (IPPROTO_IP P, IP_RECVERR P) \<or> (level, ty) = (IPPROTO_IPV6 P, IPV6_RECVERR P)"

text \<open>The ICMP error in the \<open>sock_extended_err\<close> at an offset, by its origin.\<close>

definition read_icmp_error :: "platform \<Rightarrow> bytes \<Rightarrow> nat \<Rightarrow> icmp_error option" where
  "read_icmp_error P control data_offset =
     (let ee_origin = (of_nat (ne_nat P (field control (data_offset + off_ee_origin P) 1)) :: u8);
          ee_type = of_nat (ne_nat P (field control (data_offset + off_ee_type P) 1));
          ee_code = of_nat (ne_nat P (field control (data_offset + off_ee_code P) 1));
          ee_info = of_nat (ne_nat P (field control (data_offset + off_ee_info P) 4))
      in if ee_origin = SO_EE_ORIGIN_ICMP P then Some (IcmpV4 ee_type ee_code ee_info)
         else if ee_origin = SO_EE_ORIGIN_ICMP6 P then Some (IcmpV6 ee_type ee_code ee_info)
         else None)"

text \<open>The body of the \<open>if matches!\<close> block: bounds, origin, and the bytes after the error.\<close>

definition decode_recverr ::
    "platform \<Rightarrow> bytes \<Rightarrow> nat \<Rightarrow> nat \<Rightarrow> nat \<Rightarrow> extended_error option rust" where
  "decode_recverr P control hdr offset cmsg_end =
     try_bind (usize_add offset hdr) (\<lambda>data_offset.
     try_bind (usize_add data_offset (size_sock_extended_err P)) (\<lambda>error_end.
       if cmsg_end < error_end then Inr None
       else case read_icmp_error P control data_offset of
              None \<Rightarrow> Inr None
            | Some icmp_error \<Rightarrow>
                try_bind (ok_or (Panic IndexOutOfBounds) (get_range control error_end cmsg_end))
                  (\<lambda>source_bytes. Inr (Some \<lparr>ee_error = icmp_error, ee_source_bytes = source_bytes\<rparr>))))"

text \<open>The \<open>while\<close> loop, from an offset.\<close>

function recverr_from :: "platform \<Rightarrow> bytes \<Rightarrow> nat \<Rightarrow> extended_error option rust" where
  "recverr_from P control offset =
     try_bind (usize_add offset (size_cmsghdr P)) (\<lambda>header_end.
       if length control < header_end then Inr None
       else
         let cmsg_len = hdr_cmsg_len P control offset;
             level = hdr_cmsg_level P control offset;
             ty = hdr_cmsg_type P control offset
         in if 2 ^ 64 \<le> offset + cmsg_len then Inr None
            else try_bind (CMSG_HEADER_LEN P) (\<lambda>hdr.
              if cmsg_len < hdr \<or> length control < offset + cmsg_len then Inr None
              else if is_recverr P level ty
                then decode_recverr P control hdr offset (offset + cmsg_len)
              else try_bind (cmsg_align cmsg_len) (\<lambda>aligned.
                   try_bind (usize_add offset aligned) (\<lambda>next_offset.
                     recverr_from P control next_offset))))"
  by pat_completeness auto
termination
proof (relation "measure (\<lambda>(P, control, offset). length control - offset)", simp)
  fix P :: platform and control :: bytes
  fix offset header_end cmsg_len level ty hdr aligned next_offset
  assume h: "usize_add offset (size_cmsghdr P) = Inr header_end" "\<not> length control < header_end"
    and "cmsg_len = hdr_cmsg_len P control offset"
    and hdr: "CMSG_HEADER_LEN P = Inr hdr" "\<not> (cmsg_len < hdr \<or> length control < offset + cmsg_len)"
    and al: "cmsg_align cmsg_len = Inr aligned" "usize_add offset aligned = Inr next_offset"
  have "8 \<le> hdr"
    using cmsg_align_ge [of "size_cmsghdr P" hdr] hdr(1) size_cmsghdr_pos [of P]
    by (simp add: CMSG_HEADER_LEN_def)
  then have "offset < next_offset"
    using hdr(2) cmsg_align_ge [OF al(1)] al(2) by (auto simp: usize_add_Inr_iff)
  moreover have "offset < length control"
    using h size_cmsghdr_pos [of P] by (auto simp: usize_add_Inr_iff)
  ultimately show "((P, control, next_offset), P, control, offset)
      \<in> measure (\<lambda>(P, control, offset). length control - offset)"
    by auto
qed

declare recverr_from.simps [simp del]

definition parse_ip_recverr :: "platform \<Rightarrow> bytes \<Rightarrow> extended_error option rust" where
  "parse_ip_recverr P control = recverr_from P control 0"

section \<open>The loop is the first match of a reference walk\<close>

text \<open>
  The reference: the list of well-formed control messages (level, type, start and end of the
  data), on unbounded offsets and with \<open>align_up\<close> for the mask.
\<close>

function cmsg_walk :: "platform \<Rightarrow> bytes \<Rightarrow> nat \<Rightarrow> (i32 \<times> i32 \<times> nat \<times> nat) list" where
  "cmsg_walk P control off =
     (if off + size_cmsghdr P \<le> length control \<and>
         align_up (size_cmsghdr P) \<le> hdr_cmsg_len P control off \<and>
         off + hdr_cmsg_len P control off \<le> length control
      then (hdr_cmsg_level P control off, hdr_cmsg_type P control off,
            off + align_up (size_cmsghdr P), off + hdr_cmsg_len P control off)
           # cmsg_walk P control (off + align_up (hdr_cmsg_len P control off))
      else [])"
  by pat_completeness auto
termination
proof (relation "measure (\<lambda>(P, control, off). length control - off)", simp)
  fix P :: platform and control :: bytes and off :: nat
  assume "off + size_cmsghdr P \<le> length control \<and>
         align_up (size_cmsghdr P) \<le> hdr_cmsg_len P control off \<and>
         off + hdr_cmsg_len P control off \<le> length control"
  then show "((P, control, off + align_up (hdr_cmsg_len P control off)), P, control, off)
      \<in> measure (\<lambda>(P, control, off). length control - off)"
    using size_cmsghdr_pos [of P] align_up_ge [of "size_cmsghdr P"]
      align_up_ge [of "hdr_cmsg_len P control off"] by auto
qed

declare cmsg_walk.simps [simp del]

definition first_recverr :: "platform \<Rightarrow> (i32 \<times> i32 \<times> nat \<times> nat) list \<Rightarrow> (nat \<times> nat) option" where
  "first_recverr P ms =
     map_option (\<lambda>(_, _, d, e). (d, e)) (find (\<lambda>(level, ty, _, _). is_recverr P level ty) ms)"

definition recverr_at :: "platform \<Rightarrow> bytes \<Rightarrow> nat \<times> nat \<Rightarrow> extended_error option" where
  "recverr_at P control = (\<lambda>(d, e).
     if e < d + size_sock_extended_err P then None
     else map_option (\<lambda>err. \<lparr>ee_error = err,
            ee_source_bytes = take (e - (d + size_sock_extended_err P))
              (drop (d + size_sock_extended_err P) control)\<rparr>)
          (read_icmp_error P control d))"

definition recverr_spec :: "platform \<Rightarrow> bytes \<Rightarrow> nat \<Rightarrow> extended_error option" where
  "recverr_spec P control off =
     Option.bind (first_recverr P (cmsg_walk P control off)) (recverr_at P control)"

lemma CMSG_HEADER_LEN_eq:
  "size_cmsghdr P \<le> 4096 \<Longrightarrow> CMSG_HEADER_LEN P = Inr (align_up (size_cmsghdr P))"
  by (simp add: CMSG_HEADER_LEN_def cmsg_align_eq)

lemma decode_recverr_eq:
  assumes "size_sock_extended_err P \<le> 4096" "cmsg_end \<le> length control"
    "offset + hdr \<le> 2 ^ 63 + 16384"
  shows "decode_recverr P control hdr offset cmsg_end =
    Inr (recverr_at P control (offset + hdr, cmsg_end))"
  using assms by (auto simp: decode_recverr_def recverr_at_def get_range_def split: option.splits)

lemma recverr_from_eq_spec:
  assumes "size_cmsghdr P \<le> 4096" "size_sock_extended_err P \<le> 4096" "length control < 2 ^ 63"
    and "offset \<le> length control + 8"
  shows "recverr_from P control offset = Inr (recverr_spec P control offset)"
  using assms
proof (induction P control offset rule: recverr_from.induct)
  case (1 P control offset)
  let ?len = "hdr_cmsg_len P control offset" and ?hdr = "align_up (size_cmsghdr P)"
  let ?level = "hdr_cmsg_level P control offset" and ?ty = "hdr_cmsg_type P control offset"
  have room: "usize_add offset (size_cmsghdr P) = Inr (offset + size_cmsghdr P)"
    using "1.prems" by simp
  show ?case
  proof (cases "offset + size_cmsghdr P \<le> length control \<and> ?hdr \<le> ?len \<and>
      offset + ?len \<le> length control")
    case False
    then show ?thesis
      using "1.prems" by (auto simp: recverr_from.simps [of P control offset] Let_def
        cmsg_walk.simps [of P control offset] CMSG_HEADER_LEN_eq recverr_spec_def first_recverr_def)
  next
    case True
    have al: "cmsg_align ?len = Inr (align_up ?len)"
      "usize_add offset (align_up ?len) = Inr (offset + align_up ?len)"
      using "1.prems" True align_up_less [of ?len] by (simp_all add: cmsg_align_eq)
    have dec: "decode_recverr P control ?hdr offset (offset + ?len) =
        Inr (recverr_at P control (offset + ?hdr, offset + ?len))"
      using "1.prems" True by (intro decode_recverr_eq) auto
    have nxt: "offset + align_up ?len \<le> length control + 8"
      using True align_up_less [of ?len] by simp
    have IH: "recverr_from P control (offset + align_up ?len) =
        Inr (recverr_spec P control (offset + align_up ?len))" if "\<not> is_recverr P ?level ?ty"
      using "1.IH" [OF room _ refl refl refl _ CMSG_HEADER_LEN_eq _ that al] "1.prems" nxt True
      by simp
    show ?thesis
      using True "1.prems" IH al dec
      by (auto simp: recverr_from.simps [of P control offset] Let_def CMSG_HEADER_LEN_eq
          cmsg_walk.simps [of P control offset] recverr_spec_def first_recverr_def)
  qed
qed

lemma parse_ip_recverr_eq:
  "platform_ok P \<Longrightarrow> length control < 2 ^ 63 \<Longrightarrow>
   parse_ip_recverr P control = Inr (recverr_spec P control 0)"
  unfolding parse_ip_recverr_def
  by (intro recverr_from_eq_spec) (simp_all add: platform_ok_def)

text \<open>
  C10: On a slice of legal length \<open>parse_ip_recverr\<close> returns, without any overflow or panic, the
  error of the first \<open>IP_RECVERR\<close> or \<open>IPV6_RECVERR\<close> message among the well-formed control
  messages that precede the first malformed one, or \<open>None\<close> when there is none, when it is too
  short for its error or when the error does not come from ICMP.
\<close>

theorem parse_ip_recverr_is_first_match:
  assumes "platform_ok P" and "length control < 2 ^ 63"
  shows "parse_ip_recverr P control =
    Inr (Option.bind (first_recverr P (cmsg_walk P control 0)) (recverr_at P control))"
  using parse_ip_recverr_eq [OF assms] by (simp add: recverr_spec_def)

section \<open>Reading back what the kernel writes\<close>

definition linux_cmsg :: "bool \<Rightarrow> nat \<Rightarrow> nat \<Rightarrow> bytes \<Rightarrow> bytes" where
  "linux_cmsg le level ty payload =
     ne_bytes (linux64 le) 8 (16 + length payload) @ ne_bytes (linux64 le) 4 level @
     ne_bytes (linux64 le) 4 ty @ payload"

fun linux_extended_err :: "bool \<Rightarrow> nat \<Rightarrow> icmp_error \<Rightarrow> bytes" where
  "linux_extended_err le errno (IcmpV4 ty code info) =
     ne_bytes (linux64 le) 4 errno @ [2, ty, code, 0] @ ne_bytes (linux64 le) 4 (unat info) @
     replicate 4 0"
| "linux_extended_err le errno (IcmpV6 ty code info) =
     ne_bytes (linux64 le) 4 errno @ [3, ty, code, 0] @ ne_bytes (linux64 le) 4 (unat info) @
     replicate 4 0"

definition linux_recverr :: "bool \<Rightarrow> nat \<Rightarrow> icmp_error \<Rightarrow> bytes \<Rightarrow> bytes" where
  "linux_recverr le errno e source =
     (case e of IcmpV4 _ _ _ \<Rightarrow> linux_cmsg le 0 11 (linux_extended_err le errno e @ source)
      | IcmpV6 _ _ _ \<Rightarrow> linux_cmsg le 41 25 (linux_extended_err le errno e @ source))"

lemma ne_nat_single [simp]: "ne_nat P [b] = unat b"
  by (simp add: ne_nat_def le_nat_def be_nat_def)

lemma length_linux_recverr [simp]:
  "length (linux_recverr le errno e source) = 32 + length source"
  by (cases e) (simp_all add: linux_recverr_def linux_cmsg_def)

lemma parse_ip_recverr_linux:
  assumes "length source < 2 ^ 32"
  shows "parse_ip_recverr (linux64 le) (linux_recverr le errno e source @ rest) =
    Inr (Some \<lparr>ee_error = e, ee_source_bytes = source\<rparr>)"
proof (cases e)
  case (IcmpV4 ty code info)
  show ?thesis
    unfolding parse_ip_recverr_def IcmpV4
    using assms of_nat_unat_mod [of 32 info]
    by (simp add: recverr_from.simps [of _ _ 0] linux_recverr_def linux_cmsg_def field_def
        hdr_cmsg_len_def hdr_cmsg_level_def hdr_cmsg_type_def size_of_usize_def size_of_c_int_def
        ne_nat_ne_bytes CMSG_HEADER_LEN_eq align_up_def is_recverr_def ne_i32_def
        decode_recverr_def read_icmp_error_def get_range_def)
next
  case (IcmpV6 ty code info)
  show ?thesis
    unfolding parse_ip_recverr_def IcmpV6
    using assms of_nat_unat_mod [of 32 info]
    by (simp add: recverr_from.simps [of _ _ 0] linux_recverr_def linux_cmsg_def field_def
        hdr_cmsg_len_def hdr_cmsg_level_def hdr_cmsg_type_def size_of_usize_def size_of_c_int_def
        ne_nat_ne_bytes CMSG_HEADER_LEN_eq align_up_def is_recverr_def ne_i32_def
        decode_recverr_def read_icmp_error_def get_range_def)
qed

theorem parse_ip_recverr_is_first_match_witness:
  "parse_ip_recverr (linux64 True) (linux_recverr True 113 (IcmpV4 11 0 0) [2, 0, 0, 0]) =
    Inr (Option.bind (first_recverr (linux64 True)
           (cmsg_walk (linux64 True) (linux_recverr True 113 (IcmpV4 11 0 0) [2, 0, 0, 0]) 0))
         (recverr_at (linux64 True) (linux_recverr True 113 (IcmpV4 11 0 0) [2, 0, 0, 0])))"
  by (rule parse_ip_recverr_is_first_match) (simp_all add: platform_ok_linux64)

text \<open>
  C31: The control data the kernel attaches to an ICMP error, in either byte order and whatever
  follows it, is read back as exactly that error together with the bytes of the sender's address.
\<close>

theorem parse_ip_recverr_roundtrip:
  assumes "length source < 2 ^ 32"
  shows "parse_ip_recverr (linux64 le) (linux_recverr le errno e source @ rest) =
    Inr (Some \<lparr>ee_error = e, ee_source_bytes = source\<rparr>)"
  using assms by (rule parse_ip_recverr_linux)

theorem parse_ip_recverr_roundtrip_witness:
  "parse_ip_recverr (linux64 True)
     (linux_recverr True 113 (IcmpV4 11 0 0) (linux_sockaddr_in True 0xC0000201 0) @ [1, 2, 3]) =
   Inr (Some \<lparr>ee_error = IcmpV4 11 0 0, ee_source_bytes = linux_sockaddr_in True 0xC0000201 0\<rparr>)"
  by (rule parse_ip_recverr_roundtrip) simp

text \<open>
  C40: The control buffer reserved per read has room for the control message of an ICMP error with
  the address of any family the program opens, on every platform and as Linux writes it.
\<close>

theorem recverr_control_len_suffices:
  assumes "platform_ok P" and "n \<le> size_sockaddr_in6 P"
  shows "CMSG_SPACE P (size_sock_extended_err P + n) \<le> RECVERR_CONTROL_LEN P \<and>
    length (linux_recverr le errno e (linux_sockaddr_in le ip port)) \<le> RECVERR_CONTROL_LEN (linux64 le) \<and>
    length (linux_recverr le errno e (linux_sockaddr_in6 le ip6 port flow scope))
      \<le> RECVERR_CONTROL_LEN (linux64 le)"
proof -
  note L = libc_layout.intro [OF assms(1)]
  have "align_up (size_sock_extended_err P + n) \<le>
      align_up (size_sock_extended_err P + size_sockaddr_in6 P)"
    using assms(2) by (simp add: align_up_def div_le_mono)
  moreover have "size_sock_extended_err P + size_sockaddr_in6 P \<le> 8192"
    using libc_layout.extended_err_fields [OF L] libc_layout.sockaddr_in6_fields [OF L] by linarith
  ultimately have "CMSG_SPACE P (size_sock_extended_err P + n) \<le> RECVERR_CONTROL_LEN P"
    using assms(2) by (simp add: RECVERR_CONTROL_LEN_def libc_layout.cmsg_macros [OF L])
  then show ?thesis by (simp add: RECVERR_CONTROL_LEN_def align_up_def)
qed

theorem recverr_control_len_suffices_witness:
  "CMSG_SPACE (linux64 True) (16 + 28) \<le> RECVERR_CONTROL_LEN (linux64 True) \<and>
   RECVERR_CONTROL_LEN (linux64 True) = 64"
  using recverr_control_len_suffices [OF platform_ok_linux64 [of True], of 28]
  by (simp add: RECVERR_CONTROL_LEN_def align_up_def)

end
