(* ===== verification/Methods.thy ===== *)
theory Methods
  imports Net
begin

text \<open>
  The traits of src/src/method/mod.rs: a reply as the trace hands it over, the interpretation of the
  replies of one queue (\<open>Replies\<close>, a record of its three functions, as \<open>dyn Replies\<close> is a table of
  them), the interpreter of socket error queues, and a probing method (\<open>Method\<close>). The locale
  \<open>probe_codec\<close> is the contract the trace needs of a method: a reply to one of its probes is
  identified as that probe. Each method's theory interprets it.
\<close>

section \<open>Probes and replies\<close>

type_synonym probe_id = u16

definition probe_index :: "probe_id \<Rightarrow> nat" where
  "probe_index i = unat i"

record reply =
  r_source :: "sock_addr option"
  r_destination :: "sock_addr option"
  r_quoted :: bytes
  r_error :: "icmp_error option"

record replies =
  identify :: "reply \<Rightarrow> probe_id option"
  classify :: "reply \<Rightarrow> reply_kind"
  ignores_read_error :: "i32 \<Rightarrow> bool"

text \<open>The trait's default for \<open>ignores_read_error\<close>.\<close>

definition default_ignores_read_error :: "i32 \<Rightarrow> bool" where
  "default_ignores_read_error _ = False"

definition classify_error_reply :: "reply \<Rightarrow> reply_kind" where
  "classify_error_reply r =
     (case r_error r of None \<Rightarrow> Unreachable (Marker ''!?'') | Some error \<Rightarrow> kind error)"

text \<open>\<open>ErrorReplies\<close>, for the given identification function.\<close>

definition error_replies :: "(reply \<Rightarrow> probe_id option) \<Rightarrow> replies" where
  "error_replies f =
     \<lparr>identify = f, classify = classify_error_reply,
      ignores_read_error = default_ignores_read_error\<rparr>"

record reply_queue =
  q_socket :: fd
  q_err_queue :: bool
  q_replies :: replies

text \<open>
  \<open>dyn Method\<close>. A probe may read the clock (nanoseconds since the epoch), so the clock's value is
  an argument.
\<close>

record method_ops =
  m_open :: "(fd \<times> reply_queue list) io"
  m_probe :: "int \<Rightarrow> probe_id \<Rightarrow> (bytes \<times> sock_addr) rust"
  m_max_reply_len :: nat

lemma error_replies_fields [simp]:
  "identify (error_replies f) = f"
  "classify (error_replies f) = classify_error_reply"
  "ignores_read_error (error_replies f) e = False"
  by (simp_all add: error_replies_def default_ignores_read_error_def)

text \<open>
  A reply read from an error queue ends the trace exactly when it carries an ICMP Port
  Unreachable; one without an ICMP error is shown as unreachable and never ends it, and every
  annotation such a reply gets is one that can be told apart in the output.
\<close>

lemma error_reply_classification:
  "(terminates_trace (classify (error_replies f) r) \<longleftrightarrow>
      (\<exists>info. r_error r = Some (IcmpV4 3 3 info) \<or> r_error r = Some (IcmpV6 1 4 info))) \<and>
   (r_error r = None \<longrightarrow> classify (error_replies f) r = Unreachable (Marker ''!?'')) \<and>
   (\<forall>u. classify (error_replies f) r = Unreachable u \<longrightarrow> known_annotation u)"
proof (cases "r_error r")
  case None
  then show ?thesis
    by (simp add: classify_error_reply_def known_annotation_def known_markers_def)
next
  case (Some e)
  have "kind e = Destination \<longleftrightarrow> (\<exists>info. e = IcmpV4 3 3 info \<or> e = IcmpV6 1 4 info)"
    unfolding kind_Destination_iff by (cases e) auto
  with Some show ?thesis
    by (auto simp: classify_error_reply_def kind_known_annotation)
qed

section \<open>Byte buffers of packets\<close>

text \<open>\<open>packet[i] = b\<close> and \<open>packet[i..j].copy_from_slice(bs)\<close>, which panic out of range.\<close>

definition store_at :: "bytes \<Rightarrow> nat \<Rightarrow> u8 \<Rightarrow> bytes rust" where
  "store_at packet i b =
     (if i < length packet then Inr (packet[i := b]) else Inl (Panic IndexOutOfBounds))"

definition write_at :: "bytes \<Rightarrow> nat \<Rightarrow> bytes \<Rightarrow> bytes" where
  "write_at packet i bs = take i packet @ bs @ drop (i + length bs) packet"

definition copy_at :: "bytes \<Rightarrow> nat \<Rightarrow> bytes \<Rightarrow> bytes rust" where
  "copy_at packet i bs =
     (if i + length bs \<le> length packet then Inr (write_at packet i bs)
      else Inl (Panic IndexOutOfBounds))"

lemma length_write_at [simp]:
  "i + length bs \<le> length p \<Longrightarrow> length (write_at p i bs) = length p"
  by (simp add: write_at_def)

lemma field_write_at:
  "i + length bs \<le> length p \<Longrightarrow> field (write_at p i bs) i (length bs) = bs"
  by (simp add: write_at_def field_def)

lemma field_write_at_other:
  assumes "i + length bs \<le> length p" and "j + n \<le> i \<or> i + length bs \<le> j"
  shows "field (write_at p i bs) j n = field p j n"
proof (rule nth_equalityI)
  show "length (field (write_at p i bs) j n) = length (field p j n)"
    using assms(1) by (simp add: field_def)
  fix k assume k: "k < length (field (write_at p i bs) j n)"
  then have "k < n" "j + k < length p" using assms(1) by (auto simp: field_def)
  then show "field (write_at p i bs) j n ! k = field p j n ! k"
    using assms by (auto simp: field_def write_at_def nth_append)
qed

lemma field_take: "i + n \<le> k \<Longrightarrow> field (take k bs) i n = field bs i n"
  by (simp add: field_def drop_take min_def)

lemma get_range_field: "b \<le> length bs \<Longrightarrow> a \<le> b \<Longrightarrow> get_range bs a b = Some (field bs a (b - a))"
  by (simp add: get_range_def field_def)

section \<open>Sockets bound to the wildcard address\<close>

text \<open>
  The block the methods open their sockets with: a socket of the target's family and the given
  type and protocol, bound to the unspecified address and port 0.
\<close>

definition bound_socket ::
    "os \<Rightarrow> sock_type \<Rightarrow> protocol \<Rightarrow> protocol \<Rightarrow> ip_addr \<Rightarrow> fd io" where
  "bound_socket sys ty proto4 proto6 target =
     (case target of
        V4 _ \<Rightarrow>
          io_bind (io_call (os_socket sys) (SysSocket DomainIpv4 ty proto4)) (\<lambda>socket.
          io_bind (io_call (os_unit sys) (SysBind socket (SockV4 0 0))) (\<lambda>_.
          io_return socket))
      | V6 _ \<Rightarrow>
          io_bind (io_call (os_socket sys) (SysSocket DomainIpv6 ty proto6)) (\<lambda>socket.
          io_bind (io_call (os_unit sys) (SysBind socket (SockV6 0 0 0 0))) (\<lambda>_.
          io_return socket)))"

definition family_of :: "ip_addr \<Rightarrow> domain" where
  "family_of ip = (case ip of V4 _ \<Rightarrow> DomainIpv4 | V6 _ \<Rightarrow> DomainIpv6)"

definition unspecified :: "ip_addr \<Rightarrow> sock_addr" where
  "unspecified ip = (case ip of V4 _ \<Rightarrow> SockV4 0 0 | V6 _ \<Rightarrow> SockV6 0 0 0 0)"

lemma bound_socket_calls:
  "bound_socket sys ty p4 p6 target h = (Inr s, h') \<Longrightarrow>
   h' = h @ [SysSocket (family_of target) ty (case target of V4 _ \<Rightarrow> p4 | V6 _ \<Rightarrow> p6),
             SysBind s (unspecified target)]"
  by (cases target)
    (auto simp: bound_socket_def family_of_def unspecified_def io_bind_Inr io_call_Inr io_return_def)

lemma bound_socket_never_panics: "never_panics (fst (bound_socket sys ty p4 p6 target h))"
  by (cases target)
    (auto simp: bound_socket_def io_defs split: sum.splits)

section \<open>The contract of a probing method\<close>

text \<open>
  \<open>quotes p d r\<close>: \<open>r\<close> is a reply from the error queue for the datagram built as \<open>p\<close> and sent to
  \<open>d\<close>; \<open>answers p d r\<close>: \<open>r\<close> is the target's own answer to it; \<open>valid\<close>: the probe identifiers the
  method can carry.
\<close>

locale probe_codec =
  fixes probe :: "int \<Rightarrow> probe_id \<Rightarrow> (bytes \<times> sock_addr) rust"
    and identify_error :: "reply \<Rightarrow> probe_id option"
    and identify_answer :: "reply \<Rightarrow> probe_id option"
    and valid :: "probe_id \<Rightarrow> bool"
    and quotes :: "bytes \<Rightarrow> sock_addr \<Rightarrow> reply \<Rightarrow> bool"
    and answers :: "bytes \<Rightarrow> sock_addr \<Rightarrow> reply \<Rightarrow> bool"
  assumes quote_identified:
    "\<lbrakk>valid i; probe t i = Inr (p, d); quotes p d r\<rbrakk> \<Longrightarrow> identify_error r = Some i"
    and answer_identified:
    "\<lbrakk>valid i; probe t i = Inr (p, d); answers p d r\<rbrakk> \<Longrightarrow> identify_answer r = Some i"
begin

text \<open>One reply cannot belong to two probes, and two probes never look the same on the wire.\<close>

lemma quote_unambiguous:
  assumes "valid i" "probe t i = Inr (p, d)" "quotes p d r"
    and "valid j" "probe u j = Inr (q, e)" "quotes q e r"
  shows "i = j"
  using quote_identified [OF assms(1-3)] quote_identified [OF assms(4-6)] by simp

lemma answer_unambiguous:
  assumes "valid i" "probe t i = Inr (p, d)" "answers p d r"
    and "valid j" "probe u j = Inr (q, e)" "answers q e r"
  shows "i = j"
  using answer_identified [OF assms(1-3)] answer_identified [OF assms(4-6)] by simp

lemma probes_differ:
  assumes "valid i" "valid j" "i \<noteq> j" "probe t i = Inr (p, d)" "quotes p d r"
  shows "probe u j \<noteq> Inr (p, d)"
  using quote_identified assms by (metis option.inject)

end

end
