(* ===== verification/Uring.thy ===== *)
theory Uring
  imports Methods
begin

unbundle bit_operations_syntax

text \<open>
  The libraries src/src/trace.rs drives, each as a record of its operations that the model takes as
  an argument, with its documented contract as a locale: the generated accessors of the
  \<open>UserData\<close> bitfield (\<open>bitfield_layout\<close>), the \<open>slab\<close> crate (\<open>slab_contract\<close>) and the submission
  queue of the \<open>io_uring\<close> crate (\<open>sq_contract\<close>). Each contract is interpreted with an executable
  implementation of what the library's documentation describes, which the witnesses run on.
\<close>

section \<open>Bitfield accessors\<close>

text \<open>
  \<open>#[bitfield(u64)]\<close> with a 16-bit \<open>slot\<close> and a 48-bit \<open>state\<close>, the latter through its conversion
  to and from bits.
\<close>

record bitfield_ops =
  ud_new :: u64
  ud_with_slot :: "u16 \<Rightarrow> u64 \<Rightarrow> u64"
  ud_with_state_bits :: "u64 \<Rightarrow> u64 \<Rightarrow> u64"
  ud_slot :: "u64 \<Rightarrow> u16"
  ud_state_bits :: "u64 \<Rightarrow> u64"

locale bitfield_layout =
  fixes B :: bitfield_ops
  assumes slot_new: "ud_slot B (ud_new B) = 0"
    and slot_with_slot: "ud_slot B (ud_with_slot B s u) = s"
    and slot_with_state: "ud_slot B (ud_with_state_bits B b u) = ud_slot B u"
    and state_with_state: "b < 2 ^ 48 \<Longrightarrow> ud_state_bits B (ud_with_state_bits B b u) = b"
    and state_with_slot: "ud_state_bits B (ud_with_slot B s u) = ud_state_bits B u"

text \<open>The documented layout: fields from the least significant bit up.\<close>

definition lsb_bitfield :: bitfield_ops where
  "lsb_bitfield = \<lparr>
     ud_new = 0,
     ud_with_slot = (\<lambda>s u. push_bit 16 (drop_bit 16 u) OR ucast s),
     ud_with_state_bits = (\<lambda>b u. take_bit 16 u OR push_bit 16 (take_bit 48 b)),
     ud_slot = (\<lambda>u. ucast (take_bit 16 u)),
     ud_state_bits = (\<lambda>u. drop_bit 16 u) \<rparr>"

lemma take_bit_small: "b < 2 ^ 48 \<Longrightarrow> take_bit 48 (b :: u64) = b"
proof -
  assume "b < 2 ^ 48"
  then have "unat b < 2 ^ 48" by (simp add: word_less_nat_alt)
  then have "take_bit 48 (unat b) = unat b" by (simp add: take_bit_nat_eq_self)
  then show ?thesis by (intro word_unat_eq_iff [THEN iffD2]) (simp add: unsigned_take_bit_eq)
qed

interpretation lsb: bitfield_layout lsb_bitfield
proof
  fix s :: u16 and b u :: u64
  show "ud_slot lsb_bitfield (ud_new lsb_bitfield) = 0"
    by (simp add: lsb_bitfield_def)
  show "ud_slot lsb_bitfield (ud_with_slot lsb_bitfield s u) = s"
    by (simp add: lsb_bitfield_def bit_eq_iff bit_simps)
  show "ud_slot lsb_bitfield (ud_with_state_bits lsb_bitfield b u) = ud_slot lsb_bitfield u"
    by (auto simp: lsb_bitfield_def bit_eq_iff bit_simps)
  show "ud_state_bits lsb_bitfield (ud_with_slot lsb_bitfield s u) = ud_state_bits lsb_bitfield u"
    by (auto simp: lsb_bitfield_def bit_eq_iff bit_simps)
      (auto dest: bit_imp_le_length)
  assume "b < 2 ^ 48"
  then have "take_bit 48 b = b" by (rule take_bit_small)
  then show "ud_state_bits lsb_bitfield (ud_with_state_bits lsb_bitfield b u) = b"
    by (auto simp: lsb_bitfield_def bit_eq_iff bit_simps)
qed

section \<open>The slab\<close>

record ('s, 'v) slab_ops =
  slab_new :: 's
  slab_insert :: "'v \<Rightarrow> 's \<Rightarrow> nat \<times> 's"
  slab_remove :: "nat \<Rightarrow> 's \<Rightarrow> ('v \<times> 's) option"   \<comment> \<open>\<open>None\<close>: the call panics\<close>
  slab_get :: "'s \<Rightarrow> nat \<Rightarrow> 'v option"
  slab_is_empty :: "'s \<Rightarrow> bool"

text \<open>
  Reading is the abstraction: a slab is the finite map its keys span. A new key is vacant and
  either reuses one of the slots of the backing vector or is the next slot.
\<close>

locale slab_contract =
  fixes S :: "('s, 'v) slab_ops"
    and slab_inv :: "'s \<Rightarrow> bool"
    and slots :: "'s \<Rightarrow> nat"
  assumes new_ok: "slab_inv (slab_new S)" "slab_get S (slab_new S) = Map.empty" "slots (slab_new S) = 0"
    and insert_ok: "slab_inv s \<Longrightarrow> slab_insert S v s = (k, s') \<Longrightarrow>
      slab_inv s' \<and> slab_get S s k = None \<and> slab_get S s' = (slab_get S s)(k \<mapsto> v) \<and>
      k \<le> slots s \<and> slots s' = (if k = slots s then Suc (slots s) else slots s)"
    and remove_None_iff: "slab_inv s \<Longrightarrow> slab_remove S k s = None \<longleftrightarrow> slab_get S s k = None"
    and remove_ok: "slab_inv s \<Longrightarrow> slab_remove S k s = Some (v, s') \<Longrightarrow>
      slab_inv s' \<and> slab_get S s k = Some v \<and> slab_get S s' = (slab_get S s)(k := None) \<and>
      slots s' = slots s"
    and empty_iff: "slab_inv s \<Longrightarrow> slab_is_empty S s \<longleftrightarrow> slab_get S s = Map.empty"
    and key_bound: "slab_inv s \<Longrightarrow> slab_get S s k \<noteq> None \<Longrightarrow> k < slots s"
begin

text \<open>A slab that was only inserted into hands out consecutive keys.\<close>

lemma insert_full:
  assumes "slab_inv s" "dom (slab_get S s) = {..<n}" "slots s = n" "slab_insert S v s = (k, s')"
  shows "k = n \<and> slab_inv s' \<and> slab_get S s' = (slab_get S s)(n \<mapsto> v) \<and>
    dom (slab_get S s') = {..<Suc n} \<and> slots s' = Suc n"
proof -
  have i: "slab_inv s'" "slab_get S s k = None" "slab_get S s' = (slab_get S s)(k \<mapsto> v)"
    "k \<le> slots s" "slots s' = (if k = slots s then Suc (slots s) else slots s)"
    using insert_ok [OF assms(1,4)] by blast+
  have "k \<notin> {..<n}" using i(2) assms(2) by (metis domIff)
  with i(4) assms(3) have "k = n" by simp
  with i assms show ?thesis by (auto simp: lessThan_Suc)
qed

lemma remove_present:
  "slab_inv s \<Longrightarrow> slab_get S s k = Some v \<Longrightarrow> \<exists>s'. slab_remove S k s = Some (v, s')"
  by (cases "slab_remove S k s") (use remove_None_iff remove_ok in fastforce)+

end

text \<open>The documented implementation: a vector of slots and a stack of the vacant ones.\<close>

record 'v vec_slab =
  vs_entries :: "'v option list"
  vs_vacant :: "nat list"

definition vec_insert :: "'v \<Rightarrow> 'v vec_slab \<Rightarrow> nat \<times> 'v vec_slab" where
  "vec_insert v s =
     (case vs_vacant s of
        [] \<Rightarrow> (length (vs_entries s), s\<lparr>vs_entries := vs_entries s @ [Some v]\<rparr>)
      | k # ks \<Rightarrow> (k, \<lparr>vs_entries = (vs_entries s)[k := Some v], vs_vacant = ks\<rparr>))"

definition vec_get :: "'v vec_slab \<Rightarrow> nat \<Rightarrow> 'v option" where
  "vec_get s k = (if k < length (vs_entries s) then vs_entries s ! k else None)"

definition vec_remove :: "nat \<Rightarrow> 'v vec_slab \<Rightarrow> ('v \<times> 'v vec_slab) option" where
  "vec_remove k s =
     map_option (\<lambda>v. (v, \<lparr>vs_entries = (vs_entries s)[k := None], vs_vacant = k # vs_vacant s\<rparr>))
       (vec_get s k)"

definition vec_slab_ops :: "('v vec_slab, 'v) slab_ops" where
  "vec_slab_ops = \<lparr>slab_new = \<lparr>vs_entries = [], vs_vacant = []\<rparr>, slab_insert = vec_insert,
     slab_remove = vec_remove, slab_get = vec_get,
     slab_is_empty = (\<lambda>s. list_all (\<lambda>e. e = None) (vs_entries s))\<rparr>"

definition vec_inv :: "'v vec_slab \<Rightarrow> bool" where
  "vec_inv s \<longleftrightarrow> distinct (vs_vacant s) \<and>
     (\<forall>k. k \<in> set (vs_vacant s) \<longleftrightarrow> k < length (vs_entries s) \<and> vs_entries s ! k = None)"

definition vec_slots :: "'v vec_slab \<Rightarrow> nat" where
  "vec_slots s = length (vs_entries s)"

lemma vec_insert_ok:
  assumes "vec_inv s" "vec_insert v s = (k, s')"
  shows "vec_inv s' \<and> vec_get s k = None \<and> vec_get s' = (vec_get s)(k \<mapsto> v) \<and>
    k \<le> vec_slots s \<and> vec_slots s' = (if k = vec_slots s then Suc (vec_slots s) else vec_slots s)"
proof (cases "vs_vacant s")
  case Nil
  with assms show ?thesis
    by (auto simp: vec_insert_def vec_inv_def vec_get_def vec_slots_def nth_append fun_eq_iff
        less_Suc_eq) fastforce
next
  case (Cons j js)
  with assms(2) have k: "j = k"
    and s': "s' = \<lparr>vs_entries = (vs_entries s)[k := Some v], vs_vacant = js\<rparr>"
    by (auto simp: vec_insert_def)
  have vac: "distinct (k # js)"
    "\<And>i. i \<in> set (k # js) \<longleftrightarrow> i < length (vs_entries s) \<and> vs_entries s ! i = None"
    using assms(1) Cons k unfolding vec_inv_def by auto
  have bk: "k < length (vs_entries s)" "vs_entries s ! k = None"
    using vac(2) [of k] by auto
  have "i \<in> set js \<longleftrightarrow> i < length (vs_entries s) \<and> (vs_entries s)[k := Some v] ! i = None" for i
    using vac(1) vac(2) [of i] bk(1) by (cases "i = k") auto
  then have "vec_inv s'" using vac(1) s' by (simp add: vec_inv_def)
  moreover have "vec_get s' = (vec_get s)(k \<mapsto> v)"
    using bk(1) by (auto simp: s' vec_get_def fun_eq_iff nth_list_update)
  ultimately show ?thesis using bk by (simp add: s' vec_get_def vec_slots_def)
qed

lemma vec_remove_ok:
  assumes "vec_inv s" "vec_remove k s = Some (v, s')"
  shows "vec_inv s' \<and> vec_get s k = Some v \<and> vec_get s' = (vec_get s)(k := None) \<and>
    vec_slots s' = vec_slots s"
proof -
  have "k < length (vs_entries s)" "vs_entries s ! k = Some v"
    "s' = \<lparr>vs_entries = (vs_entries s)[k := None], vs_vacant = k # vs_vacant s\<rparr>"
    using assms(2) by (auto simp: vec_remove_def vec_get_def split: if_splits)
  then show ?thesis
    using assms(1) by (auto simp: vec_inv_def vec_get_def vec_slots_def fun_eq_iff nth_list_update)
qed

interpretation vec: slab_contract vec_slab_ops vec_inv vec_slots
proof
  fix s s' :: "'v vec_slab" and k v
  show "vec_inv (slab_new vec_slab_ops)"
    "slab_get vec_slab_ops (slab_new vec_slab_ops) = Map.empty"
    "vec_slots (slab_new vec_slab_ops) = 0"
    by (auto simp: vec_slab_ops_def vec_inv_def vec_get_def vec_slots_def)
  assume inv: "vec_inv s"
  show "slab_remove vec_slab_ops k s = None \<longleftrightarrow> slab_get vec_slab_ops s k = None"
    by (simp add: vec_slab_ops_def vec_remove_def)
  show "slab_is_empty vec_slab_ops s \<longleftrightarrow> slab_get vec_slab_ops s = Map.empty"
    by (auto simp: vec_slab_ops_def vec_get_def fun_eq_iff list_all_length)
  show "k < vec_slots s" if "slab_get vec_slab_ops s k \<noteq> None"
    using that by (auto simp: vec_slab_ops_def vec_get_def vec_slots_def split: if_splits)
  show "vec_inv s' \<and> slab_get vec_slab_ops s k = None \<and>
      slab_get vec_slab_ops s' = (slab_get vec_slab_ops s)(k \<mapsto> v) \<and>
      k \<le> vec_slots s \<and> vec_slots s' = (if k = vec_slots s then Suc (vec_slots s) else vec_slots s)"
    if "slab_insert vec_slab_ops v s = (k, s')"
    using vec_insert_ok [OF inv] that by (simp add: vec_slab_ops_def)
  show "vec_inv s' \<and> slab_get vec_slab_ops s k = Some v \<and>
      slab_get vec_slab_ops s' = (slab_get vec_slab_ops s)(k := None) \<and> vec_slots s' = vec_slots s"
    if "slab_remove vec_slab_ops k s = Some (v, s')"
    using vec_remove_ok [OF inv] that by (simp add: vec_slab_ops_def)
qed

section \<open>The submission queue\<close>

text \<open>
  \<open>sq_push\<close> fails (\<open>None\<close>) when the queue is full as far as the program knows; \<open>sq_sync\<close> hands
  the pushed entries over and learns how many the kernel has consumed; \<open>sq_submitted n\<close> is the
  queue after a system call consumed \<open>n\<close> entries.
\<close>

record ('q, 'e) sq_ops =
  sq_push :: "'e \<Rightarrow> 'q \<Rightarrow> 'q option"
  sq_sync :: "'q \<Rightarrow> 'q"
  sq_submitted :: "nat \<Rightarrow> 'q \<Rightarrow> 'q"

locale sq_contract =
  fixes Q :: "('q, 'e) sq_ops"
    and pending :: "'q \<Rightarrow> 'e list"
    and consumed :: "'q \<Rightarrow> nat"
    and capacity :: "'q \<Rightarrow> nat"
  assumes push_full: "sq_push Q e q = None \<longleftrightarrow> capacity q \<le> length (pending q)"
    and push_ok: "sq_push Q e q = Some q' \<Longrightarrow>
      pending q' = pending q @ [e] \<and> consumed q' = consumed q \<and> capacity q' = capacity q"
    and sync_ok: "pending (sq_sync Q q) = drop (consumed q) (pending q)"
      "consumed (sq_sync Q q) = 0" "capacity (sq_sync Q q) = capacity q"
    and submitted_ok: "pending (sq_submitted Q n q) = pending q"
      "consumed (sq_submitted Q n q) = consumed q + n"
      "capacity (sq_submitted Q n q) = capacity q"
begin

lemma push_room:
  assumes "length (pending q) < capacity q"
  shows "\<exists>q'. sq_push Q e q = Some q' \<and> pending q' = pending q @ [e] \<and>
    consumed q' = consumed q \<and> capacity q' = capacity q"
  using assms push_full [of e q] push_ok [of e q] by (cases "sq_push Q e q") auto

end

record 'e list_sq =
  lq_entries :: "'e list"
  lq_consumed :: nat
  lq_capacity :: nat

definition list_sq_ops :: "('e list_sq, 'e) sq_ops" where
  "list_sq_ops = \<lparr>
     sq_push = (\<lambda>e q. if lq_capacity q \<le> length (lq_entries q) then None
                     else Some (q\<lparr>lq_entries := lq_entries q @ [e]\<rparr>)),
     sq_sync = (\<lambda>q. q\<lparr>lq_entries := drop (lq_consumed q) (lq_entries q), lq_consumed := 0\<rparr>),
     sq_submitted = (\<lambda>n q. q\<lparr>lq_consumed := lq_consumed q + n\<rparr>) \<rparr>"

interpretation list_sq: sq_contract list_sq_ops lq_entries lq_consumed lq_capacity
  by unfold_locales (auto simp: list_sq_ops_def split: if_splits)

end
