(* ===== verification/Trace_Data.thy ===== *)
theory Trace_Data
  imports Uring
begin

text \<open>
  The data of src/src/trace.rs and the two ways an entry reaches the submission queue: the user data
  that comes back with a completion, probes and their results, the send buffers of a probe with
  its control message, \<open>schedule_write\<close> and the multishot readers. Pointers between the fields of
  \<open>Outgoing\<close> are named by the field they point to.
\<close>

section \<open>User data\<close>

datatype ustate = Write | Read | Timeout

fun into_bits :: "ustate \<Rightarrow> u64" where
  "into_bits Write = 0"
| "into_bits Read = 1"
| "into_bits Timeout = 2"

definition from_bits :: "u64 \<Rightarrow> ustate rust" where
  "from_bits v =
     (if v = 0 then Inr Write else if v = 1 then Inr Read else if v = 2 then Inr Timeout
      else Inl (Panic UnexpectedStateValue))"

lemma from_into_bits [simp]: "from_bits (into_bits s) = Inr s"
  by (cases s) (simp_all add: from_bits_def)

lemma into_bits_small: "into_bits s < 2 ^ 48"
  by (cases s) simp_all

text \<open>
  \<open>UserData::new().with_slot(slot as u16).with_state(state)\<close>; the timeout's entry sets no slot.
\<close>

definition user_data :: "bitfield_ops \<Rightarrow> nat \<Rightarrow> ustate \<Rightarrow> u64" where
  "user_data B slot state =
     ud_with_state_bits B (into_bits state) (ud_with_slot B (of_nat slot) (ud_new B))"

definition user_data_timeout :: "bitfield_ops \<Rightarrow> u64" where
  "user_data_timeout B = ud_with_state_bits B (into_bits Timeout) (ud_new B)"

definition user_data_state :: "bitfield_ops \<Rightarrow> u64 \<Rightarrow> ustate rust" where
  "user_data_state B u = from_bits (ud_state_bits B u)"

text \<open>\<open>usize::from(user_data.slot())\<close>.\<close>

definition user_data_slot :: "bitfield_ops \<Rightarrow> u64 \<Rightarrow> nat" where
  "user_data_slot B u = unat (ud_slot B u)"

context bitfield_layout begin

lemma user_data_state [simp]: "user_data_state B (user_data B slot st) = Inr st"
  unfolding user_data_state_def user_data_def state_with_state [OF into_bits_small]
  by (rule from_into_bits)

lemma user_data_slot: "slot < 65536 \<Longrightarrow> user_data_slot B (user_data B slot st) = slot"
  by (simp add: user_data_slot_def user_data_def slot_with_state slot_with_slot unat_of_nat)

lemma user_data_timeout_state [simp]: "user_data_state B (user_data_timeout B) = Inr Timeout"
  unfolding user_data_state_def user_data_timeout_def state_with_state [OF into_bits_small]
  by (rule from_into_bits)

end

text \<open>
  C28: What a completion brings back is what its entry was submitted with: the kind of operation
  and, up to 65535, the slot; two entries of different kind or slot never share their user data.
\<close>

theorem user_data_roundtrip:
  assumes "bitfield_layout B" and "slot < 65536" and "slot' < 65536"
  shows "user_data_state B (user_data B slot st) = Inr st \<and>
    user_data_slot B (user_data B slot st) = slot \<and>
    user_data_state B (user_data_timeout B) = Inr Timeout \<and>
    (user_data B slot st = user_data B slot' st' \<longleftrightarrow> slot = slot' \<and> st = st')"
  using bitfield_layout.user_data_state [OF assms(1)] bitfield_layout.user_data_slot [OF assms(1)]
    bitfield_layout.user_data_timeout_state [OF assms(1)] assms(2,3)
  by (metis sum.inject(2))

theorem user_data_roundtrip_witness:
  "user_data_slot lsb_bitfield (user_data lsb_bitfield 93 Read) = 93 \<and>
   user_data lsb_bitfield 93 Read = 0x1005D"
  using user_data_roundtrip [OF lsb.bitfield_layout_axioms, of 93 93 Read Read]
  by (simp add: user_data_def lsb_bitfield_def)

section \<open>Probes\<close>

text \<open>An \<open>Instant\<close> and a \<open>Duration\<close> are nanoseconds.\<close>

record probe_result =
  pr_source :: "ip_addr option"
  pr_rtt :: nat
  pr_kind :: reply_kind

record probe =
  p_ttl :: u8
  p_sent_at :: "nat option"
  p_result :: "probe_result option"

section \<open>Send buffers\<close>

datatype ptr = PtrNull | PtrPacket | PtrDestination | PtrIov | PtrControl

record iovec =
  iov_base :: ptr
  iov_len :: nat

record cmsghdr =
  c_cmsg_len :: nat
  c_cmsg_level :: i32
  c_cmsg_type :: i32

record hop_limit_control =
  hl_header :: cmsghdr
  hl_hop_limit :: i32

record msghdr =
  msg_name :: ptr
  msg_namelen :: nat
  msg_iov :: ptr
  msg_iovlen :: nat
  msg_control :: ptr
  msg_controllen :: nat
  msg_flags :: i32

definition zeroed_msghdr :: msghdr where
  "zeroed_msghdr = \<lparr>msg_name = PtrNull, msg_namelen = 0, msg_iov = PtrNull, msg_iovlen = 0,
     msg_control = PtrNull, msg_controllen = 0, msg_flags = 0\<rparr>"

record outgoing =
  og_packet :: bytes
  og_destination :: sock_addr
  og_iov :: iovec
  og_control :: hop_limit_control
  og_msg :: msghdr
  og_probe :: probe_id

definition hop_limit_control_new :: "platform \<Rightarrow> domain \<Rightarrow> u8 \<Rightarrow> hop_limit_control" where
  "hop_limit_control_new P family hop_limit =
     (let (level, option) = (if family = DomainIpv6 then (IPPROTO_IPV6 P, IPV6_HOPLIMIT P)
                             else (IPPROTO_IP P, IP_TTL P))
      in \<lparr>hl_header = \<lparr>c_cmsg_len = CMSG_LEN P size_of_c_int, c_cmsg_level = level,
                       c_cmsg_type = option\<rparr>,
          hl_hop_limit = int (unat hop_limit)\<rparr>)"

text \<open>\<open>size_of::<HopLimitControl>()\<close>: a \<open>cmsghdr\<close>, an \<open>int\<close> and padding to the word size.\<close>

definition size_of_hop_limit_control :: "platform \<Rightarrow> nat" where
  "size_of_hop_limit_control P = align_up (size_cmsghdr P + size_of_c_int)"

definition outgoing_new :: "platform \<Rightarrow> bytes \<Rightarrow> sock_addr \<Rightarrow> u8 \<Rightarrow> probe_id \<Rightarrow> outgoing" where
  "outgoing_new P packet destination ttl probe =
     (let control = hop_limit_control_new P (sa_domain destination) ttl;
          outgoing = \<lparr>og_packet = packet, og_destination = destination,
            og_iov = \<lparr>iov_base = PtrNull, iov_len = 0\<rparr>, og_control = control,
            og_msg = zeroed_msghdr, og_probe = probe\<rparr>;
          outgoing = outgoing\<lparr>og_iov :=
            \<lparr>iov_base = PtrPacket, iov_len = length (og_packet outgoing)\<rparr>\<rparr>;
          outgoing = outgoing\<lparr>og_msg :=
            \<lparr>msg_name = PtrDestination, msg_namelen = sa_len P (og_destination outgoing),
             msg_iov = PtrIov, msg_iovlen = 1,
             msg_control = PtrControl, msg_controllen = size_of_hop_limit_control P,
             msg_flags = 0\<rparr>\<rparr>
      in outgoing)"

lemma outgoing_new_fields [simp]:
  "og_packet (outgoing_new P p d t i) = p" "og_destination (outgoing_new P p d t i) = d"
  "og_probe (outgoing_new P p d t i) = i"
  "og_control (outgoing_new P p d t i) = hop_limit_control_new P (sa_domain d) t"
  by (simp_all add: outgoing_new_def Let_def)

text \<open>
  C29: The message header of a send buffer describes exactly the buffer's own parts: the
  destination with its length, one vector that covers the whole packet, and a control message of
  the destination's family that carries the TTL and fits, on every platform, the space it states.
\<close>

theorem outgoing_new_coherent:
  assumes "platform_ok P" and "size_cmsghdr P mod 8 = 0"
  shows "let og = outgoing_new P packet (sock_addr_new target port) ttl i; m = og_msg og in
    msg_name m = PtrDestination \<and>
    msg_namelen m = (case target of V4 _ \<Rightarrow> size_sockaddr_in P | V6 _ \<Rightarrow> size_sockaddr_in6 P) \<and>
    msg_iov m = PtrIov \<and> msg_iovlen m = 1 \<and> og_iov og = \<lparr>iov_base = PtrPacket, iov_len = length packet\<rparr> \<and>
    msg_control m = PtrControl \<and> msg_controllen m = CMSG_SPACE P 4 \<and>
    c_cmsg_len (hl_header (og_control og)) \<le> msg_controllen m \<and>
    (c_cmsg_level (hl_header (og_control og)), c_cmsg_type (hl_header (og_control og))) =
      (case target of V4 _ \<Rightarrow> (IPPROTO_IP P, IP_TTL P) | V6 _ \<Rightarrow> (IPPROTO_IPV6 P, IPV6_HOPLIMIT P)) \<and>
    hl_hop_limit (og_control og) = int (unat ttl) \<and> 0 \<le> hl_hop_limit (og_control og) \<and>
    hl_hop_limit (og_control og) \<le> 255"
proof -
  note L = libc_layout.intro [OF assms(1)]
  obtain k where k: "size_cmsghdr P = 8 * k" using assms(2) by auto
  have "CMSG_SPACE P 4 = size_of_hop_limit_control P" "CMSG_LEN P 4 \<le> CMSG_SPACE P 4"
    using libc_layout.cmsg_macros [OF L, of 4]
    by (simp_all add: size_of_hop_limit_control_def size_of_c_int_def k align_up_def)
  moreover have "uint ttl < 256" using uint_bounded [of ttl] by simp
  ultimately show ?thesis
    by (cases target) (simp_all add: outgoing_new_def Let_def hop_limit_control_new_def size_of_c_int_def)
qed

theorem outgoing_new_coherent_witness:
  "msg_controllen (og_msg (outgoing_new (linux64 True) [0] (sock_addr_new (V4 1) 0) 7 0)) = 24"
  using outgoing_new_coherent [OF platform_ok_linux64 [of True], of "[0]" "V4 1" 0 7 0]
  by (simp add: Let_def align_up_def)

section \<open>Submission queue entries\<close>

text \<open>
  An entry points to its message header: a send to that of a slab entry, given by its key, a
  multishot receive to that of a reader, given by value since the kernel only reads its lengths.
\<close>

datatype sqe =
    SqSendMsg fd nat u64
  | SqRecvMsgMulti fd msghdr i32 u64
  | SqTimeout nat u64

text \<open>
  \<open>RecvMsgOut::parse\<close> splits a received buffer by the lengths of the reader's message header;
  \<open>lib_recvmsg_parse\<close> stands for it, \<open>lib_buffer_select\<close> and \<open>lib_more\<close> for the flag readers of a
  completion.
\<close>

record recvmsg_out =
  ro_name_data :: bytes
  ro_control_data :: bytes
  ro_payload_data :: bytes
  ro_control_truncated :: bool

text \<open>The libraries a trace runs with.\<close>

record ('s, 'q) libs =
  lib_platform :: platform
  lib_bits :: bitfield_ops
  lib_slab :: "('s, outgoing) slab_ops"
  lib_sq :: "('q, sqe) sq_ops"
  lib_buffer_select :: "u32 \<Rightarrow> u16 option"
  lib_more :: "u32 \<Rightarrow> bool"
  lib_recvmsg_parse :: "bytes \<Rightarrow> msghdr \<Rightarrow> recvmsg_out option"

definition schedule_write ::
    "('s, 'q) libs \<Rightarrow> fd \<Rightarrow> 's \<Rightarrow> method_ops \<Rightarrow> int \<Rightarrow> probe_id \<Rightarrow> u8 \<Rightarrow> 'q
     \<Rightarrow> unit rust \<times> 's \<times> 'q" where
  "schedule_write L fd sending method now i ttl sq =
     (case m_probe method now i of
        Inl e \<Rightarrow> (Inl e, sending, sq)
      | Inr (packet, destination) \<Rightarrow>
          let (slot, sending) =
                slab_insert (lib_slab L) (outgoing_new (lib_platform L) packet destination ttl i) sending
          in case slab_get (lib_slab L) sending slot of
               None \<Rightarrow> (Inl (Panic InvalidSlabKey), sending, sq)
             | Some _ \<Rightarrow>
                 let entry = SqSendMsg fd slot (user_data (lib_bits L) slot Write)
                 in case sq_push (lib_sq L) entry sq of
                      Some sq \<Rightarrow> (Inr (), sending, sq)
                    | None \<Rightarrow>
                        (case slab_remove (lib_slab L) slot sending of
                           None \<Rightarrow> (Inl (Panic InvalidSlabKey), sending, sq)
                         | Some (_, sending) \<Rightarrow> (Inl (Fail SubmissionQueueFull), sending, sq)))"

section \<open>Multishot readers\<close>

definition NAME_LEN :: "platform \<Rightarrow> nat" where
  "NAME_LEN P = size_sockaddr_in6 P"

definition RECVMSG_OVERHEAD :: "platform \<Rightarrow> nat" where
  "RECVMSG_OVERHEAD P = 4 * size_of_u32 + NAME_LEN P + RECVERR_CONTROL_LEN P"

record multishot =
  ms_queue :: reply_queue
  ms_slot :: u16
  ms_msghdr :: msghdr

definition multishot_try_new :: "platform \<Rightarrow> os \<Rightarrow> reply_queue \<Rightarrow> u16 \<Rightarrow> multishot io" where
  "multishot_try_new P sys queue slot =
     io_bind (if q_err_queue queue then enable_recverr P sys (q_socket queue) else io_return ()) (\<lambda>_.
     let msghdr = zeroed_msghdr;
         msghdr = msghdr\<lparr>msg_namelen := NAME_LEN P\<rparr>;
         msghdr = msghdr\<lparr>msg_controllen := (if q_err_queue queue then RECVERR_CONTROL_LEN P else 0)\<rparr>
     in io_return \<lparr>ms_queue = queue, ms_slot = slot, ms_msghdr = msghdr\<rparr>)"

definition multishot_schedule :: "('s, 'q) libs \<Rightarrow> multishot \<Rightarrow> 'q \<Rightarrow> 'q rust" where
  "multishot_schedule L self sq =
     (let entry = SqRecvMsgMulti (q_socket (ms_queue self)) (ms_msghdr self)
            (if q_err_queue (ms_queue self) then MSG_ERRQUEUE (lib_platform L) else 0)
            (user_data (lib_bits L) (unat (ms_slot self)) Read)
      in ok_or (Fail SubmissionQueueFull) (sq_push (lib_sq L) entry sq))"

section \<open>The libraries as documented\<close>

text \<open>
  \<open>io_recvmsg_out\<close> as the kernel lays it out: four words (the lengths of the name, the control data
  and the payload, and the flags), then areas for the name and the control data of the sizes the
  reader asked for, then the payload. Together with the implementations of Uring this instantiates
  every library parameter; the flags are those of \<open>io_uring_enter(2)\<close>.
\<close>

definition linux_recvmsg_parse :: "bool \<Rightarrow> bytes \<Rightarrow> msghdr \<Rightarrow> recvmsg_out option" where
  "linux_recvmsg_parse le buffer hdr =
     (let P = linux64 le;
          name_start = 16; control_start = name_start + msg_namelen hdr;
          payload_start = control_start + msg_controllen hdr;
          word = (\<lambda>k. ne_nat P (field buffer (4 * k) 4))
      in if length buffer < payload_start then None
         else Some \<lparr>
           ro_name_data = field buffer name_start (min (word 0) (msg_namelen hdr)),
           ro_control_data = field buffer control_start (min (word 1) (msg_controllen hdr)),
           ro_payload_data = field buffer payload_start (word 2),
           ro_control_truncated = (word 3 div 8 mod 2 = 1) \<rparr>)"

definition linux_recv_buffer :: "bool \<Rightarrow> msghdr \<Rightarrow> bytes \<Rightarrow> bytes \<Rightarrow> bytes \<Rightarrow> bytes" where
  "linux_recv_buffer le hdr name control payload =
     (let word = (\<lambda>n. ne_bytes (linux64 le) 4 n)
      in word (length name) @ word (length control) @ word (length payload) @ word 0 @
         name @ replicate (msg_namelen hdr - length name) 0 @
         control @ replicate (msg_controllen hdr - length control) 0 @ payload)"

lemma linux_recvmsg_parse_buffer:
  assumes "length name \<le> msg_namelen hdr" "length control \<le> msg_controllen hdr"
    "length name < 2 ^ 32" "length control < 2 ^ 32" "length payload < 2 ^ 32"
  shows "linux_recvmsg_parse le (linux_recv_buffer le hdr name control payload) hdr =
    Some \<lparr>ro_name_data = name, ro_control_data = control, ro_payload_data = payload,
          ro_control_truncated = False\<rparr>"
  using assms
  by (simp add: linux_recvmsg_parse_def linux_recv_buffer_def Let_def field_def ne_nat_ne_bytes)

definition documented_libs :: "bool \<Rightarrow> (outgoing vec_slab, sqe list_sq) libs" where
  "documented_libs le = \<lparr>
     lib_platform = linux64 le,
     lib_bits = lsb_bitfield,
     lib_slab = vec_slab_ops,
     lib_sq = list_sq_ops,
     lib_buffer_select = (\<lambda>flags. if unat flags mod 2 = 1 then Some (of_nat (unat flags div 65536)) else None),
     lib_more = (\<lambda>flags. unat flags div 2 mod 2 = 1),
     lib_recvmsg_parse = linux_recvmsg_parse le \<rparr>"

lemma documented_libs_fields [simp]:
  "lib_platform (documented_libs le) = linux64 le" "lib_bits (documented_libs le) = lsb_bitfield"
  "lib_slab (documented_libs le) = vec_slab_ops" "lib_sq (documented_libs le) = list_sq_ops"
  "lib_recvmsg_parse (documented_libs le) = linux_recvmsg_parse le"
  "lib_buffer_select (documented_libs le) flags =
     (if unat flags mod 2 = 1 then Some (of_nat (unat flags div 65536)) else None)"
  "lib_more (documented_libs le) flags \<longleftrightarrow> unat flags div 2 mod 2 = 1"
  by (simp_all add: documented_libs_def)

end
