(* ===== verification/Trace_Read.thy ===== *)
theory Trace_Read
  imports Trace_Data
begin

text \<open>
  \<open>handle_read\<close> of src/src/trace.rs: from the completion of a receive to the result of the probe
  the reply answers. What the kernel and the clock contribute is an \<open>event\<close>: the completion, the
  contents of the provided buffers and the time at which it is processed. \<open>reply_of\<close> is the
  reference: the reply in an event, without panics; \<open>credited\<close> is the probe a reply is credited to.
\<close>

section \<open>Completions\<close>

record cqe =
  cqe_result :: i32
  cqe_user_data :: u64
  cqe_flags :: u32

record event =
  ev_cqe :: cqe
  ev_buffers :: "u16 \<Rightarrow> nat \<Rightarrow> bytes option"
  ev_now :: nat

datatype log_entry = CmsgTruncated | CompletionFailed ustate i32

text \<open>\<open>value as usize\<close> of an \<open>i32\<close>.\<close>

definition i32_as_usize :: "i32 \<Rightarrow> nat" where
  "i32_as_usize r = nat (r mod 2 ^ 64)"

lemma i32_as_usize: "0 \<le> r \<Longrightarrow> r < 2 ^ 31 \<Longrightarrow> i32_as_usize r = nat r"
  by (simp add: i32_as_usize_def)

section \<open>Reading a message\<close>

text \<open>The message in the buffer the completion names.\<close>

definition received_message :: "('s, 'q) libs \<Rightarrow> event \<Rightarrow> multishot \<Rightarrow> recvmsg_out rust" where
  "received_message L ev reader =
     try_bind (ok_or (Panic ExpectBufferId) (lib_buffer_select L (cqe_flags (ev_cqe ev)))) (\<lambda>buffer_id.
     let len = i32_as_usize (cqe_result (ev_cqe ev)) in
     if \<not> len > 0 then Inl (Panic AssertReadLength) else
     try_bind (ok_or (Panic ExpectBuffer) (ev_buffers ev buffer_id len)) (\<lambda>buffer.
     ok_or (Panic ExpectMsghdr) (lib_recvmsg_parse L buffer (ms_msghdr reader))))"

text \<open>The reply it holds (\<open>None\<close>: an early return), and what is logged on the way.\<close>

definition message_reply ::
    "platform \<Rightarrow> multishot \<Rightarrow> recvmsg_out \<Rightarrow> (reply option \<times> log_entry list) rust" where
  "message_reply P reader message =
     (if q_err_queue (ms_queue reader) then
        if ro_control_truncated message then Inr (None, [CmsgTruncated])
        else try_bind (parse_ip_recverr P (ro_control_data message)) (\<lambda>extended.
          case extended of
            None \<Rightarrow> Inr (None, [])
          | Some extended \<Rightarrow>
              Inr (Some \<lparr>r_source = parse_sockaddr P (ee_source_bytes extended),
                         r_destination = parse_sockaddr P (ro_name_data message),
                         r_quoted = ro_payload_data message,
                         r_error = Some (ee_error extended)\<rparr>, []))
      else Inr (Some \<lparr>r_source = parse_sockaddr P (ro_name_data message), r_destination = None,
                      r_quoted = ro_payload_data message, r_error = None\<rparr>, []))"

definition source_ip :: "sock_addr option \<Rightarrow> ip_addr option rust" where
  "source_ip source =
     (case source of
        None \<Rightarrow> Inr None
      | Some a \<Rightarrow> (case as_socket a of None \<Rightarrow> Inl (Panic ExpectSocketAddress)
                                   | Some (ip, _) \<Rightarrow> Inr (Some ip)))"

definition answer_probe :: "multishot \<Rightarrow> nat \<Rightarrow> reply \<Rightarrow> probe list \<Rightarrow> probe list rust" where
  "answer_probe reader now reply probes =
     (case identify (q_replies (ms_queue reader)) reply of
        None \<Rightarrow> Inr probes
      | Some i \<Rightarrow>
          if probe_index i < length probes then
            let probe = probes ! probe_index i in
            if p_result probe \<noteq> None then Inr probes
            else case p_sent_at probe of
              None \<Rightarrow> Inr probes
            | Some sent_at \<Rightarrow>
                try_bind (source_ip (r_source reply)) (\<lambda>source.
                Inr (probes[probe_index i := probe\<lparr>p_result := Some
                  \<lparr>pr_source = source, pr_rtt = now - sent_at,
                   pr_kind = classify (q_replies (ms_queue reader)) reply\<rparr>\<rparr>]))
          else Inr probes)"

definition handle_read ::
    "('s, 'q) libs \<Rightarrow> event \<Rightarrow> multishot \<Rightarrow> probe list \<Rightarrow> (probe list \<times> log_entry list) rust" where
  "handle_read L ev reader probes =
     try_bind (received_message L ev reader) (\<lambda>message.
     try_bind (message_reply (lib_platform L) reader message) (\<lambda>(reply, log).
     case reply of
       None \<Rightarrow> Inr (probes, log)
     | Some reply \<Rightarrow>
         try_bind (answer_probe reader (ev_now ev) reply probes) (\<lambda>probes. Inr (probes, log))))"

section \<open>The reference\<close>

definition message_of :: "('s, 'q) libs \<Rightarrow> multishot \<Rightarrow> event \<Rightarrow> recvmsg_out option" where
  "message_of L reader ev =
     Option.bind (lib_buffer_select L (cqe_flags (ev_cqe ev))) (\<lambda>b.
     Option.bind (ev_buffers ev b (nat (cqe_result (ev_cqe ev)))) (\<lambda>buffer.
     lib_recvmsg_parse L buffer (ms_msghdr reader)))"

definition reply_of :: "('s, 'q) libs \<Rightarrow> multishot \<Rightarrow> event \<Rightarrow> reply option" where
  "reply_of L reader ev =
     Option.bind (message_of L reader ev) (\<lambda>m.
       if q_err_queue (ms_queue reader) then
         if ro_control_truncated m then None
         else map_option (\<lambda>x. \<lparr>r_source = parse_sockaddr (lib_platform L) (ee_source_bytes x),
                r_destination = parse_sockaddr (lib_platform L) (ro_name_data m),
                r_quoted = ro_payload_data m, r_error = Some (ee_error x)\<rparr>)
              (recverr_spec (lib_platform L) (ro_control_data m) 0)
       else Some \<lparr>r_source = parse_sockaddr (lib_platform L) (ro_name_data m),
              r_destination = None, r_quoted = ro_payload_data m, r_error = None\<rparr>)"

text \<open>The result a probe that is still waiting gets from a reply.\<close>

definition result_for :: "multishot \<Rightarrow> nat \<Rightarrow> reply \<Rightarrow> nat \<Rightarrow> probe_result" where
  "result_for reader now r sent_at =
     \<lparr>pr_source = Option.bind (r_source r) sa_ip, pr_rtt = now - sent_at,
      pr_kind = classify (q_replies (ms_queue reader)) r\<rparr>"

definition credited :: "multishot \<Rightarrow> nat \<Rightarrow> reply option \<Rightarrow> nat \<Rightarrow> probe \<Rightarrow> probe" where
  "credited reader now r i probe =
     (case (r, p_sent_at probe, p_result probe) of
        (Some r, Some t, None) \<Rightarrow>
          if map_option probe_index (identify (q_replies (ms_queue reader)) r) = Some i
          then probe\<lparr>p_result := Some (result_for reader now r t)\<rparr> else probe
      | _ \<Rightarrow> probe)"

text \<open>The only thing a receive that is delivered as promised can log.\<close>

definition read_log :: "('s, 'q) libs \<Rightarrow> multishot \<Rightarrow> event \<Rightarrow> log_entry list" where
  "read_log L reader ev =
     (if q_err_queue (ms_queue reader) \<and>
         (case message_of L reader ev of None \<Rightarrow> False | Some m \<Rightarrow> ro_control_truncated m)
      then [CmsgTruncated] else [])"

definition credit_all :: "multishot \<Rightarrow> nat \<Rightarrow> reply option \<Rightarrow> probe list \<Rightarrow> probe list" where
  "credit_all reader now r probes = map (\<lambda>(i, p). credited reader now r i p) (enumerate 0 probes)"

lemma length_credit_all [simp]: "length (credit_all reader now r probes) = length probes"
  by (simp add: credit_all_def)

lemma nth_credit_all [simp]:
  "i < length probes \<Longrightarrow> credit_all reader now r probes ! i = credited reader now r i (probes ! i)"
  by (simp add: credit_all_def nth_enumerate_eq)

lemma credit_all_None: "credit_all reader now None probes = probes"
  by (rule nth_equalityI) (simp_all add: credited_def)

text \<open>
  What the kernel guarantees of a successful receive: a provided buffer was used, it holds at least
  the header of the message, and the message is shorter than the address space.
\<close>

definition read_ok :: "('s, 'q) libs \<Rightarrow> multishot \<Rightarrow> event \<Rightarrow> bool" where
  "read_ok L reader ev \<longleftrightarrow>
     0 < cqe_result (ev_cqe ev) \<and> cqe_result (ev_cqe ev) < 2 ^ 31 \<and>
     (case message_of L reader ev of None \<Rightarrow> False | Some m \<Rightarrow> length (ro_control_data m) < 2 ^ 63)"

lemma as_socket_sa_ip: "as_socket a = Some (ip, p) \<Longrightarrow> sa_ip a = Some ip"
  by (cases a) (auto simp: as_socket_def)

lemma source_ip_parsed:
  assumes "r_source r = parse_sockaddr P bs"
  shows "source_ip (r_source r) = Inr (Option.bind (r_source r) sa_ip)"
  using parse_sockaddr_is_socket [of P bs] assms
  by (cases "parse_sockaddr P bs") (auto simp: source_ip_def as_socket_sa_ip)

lemma received_message_eq:
  "read_ok L reader ev \<Longrightarrow>
   \<exists>m. message_of L reader ev = Some m \<and> received_message L ev reader = Inr m \<and>
       length (ro_control_data m) < 2 ^ 63"
  by (auto simp: read_ok_def received_message_def message_of_def i32_as_usize Let_def
      bind_eq_Some_conv split: option.splits)

lemma message_reply_eq:
  assumes "platform_ok (lib_platform L)" "message_of L reader ev = Some m"
    "length (ro_control_data m) < 2 ^ 63"
  shows "message_reply (lib_platform L) reader m = Inr (reply_of L reader ev, read_log L reader ev)"
  using assms
  by (auto simp: message_reply_def read_log_def reply_of_def parse_ip_recverr_eq split: option.splits)

lemma reply_of_source:
  "reply_of L reader ev = Some r \<Longrightarrow> \<exists>bs. r_source r = parse_sockaddr (lib_platform L) bs"
  by (auto simp: reply_of_def bind_eq_Some_conv split: if_splits)

lemma answer_probe_eq:
  assumes "source_ip (r_source r) = Inr (Option.bind (r_source r) sa_ip)"
  shows "answer_probe reader now r probes = Inr (credit_all reader now (Some r) probes)"
proof (cases "identify (q_replies (ms_queue reader)) r")
  case None
  then have "credit_all reader now (Some r) probes = probes"
    by (intro nth_equalityI) (auto simp: credited_def split: option.splits)
  with None show ?thesis by (simp add: answer_probe_def)
next
  case (Some i)
  let ?k = "probe_index i"
  have upd: "credit_all reader now (Some r) probes =
      (if ?k < length probes then probes[?k := credited reader now (Some r) ?k (probes ! ?k)] else probes)"
    using Some
    by (intro nth_equalityI) (auto simp: nth_list_update credited_def split: option.splits)
  show ?thesis
    unfolding upd using Some assms
    by (auto simp: answer_probe_def Let_def credited_def result_for_def split: option.splits)
qed

lemma handle_read_eq:
  assumes "platform_ok (lib_platform L)" "read_ok L reader ev"
  shows "handle_read L ev reader probes =
    Inr (credit_all reader (ev_now ev) (reply_of L reader ev) probes, read_log L reader ev)"
proof -
  obtain m where m: "message_of L reader ev = Some m" "received_message L ev reader = Inr m"
      "length (ro_control_data m) < 2 ^ 63"
    using received_message_eq [OF assms(2)] by blast
  note log = message_reply_eq [OF assms(1) m(1,3)]
  show ?thesis
  proof (cases "reply_of L reader ev")
    case None
    with m log show ?thesis by (simp add: handle_read_def credit_all_None)
  next
    case (Some r)
    obtain bs where "r_source r = parse_sockaddr (lib_platform L) bs"
      using reply_of_source [OF Some] by blast
    with Some m log show ?thesis
      using answer_probe_eq [OF source_ip_parsed, of r "lib_platform L" bs reader "ev_now ev" probes]
      by (simp add: handle_read_def)
  qed
qed

text \<open>
  C5: A receive the kernel delivered as it promises never panics and credits exactly one probe at
  most: the one the reader identifies its reply as, provided that probe was sent and still has no
  result; its result is the reply's source, the time since it was sent and the reply's kind.
  Every other probe is untouched, and the log grows only when control data was truncated.
\<close>

theorem handle_read_credits:
  assumes "platform_ok (lib_platform L)" and "read_ok L reader ev"
  shows "\<exists>probes'. handle_read L ev reader probes = Inr (probes', read_log L reader ev) \<and>
    length probes' = length probes \<and>
    (\<forall>i < length probes. probes' ! i =
      (case (reply_of L reader ev, p_sent_at (probes ! i), p_result (probes ! i)) of
         (Some r, Some t, None) \<Rightarrow>
           if map_option probe_index (identify (q_replies (ms_queue reader)) r) = Some i
           then (probes ! i)\<lparr>p_result := Some \<lparr>pr_source = Option.bind (r_source r) sa_ip,
                  pr_rtt = ev_now ev - t, pr_kind = classify (q_replies (ms_queue reader)) r\<rparr>\<rparr>
           else probes ! i
       | _ \<Rightarrow> probes ! i))"
  using handle_read_eq [OF assms, of probes]
  by (simp add: credited_def result_for_def split: option.split)


section \<open>Messages delivered by Linux\<close>

text \<open>
  The event is the completion of a receive by \<open>reader\<close> that left the given name, control data and
  payload in a provided buffer.
\<close>

definition delivers :: "bool \<Rightarrow> multishot \<Rightarrow> bytes \<Rightarrow> bytes \<Rightarrow> bytes \<Rightarrow> event \<Rightarrow> bool" where
  "delivers le reader name control payload ev \<longleftrightarrow>
     (let buffer = linux_recv_buffer le (ms_msghdr reader) name control payload in
      cqe_result (ev_cqe ev) = int (length buffer) \<and> length buffer < 2 ^ 31 \<and>
      length name \<le> msg_namelen (ms_msghdr reader) \<and>
      length control \<le> msg_controllen (ms_msghdr reader) \<and>
      (\<exists>b. lib_buffer_select (documented_libs le) (cqe_flags (ev_cqe ev)) = Some b \<and>
           ev_buffers ev b (length buffer) = Some buffer))"

lemma length_linux_recv_buffer:
  "length name \<le> msg_namelen hdr \<Longrightarrow> length control \<le> msg_controllen hdr \<Longrightarrow>
   length (linux_recv_buffer le hdr name control payload) =
     16 + msg_namelen hdr + msg_controllen hdr + length payload"
  by (simp add: linux_recv_buffer_def Let_def)

lemma delivers_message:
  assumes "delivers le reader name control payload ev"
  shows "message_of (documented_libs le) reader ev = Some
    \<lparr>ro_name_data = name, ro_control_data = control, ro_payload_data = payload,
     ro_control_truncated = False\<rparr>"
    and "0 < cqe_result (ev_cqe ev)" "cqe_result (ev_cqe ev) < 2 ^ 31"
    and "length control < 2 ^ 31"
proof -
  let ?buffer = "linux_recv_buffer le (ms_msghdr reader) name control payload"
  note d = assms [unfolded delivers_def Let_def]
  have len: "length ?buffer = 16 + msg_namelen (ms_msghdr reader) + msg_controllen (ms_msghdr reader)
      + length payload"
    using d by (intro length_linux_recv_buffer) auto
  show "0 < cqe_result (ev_cqe ev)" using d len by simp
  show "cqe_result (ev_cqe ev) < 2 ^ 31" using d by simp
  show "length control < 2 ^ 31" using d len by linarith
  obtain b where b: "lib_buffer_select (documented_libs le) (cqe_flags (ev_cqe ev)) = Some b"
    "ev_buffers ev b (length ?buffer) = Some ?buffer" using d by blast
  have small: "length ?buffer < 2 ^ 31" "length name \<le> msg_namelen (ms_msghdr reader)"
    "length control \<le> msg_controllen (ms_msghdr reader)"
    using d by simp_all
  have "linux_recvmsg_parse le ?buffer (ms_msghdr reader) = Some
    \<lparr>ro_name_data = name, ro_control_data = control, ro_payload_data = payload,
     ro_control_truncated = False\<rparr>"
    using small len by (intro linux_recvmsg_parse_buffer) simp_all
  with b d show "message_of (documented_libs le) reader ev = Some
    \<lparr>ro_name_data = name, ro_control_data = control, ro_payload_data = payload,
     ro_control_truncated = False\<rparr>"
    by (simp add: message_of_def del: documented_libs_fields(6)) 
qed

lemma delivers_read_ok:
  "delivers le reader name control payload ev \<Longrightarrow> read_ok (documented_libs le) reader ev"
  using delivers_message [of le reader name control payload ev] by (simp add: read_ok_def)

lemma reply_of_answer:
  assumes "delivers le reader name control payload ev" "\<not> q_err_queue (ms_queue reader)"
  shows "reply_of (documented_libs le) reader ev = Some
    \<lparr>r_source = parse_sockaddr (linux64 le) name, r_destination = None, r_quoted = payload,
     r_error = None\<rparr>"
  using assms(2) delivers_message(1) [OF assms(1)] by (simp add: reply_of_def)

lemma reply_of_error:
  assumes "delivers le reader name (linux_recverr le errno e source) payload ev"
    "q_err_queue (ms_queue reader)"
  shows "reply_of (documented_libs le) reader ev = Some
    \<lparr>r_source = parse_sockaddr (linux64 le) source, r_destination = parse_sockaddr (linux64 le) name,
     r_quoted = payload, r_error = Some e\<rparr>"
proof -
  note m = delivers_message [OF assms(1)]
  have "length source < 2 ^ 32" using m(4) by simp
  then have "parse_ip_recverr (linux64 le) (linux_recverr le errno e source) =
      Inr (Some \<lparr>ee_error = e, ee_source_bytes = source\<rparr>)"
    using parse_ip_recverr_linux [of source le errno e "[]"] by simp
  moreover have "parse_ip_recverr (linux64 le) (linux_recverr le errno e source) =
      Inr (recverr_spec (linux64 le) (linux_recverr le errno e source) 0)"
    using m(4) by (intro parse_ip_recverr_eq platform_ok_linux64) simp
  ultimately show ?thesis using assms(2) m(1) by (simp add: reply_of_def)
qed

end
