(* ===== verification/Trace_Loop.thy ===== *)
theory Trace_Loop
  imports Trace_Read
begin

text \<open>
  The event loop of \<open>run\<close> in src/src/trace.rs: what one completion does, when the trace is done, a
  batch of completions and the loop over the rounds of \<open>submit_and_wait\<close>. A round is the answer of
  the system call and the events it left in the completion queue.

  \<^item> \<open>trace_wf\<close> is the invariant of the loop: every send in the slab belongs to a probe of its own
    that has no send time yet, and only probes with a send time have a result.
  \<^item> \<open>phase_step\<close> is the abstract state machine of one probe, which the loop refines.
\<close>

section \<open>One completion\<close>

record ('s, 'q) loop_state =
  ls_sending :: 's
  ls_probes :: "probe list"
  ls_sq :: 'q
  ls_log :: "log_entry list"

definition answered :: "probe \<Rightarrow> bool" where
  "answered p \<longleftrightarrow> p_result p \<noteq> None"

definition trace_done :: "('s, 'q) libs \<Rightarrow> 's \<Rightarrow> probe list \<Rightarrow> ustate \<Rightarrow> bool" where
  "trace_done L sending probes state \<longleftrightarrow>
     (slab_is_empty (lib_slab L) sending \<and>
      (\<exists>r \<in> set (List.map_filter p_result
               (concat (takeWhile (list_ex answered) (chunk_by (\<lambda>a b. p_ttl a = p_ttl b) probes)))).
         terminates_trace (pr_kind r)))
     \<or> state = Timeout"

definition complete_write ::
    "('s, 'q) libs \<Rightarrow> event \<Rightarrow> ('s, 'q) loop_state \<Rightarrow> (bool \<times> ('s, 'q) loop_state) rust" where
  "complete_write L ev st =
     (let ret = cqe_result (ev_cqe ev);
          slot = user_data_slot (lib_bits L) (cqe_user_data (ev_cqe ev))
      in case slab_remove (lib_slab L) slot (ls_sending st) of
           None \<Rightarrow> Inl (Panic InvalidSlabKey)
         | Some (outgoing, sending) \<Rightarrow>
             let st = st\<lparr>ls_sending := sending\<rparr>; i = probe_index (og_probe outgoing) in
             if ret \<ge> 0 then
               if i < length (ls_probes st) then
                 Inr (False, st\<lparr>ls_probes := (ls_probes st)
                   [i := (ls_probes st ! i)\<lparr>p_sent_at := Some (ev_now ev)\<rparr>]\<rparr>)
               else Inl (Panic IndexOutOfBounds)
             else Inr (True, st))"

definition receive ::
    "('s, 'q) libs \<Rightarrow> event \<Rightarrow> multishot \<Rightarrow> probe list \<Rightarrow> (probe list \<times> log_entry list) rust" where
  "receive L ev reader probes =
     (if cqe_result (ev_cqe ev) \<ge> 0 then handle_read L ev reader probes else Inr (probes, []))"

definition rearm :: "('s, 'q) libs \<Rightarrow> event \<Rightarrow> multishot \<Rightarrow> 'q \<Rightarrow> 'q rust" where
  "rearm L ev reader sq =
     (if \<not> lib_more L (cqe_flags (ev_cqe ev)) then multishot_schedule L reader sq else Inr sq)"

definition complete_read ::
    "('s, 'q) libs \<Rightarrow> multishot list \<Rightarrow> event \<Rightarrow> ('s, 'q) loop_state
     \<Rightarrow> (bool \<times> ('s, 'q) loop_state) rust" where
  "complete_read L readers ev st =
     (let ret = cqe_result (ev_cqe ev);
          slot = user_data_slot (lib_bits L) (cqe_user_data (ev_cqe ev))
      in if slot < length readers then
           let reader = readers ! slot in
           try_bind (receive L ev reader (ls_probes st)) (\<lambda>(probes, log).
           try_bind (rearm L ev reader (ls_sq st)) (\<lambda>sq.
           Inr (ret < 0 \<and> \<not> ignores_read_error (q_replies (ms_queue reader)) ret,
                st\<lparr>ls_probes := probes, ls_sq := sq, ls_log := ls_log st @ log\<rparr>)))
         else Inl (Panic IndexOutOfBounds))"

definition complete ::
    "('s, 'q) libs \<Rightarrow> multishot list \<Rightarrow> ustate \<Rightarrow> event \<Rightarrow> ('s, 'q) loop_state
     \<Rightarrow> (bool \<times> ('s, 'q) loop_state) rust" where
  "complete L readers state ev st =
     (case state of
        Timeout \<Rightarrow> Inr (cqe_result (ev_cqe ev) \<noteq> - ETIME (lib_platform L), st)
      | Write \<Rightarrow> complete_write L ev st
      | Read \<Rightarrow> complete_read L readers ev st)"

text \<open>\<open>-ret\<close> overflows for \<open>i32::MIN\<close>.\<close>

definition log_failure :: "ustate \<Rightarrow> i32 \<Rightarrow> ('s, 'q) loop_state \<Rightarrow> ('s, 'q) loop_state rust" where
  "log_failure state ret st =
     (if ret = - (2 ^ 31) then Inl (Panic ArithmeticOverflow)
      else Inr (st\<lparr>ls_log := ls_log st @ [CompletionFailed state (- ret)]\<rparr>))"

definition process_cqe ::
    "('s, 'q) libs \<Rightarrow> multishot list \<Rightarrow> event \<Rightarrow> ('s, 'q) loop_state
     \<Rightarrow> (bool \<times> ('s, 'q) loop_state) rust" where
  "process_cqe L readers ev st =
     try_bind (user_data_state (lib_bits L) (cqe_user_data (ev_cqe ev))) (\<lambda>state.
     try_bind (complete L readers state ev st) (\<lambda>(failed, st).
     try_bind (if failed then log_failure state (cqe_result (ev_cqe ev)) st else Inr st) (\<lambda>st.
     Inr (trace_done L (ls_sending st) (ls_probes st) state, st))))"

section \<open>The loop\<close>

fun process_batch ::
    "('s, 'q) libs \<Rightarrow> multishot list \<Rightarrow> event list \<Rightarrow> ('s, 'q) loop_state
     \<Rightarrow> (bool \<times> ('s, 'q) loop_state) rust" where
  "process_batch L readers [] st = Inr (False, st)"
| "process_batch L readers (ev # evs) st =
     try_bind (process_cqe L readers ev st) (\<lambda>(finished, st).
     if finished then Inr (True, st) else process_batch L readers evs st)"

text \<open>\<open>submit_and_wait(1)\<close> fails with an errno or reports how many entries the kernel took.\<close>

record ring_round =
  rd_submit :: "i32 + nat"
  rd_events :: "event list"

definition submit_and_wait ::
    "('s, 'q) libs \<Rightarrow> ring_round \<Rightarrow> ('s, 'q) loop_state \<Rightarrow> ('s, 'q) loop_state rust" where
  "submit_and_wait L r st =
     (case rd_submit r of
        Inr n \<Rightarrow> Inr (st\<lparr>ls_sq := sq_submitted (lib_sq L) n (ls_sq st)\<rparr>)
      | Inl err \<Rightarrow> if err = EBUSY (lib_platform L) then Inr st else Inl (Fail (IoError err)))"

definition sync_sq :: "('s, 'q) libs \<Rightarrow> ('s, 'q) loop_state \<Rightarrow> ('s, 'q) loop_state" where
  "sync_sq L st = st\<lparr>ls_sq := sq_sync (lib_sq L) (ls_sq st)\<rparr>"

text \<open>The loop is still waiting when it has seen every round without being done.\<close>

datatype ('s, 'q) outcome = Returned "('s, 'q) loop_state" | Waiting "('s, 'q) loop_state"

fun run_loop ::
    "('s, 'q) libs \<Rightarrow> multishot list \<Rightarrow> ring_round list \<Rightarrow> ('s, 'q) loop_state
     \<Rightarrow> ('s, 'q) outcome rust" where
  "run_loop L readers [] st = Inr (Waiting st)"
| "run_loop L readers (r # rs) st =
     try_bind (submit_and_wait L r st) (\<lambda>st.
     try_bind (process_batch L readers (rd_events r) st) (\<lambda>(finished, st).
     if finished then Inr (Returned st) else run_loop L readers rs (sync_sq L st)))"

section \<open>What no completion changes\<close>

text \<open>Whatever the kernel does: probes keep their place and TTL, and a result is written once.\<close>

definition keeps :: "probe \<Rightarrow> probe \<Rightarrow> bool" where
  "keeps p p' \<longleftrightarrow> p_ttl p' = p_ttl p \<and> (p_result p \<noteq> None \<longrightarrow> p_result p' = p_result p)"

abbreviation evolves :: "probe list \<Rightarrow> probe list \<Rightarrow> bool" where
  "evolves \<equiv> list_all2 keeps"

lemma keeps_refl [simp, intro]: "keeps p p"
  by (simp add: keeps_def)

lemma keeps_trans: "keeps p q \<Longrightarrow> keeps q r \<Longrightarrow> keeps p r"
  by (auto simp: keeps_def)

lemma evolves_refl [simp, intro]: "evolves ps ps"
  by (simp add: list_all2_refl)

lemma evolves_trans: "evolves ps qs \<Longrightarrow> evolves qs rs \<Longrightarrow> evolves ps rs"
  by (rule list_all2_trans [of keeps keeps keeps]) (auto intro: keeps_trans)

lemma evolves_update: "(i < length ps \<Longrightarrow> keeps (ps ! i) p) \<Longrightarrow> evolves ps (ps[i := p])"
  by (cases "i < length ps") (auto intro!: list_all2_all_nthI simp: nth_list_update)

lemma evolves_ttls: "evolves ps qs \<Longrightarrow> map p_ttl qs = map p_ttl ps"
  by (auto simp: list_all2_conv_all_nth keeps_def intro!: nth_equalityI)

lemma answer_probe_evolves: "answer_probe reader now r ps = Inr ps' \<Longrightarrow> evolves ps ps'"
  by (auto simp: answer_probe_def Let_def try_bind_Inr_iff keeps_def intro!: evolves_update
      split: option.splits if_splits)

lemma handle_read_evolves: "handle_read L ev reader ps = Inr (ps', log) \<Longrightarrow> evolves ps ps'"
  by (auto simp: handle_read_def try_bind_Inr_iff dest: answer_probe_evolves split: option.splits)

lemma complete_read_Inr:
  assumes "complete_read L readers ev st = Inr (failed, st')"
  shows "\<exists>reader ps log q. reader \<in> set readers \<and> receive L ev reader (ls_probes st) = Inr (ps, log) \<and>
    rearm L ev reader (ls_sq st) = Inr q \<and>
    (failed \<longleftrightarrow> cqe_result (ev_cqe ev) < 0 \<and>
       \<not> ignores_read_error (q_replies (ms_queue reader)) (cqe_result (ev_cqe ev))) \<and>
    st' = st\<lparr>ls_probes := ps, ls_sq := q, ls_log := ls_log st @ log\<rparr>"
  using assms
  by (auto simp: complete_read_def Let_def try_bind_Inr_iff split: if_split_asm)
    (use nth_mem in blast)+

lemma complete_evolves:
  assumes "complete L readers state ev st = Inr (failed, st')"
  shows "evolves (ls_probes st) (ls_probes st')"
proof (cases state)
  case Write
  with assms show ?thesis
    by (auto simp: complete_def complete_write_def Let_def keeps_def intro!: evolves_update
        split: option.splits if_splits)
next
  case Read
  with assms show ?thesis
    by (auto simp: complete_def receive_def dest!: complete_read_Inr dest: handle_read_evolves
        split: if_splits)
next
  case Timeout
  with assms show ?thesis by (simp add: complete_def)
qed

lemma log_failure_Inr:
  "log_failure state ret st = Inr st' \<longleftrightarrow> ret \<noteq> - (2 ^ 31) \<and>
   st' = st\<lparr>ls_log := ls_log st @ [CompletionFailed state (- ret)]\<rparr>"
  by (auto simp: log_failure_def)

text \<open>A completion that was processed, without its plumbing.\<close>

lemma process_cqe_Inr:
  assumes "process_cqe L readers ev st = Inr (finished, st')"
  shows "\<exists>state failed st1. user_data_state (lib_bits L) (cqe_user_data (ev_cqe ev)) = Inr state \<and>
    complete L readers state ev st = Inr (failed, st1) \<and>
    st' = st1\<lparr>ls_log := ls_log st1 @ (if failed then [CompletionFailed state (- cqe_result (ev_cqe ev))] else [])\<rparr> \<and>
    finished = trace_done L (ls_sending st1) (ls_probes st1) state"
proof -
  obtain state failed st1 where s: "user_data_state (lib_bits L) (cqe_user_data (ev_cqe ev)) = Inr state"
    "complete L readers state ev st = Inr (failed, st1)"
    and l: "(if failed then log_failure state (cqe_result (ev_cqe ev)) st1 else Inr st1) = Inr st'"
    and d: "finished = trace_done L (ls_sending st') (ls_probes st') state"
    using assms by (auto simp: process_cqe_def try_bind_Inr_iff)
  have "st' = st1\<lparr>ls_log := ls_log st1 @
      (if failed then [CompletionFailed state (- cqe_result (ev_cqe ev))] else [])\<rparr>"
    using l by (cases failed) (simp_all add: log_failure_Inr)
  with s d show ?thesis by auto
qed

lemma process_cqe_evolves:
  "process_cqe L readers ev st = Inr (finished, st') \<Longrightarrow> evolves (ls_probes st) (ls_probes st')"
  by (auto dest!: process_cqe_Inr complete_evolves)

lemma process_batch_evolves:
  "process_batch L readers evs st = Inr (finished, st') \<Longrightarrow> evolves (ls_probes st) (ls_probes st')"
proof (induction evs arbitrary: st)
  case Nil
  then show ?case by simp
next
  case (Cons ev evs)
  then obtain b st1 where s: "process_cqe L readers ev st = Inr (b, st1)"
    and c: "(if b then Inr (True, st1) else process_batch L readers evs st1) = Inr (finished, st')"
    by (auto simp: try_bind_Inr_iff)
  have "evolves (ls_probes st) (ls_probes st1)" by (rule process_cqe_evolves [OF s])
  moreover have "evolves (ls_probes st1) (ls_probes st')"
    using c Cons.IH [of st1] by (auto split: if_splits)
  ultimately show ?case by (rule evolves_trans)
qed

lemma submit_and_wait_Inr:
  "submit_and_wait L r st = Inr st' \<Longrightarrow> ls_probes st' = ls_probes st \<and> ls_sending st' = ls_sending st"
  by (auto simp: submit_and_wait_def split: sum.splits if_splits)

lemma sync_sq_fields [simp]:
  "ls_probes (sync_sq L st) = ls_probes st" "ls_sending (sync_sq L st) = ls_sending st"
  "ls_log (sync_sq L st) = ls_log st" "ls_sq (sync_sq L st) = sq_sync (lib_sq L) (ls_sq st)"
  by (simp_all add: sync_sq_def)

fun outcome_state :: "('s, 'q) outcome \<Rightarrow> ('s, 'q) loop_state" where
  "outcome_state (Returned st) = st"
| "outcome_state (Waiting st) = st"

lemma run_loop_evolves:
  "run_loop L readers rs st = Inr out \<Longrightarrow> evolves (ls_probes st) (ls_probes (outcome_state out))"
proof (induction rs arbitrary: st)
  case Nil
  then show ?case by auto
next
  case (Cons r rs)
  then obtain st1 b st2 where s: "submit_and_wait L r st = Inr st1"
    and p: "process_batch L readers (rd_events r) st1 = Inr (b, st2)"
    and c: "(if b then Inr (Returned st2) else run_loop L readers rs (sync_sq L st2)) = Inr out"
    by (auto simp: try_bind_Inr_iff)
  have "evolves (ls_probes st) (ls_probes st2)"
    using submit_and_wait_Inr [OF s] process_batch_evolves [OF p] by simp
  moreover have "evolves (ls_probes st2) (ls_probes (outcome_state out))"
    using c Cons.IH [of "sync_sq L st2"] by (auto split: if_splits)
  ultimately show ?case by (rule evolves_trans)
qed

section \<open>The invariant\<close>

definition trace_wf :: "('s, 'q) libs \<Rightarrow> ('s \<Rightarrow> bool) \<Rightarrow> ('s, 'q) loop_state \<Rightarrow> bool" where
  "trace_wf L slab_inv st \<longleftrightarrow>
     slab_inv (ls_sending st) \<and>
     (\<forall>k og. slab_get (lib_slab L) (ls_sending st) k = Some og \<longrightarrow>
        probe_index (og_probe og) < length (ls_probes st) \<and>
        p_sent_at (ls_probes st ! probe_index (og_probe og)) = None \<and>
        (\<forall>k' og'. slab_get (lib_slab L) (ls_sending st) k' = Some og' \<longrightarrow>
           probe_index (og_probe og') = probe_index (og_probe og) \<longrightarrow> k' = k)) \<and>
     (\<forall>p \<in> set (ls_probes st). p_result p \<noteq> None \<longrightarrow> p_sent_at p \<noteq> None)"

text \<open>The invariant looks at the slab and the probes only.\<close>

lemma trace_wf_frame [simp]:
  "trace_wf L I (st\<lparr>ls_sq := q\<rparr>) = trace_wf L I st"
  "trace_wf L I (st\<lparr>ls_log := l\<rparr>) = trace_wf L I st"
  "trace_wf L I (sync_sq L st) = trace_wf L I st"
  by (simp_all add: trace_wf_def sync_sq_def)

section \<open>The phases of a probe\<close>

datatype phase = Queued | SendFailed | Sent nat | Answered nat probe_result

definition in_flight :: "('s, 'q) libs \<Rightarrow> ('s, 'q) loop_state \<Rightarrow> nat \<Rightarrow> bool" where
  "in_flight L st i \<longleftrightarrow>
     (\<exists>k og. slab_get (lib_slab L) (ls_sending st) k = Some og \<and> probe_index (og_probe og) = i)"

definition phase_of :: "('s, 'q) libs \<Rightarrow> ('s, 'q) loop_state \<Rightarrow> nat \<Rightarrow> phase" where
  "phase_of L st i =
     (case (p_sent_at (ls_probes st ! i), p_result (ls_probes st ! i)) of
        (None, _) \<Rightarrow> if in_flight L st i then Queued else SendFailed
      | (Some t, None) \<Rightarrow> Sent t
      | (Some t, Some r) \<Rightarrow> Answered t r)"

inductive phase_step :: "nat \<Rightarrow> phase \<Rightarrow> phase \<Rightarrow> bool" where
  sent: "phase_step now Queued (Sent now)"
| not_sent: "phase_step now Queued SendFailed"
| answer: "pr_rtt r = now - t \<Longrightarrow> phase_step now (Sent t) (Answered t r)"

inductive_cases phase_step_from_Queued: "phase_step now Queued p"
inductive_cases phase_step_from_Sent: "phase_step now (Sent t) p"
inductive_simps phase_step_to_Answered: "phase_step now p (Answered t r)"
inductive_simps phase_step_from_final:
  "phase_step now SendFailed p" "phase_step now (Answered t r) p"

text \<open>One step moves at most one probe.\<close>

definition phases_move :: "('s, 'q) libs \<Rightarrow> nat \<Rightarrow> ('s, 'q) loop_state \<Rightarrow> ('s, 'q) loop_state \<Rightarrow> bool" where
  "phases_move L now st st' \<longleftrightarrow>
     (\<exists>j. \<forall>i < length (ls_probes st).
        phase_of L st' i = phase_of L st i \<or> (i = j \<and> phase_step now (phase_of L st i) (phase_of L st' i)))"

lemma in_flight_frame [simp]:
  "in_flight L (st\<lparr>ls_sq := q\<rparr>) = in_flight L st"
  "in_flight L (st\<lparr>ls_log := l\<rparr>) = in_flight L st"
  "in_flight L (st\<lparr>ls_probes := ps\<rparr>) = in_flight L st"
  by (simp_all add: in_flight_def fun_eq_iff)

lemma phase_of_frame [simp]:
  "phase_of L (st\<lparr>ls_sq := q\<rparr>) = phase_of L st"
  "phase_of L (st\<lparr>ls_log := l\<rparr>) = phase_of L st"
  "phase_of L (sync_sq L st) = phase_of L st"
  by (simp_all add: phase_of_def sync_sq_def fun_eq_iff)

lemma phases_move_refl [simp]: "phases_move L now st st"
  by (auto simp: phases_move_def)

lemma phases_move_frame [simp]:
  "phases_move L now st (st'\<lparr>ls_sq := q\<rparr>) = phases_move L now st st'"
  "phases_move L now st (st'\<lparr>ls_log := l\<rparr>) = phases_move L now st st'"
  by (simp_all add: phases_move_def)

section \<open>What one completion changes\<close>

text \<open>A read changes nothing or gives one sent probe its first result.\<close>

lemma answer_probe_cases:
  assumes "answer_probe reader now r ps = Inr ps'" "ps' \<noteq> ps"
  shows "\<exists>i t r. i < length ps \<and> p_sent_at (ps ! i) = Some t \<and> p_result (ps ! i) = None \<and>
    ps' = ps[i := (ps ! i)\<lparr>p_result := Some r\<rparr>] \<and> pr_rtt r = now - t"
proof -
  obtain i where i: "identify (q_replies (ms_queue reader)) r = Some i" "probe_index i < length ps"
    "p_result (ps ! probe_index i) = None"
    using assms by (auto simp: answer_probe_def Let_def split: option.splits if_splits)
  moreover obtain t where t: "p_sent_at (ps ! probe_index i) = Some t"
    using assms i by (cases "p_sent_at (ps ! probe_index i)") (simp_all add: answer_probe_def)
  ultimately obtain source where "ps' = ps[probe_index i := (ps ! probe_index i)\<lparr>p_result := Some
      \<lparr>pr_source = source, pr_rtt = now - t, pr_kind = classify (q_replies (ms_queue reader)) r\<rparr>\<rparr>]"
    using assms by (auto simp: answer_probe_def Let_def try_bind_Inr_iff)
  with i t show ?thesis by (intro exI conjI) (assumption | simp)+
qed

lemma handle_read_cases:
  assumes "handle_read L ev reader ps = Inr (ps', log)"
  obtains (unchanged) "ps' = ps"
  | (answered) i t r where "i < length ps" "p_sent_at (ps ! i) = Some t" "p_result (ps ! i) = None"
      "ps' = ps[i := (ps ! i)\<lparr>p_result := Some r\<rparr>]" "pr_rtt r = ev_now ev - t"
proof -
  have "ps' = ps \<or> (\<exists>reader r. answer_probe reader (ev_now ev) r ps = Inr ps')"
    using assms by (auto simp: handle_read_def try_bind_Inr_iff split: option.splits)
  then show ?thesis using unchanged answered answer_probe_cases by metis
qed

text \<open>A write takes its entry off the slab and gives its probe a send time, if it succeeded.\<close>

definition stamped :: "nat \<Rightarrow> nat \<Rightarrow> probe list \<Rightarrow> probe list" where
  "stamped i now ps = ps[i := (ps ! i)\<lparr>p_sent_at := Some now\<rparr>]"

lemma complete_write_Inr:
  assumes "complete_write L ev st = Inr (failed, st')"
  shows "\<exists>k og s'. slab_remove (lib_slab L) k (ls_sending st) = Some (og, s') \<and>
    (failed \<longleftrightarrow> cqe_result (ev_cqe ev) < 0) \<and>
    st' = (if failed then st\<lparr>ls_sending := s'\<rparr> else
      st\<lparr>ls_sending := s', ls_probes := stamped (probe_index (og_probe og)) (ev_now ev) (ls_probes st)\<rparr>)"
proof -
  let ?k = "user_data_slot (lib_bits L) (cqe_user_data (ev_cqe ev))"
  obtain og s' where h: "slab_remove (lib_slab L) ?k (ls_sending st) = Some (og, s')"
    using assms by (auto simp: complete_write_def Let_def split: option.splits)
  let ?i = "probe_index (og_probe og)"
  have e: "complete_write L ev st =
     (if cqe_result (ev_cqe ev) \<ge> 0 then
        if ?i < length (ls_probes st) then
          Inr (False, st\<lparr>ls_sending := s', ls_probes := stamped ?i (ev_now ev) (ls_probes st)\<rparr>)
        else Inl (Panic IndexOutOfBounds)
      else Inr (True, st\<lparr>ls_sending := s'\<rparr>))"
    unfolding complete_write_def Let_def h by (simp add: stamped_def)
  show ?thesis
  proof (cases "cqe_result (ev_cqe ev) \<ge> 0")
    case True
    then have "\<not> failed" "st' = st\<lparr>ls_sending := s', ls_probes := stamped ?i (ev_now ev) (ls_probes st)\<rparr>"
      using assms e by (simp_all split: if_split_asm)
    with h True show ?thesis by auto
  next
    case False
    then have "failed" "st' = st\<lparr>ls_sending := s'\<rparr>" using assms e by simp_all
    with h False show ?thesis by auto
  qed
qed

lemma phase_of_answered:
  assumes "i < length (ls_probes st)" "p_sent_at (ls_probes st ! i) = Some t" "p_result (ls_probes st ! i) = None"
    and "pr_rtt r = now - t"
    and "st' = st\<lparr>ls_probes := (ls_probes st)[i := (ls_probes st ! i)\<lparr>p_result := Some r\<rparr>]\<rparr>"
  shows "phases_move L now st st'"
proof -
  have "phase_of L st' j = phase_of L st j" if "j \<noteq> i" for j
    using that assms(5) by (simp add: phase_of_def)
  moreover have "phase_of L st i = Sent t" "phase_of L st' i = Answered t r"
    using assms by (simp_all add: phase_of_def)
  ultimately show ?thesis
    using assms(4) unfolding phases_move_def by (metis phase_step.answer)
qed

lemma complete_read_moves:
  assumes "complete_read L readers ev st = Inr (failed, st')" "trace_wf L I st"
  shows "trace_wf L I st' \<and> phases_move L (ev_now ev) st st'"
proof -
  obtain reader ps log q where rc: "receive L ev reader (ls_probes st) = Inr (ps, log)"
    and st': "st' = st\<lparr>ls_probes := ps, ls_sq := q, ls_log := ls_log st @ log\<rparr>"
    using complete_read_Inr [OF assms(1)] by blast
  have ps: "ps = ls_probes st \<or> (\<exists>reader l. handle_read L ev reader (ls_probes st) = Inr (ps, l))"
    using rc by (auto simp: receive_def split: if_splits)
  let ?st = "st\<lparr>ls_probes := ps\<rparr>"
  have "st' = ?st\<lparr>ls_sq := q\<rparr>\<lparr>ls_log := ls_log st @ log\<rparr>" using st' by simp
  moreover have "trace_wf L I ?st \<and> phases_move L (ev_now ev) st ?st"
  proof (cases "ps = ls_probes st")
    case True
    then show ?thesis using assms(2) by simp
  next
    case False
    with ps obtain reader l where h: "handle_read L ev reader (ls_probes st) = Inr (ps, l)" by blast
    then show ?thesis
    proof (cases rule: handle_read_cases)
      case unchanged
      then show ?thesis using assms(2) by simp
    next
      case (answered i t r)
      have "trace_wf L I ?st"
        using assms(2) answered
        by (auto simp: trace_wf_def nth_list_update dest!: set_update_subset_insert [THEN subsetD])
      then show ?thesis using answered phase_of_answered [of i st t r "ev_now ev" ?st L] by simp
    qed
  qed
  ultimately show ?thesis by simp
qed

section \<open>The loop with libraries that keep their contracts\<close>

locale trace_env =
  slab_contract "lib_slab L" slab_inv slots + sq_contract "lib_sq L" pending consumed capacity +
  bitfield_layout "lib_bits L" + libc_layout "lib_platform L"
  for L :: "('s, 'q) libs" and slab_inv :: "'s \<Rightarrow> bool" and slots :: "'s \<Rightarrow> nat"
    and pending :: "'q \<Rightarrow> sqe list" and consumed :: "'q \<Rightarrow> nat" and capacity :: "'q \<Rightarrow> nat"
begin

lemma wf_entry:
  assumes "trace_wf L slab_inv st" "slab_get (lib_slab L) (ls_sending st) k = Some og"
  shows "probe_index (og_probe og) < length (ls_probes st)"
    "p_sent_at (ls_probes st ! probe_index (og_probe og)) = None"
    "slab_get (lib_slab L) (ls_sending st) k' = Some og' \<Longrightarrow>
     probe_index (og_probe og') = probe_index (og_probe og) \<Longrightarrow> k' = k"
  using assms unfolding trace_wf_def by blast+

text \<open>A send that was taken off the slab is no longer in flight; the others still are.\<close>

lemma in_flight_remove:
  assumes "trace_wf L slab_inv st" "slab_remove (lib_slab L) k (ls_sending st) = Some (og, s')"
  shows "in_flight L (st\<lparr>ls_sending := s'\<rparr>) i \<longleftrightarrow> in_flight L st i \<and> i \<noteq> probe_index (og_probe og)"
proof -
  have "slab_inv (ls_sending st)" using assms(1) by (simp add: trace_wf_def)
  then have r: "slab_get (lib_slab L) (ls_sending st) k = Some og"
    "slab_get (lib_slab L) s' = (slab_get (lib_slab L) (ls_sending st))(k := None)"
    using remove_ok [OF _ assms(2)] by simp_all
  have g: "slab_get (lib_slab L) s' k' = Some og' \<longleftrightarrow>
      k' \<noteq> k \<and> slab_get (lib_slab L) (ls_sending st) k' = Some og'" for k' og'
    by (simp add: r(2))
  have "in_flight L (st\<lparr>ls_sending := s'\<rparr>) i \<longleftrightarrow>
      (\<exists>k' og'. k' \<noteq> k \<and> slab_get (lib_slab L) (ls_sending st) k' = Some og' \<and> probe_index (og_probe og') = i)"
    by (simp add: in_flight_def g)
  also have "\<dots> \<longleftrightarrow> in_flight L st i \<and> i \<noteq> probe_index (og_probe og)"
    unfolding in_flight_def using wf_entry(3) [OF assms(1) r(1)] r(1) by (metis option.inject)
  finally show ?thesis .
qed

lemma wf_remove:
  assumes "trace_wf L slab_inv st" "slab_remove (lib_slab L) k (ls_sending st) = Some (og, s')"
  shows "trace_wf L slab_inv (st\<lparr>ls_sending := s'\<rparr>)"
    and "trace_wf L slab_inv (st\<lparr>ls_sending := s',
      ls_probes := stamped (probe_index (og_probe og)) now (ls_probes st)\<rparr>)"
proof -
  have inv: "slab_inv (ls_sending st)" using assms(1) by (simp add: trace_wf_def)
  note r = remove_ok [OF inv assms(2)]
  show "trace_wf L slab_inv (st\<lparr>ls_sending := s'\<rparr>)"
    using assms(1) r by (auto simp: trace_wf_def split: if_splits)
  have other: "probe_index (og_probe og') \<noteq> probe_index (og_probe og)"
    if "k' \<noteq> k" "slab_get (lib_slab L) (ls_sending st) k' = Some og'" for k' og'
    using wf_entry(3) [OF assms(1), of k og k' og'] r that by blast
  then show "trace_wf L slab_inv (st\<lparr>ls_sending := s',
      ls_probes := stamped (probe_index (og_probe og)) now (ls_probes st)\<rparr>)"
    using assms(1) r
    by (auto simp: trace_wf_def stamped_def nth_list_update split: if_splits
        dest!: set_update_subset_insert [THEN subsetD])
qed

lemma complete_write_moves:
  assumes "complete_write L ev st = Inr (failed, st')" "trace_wf L slab_inv st"
  shows "trace_wf L slab_inv st' \<and> phases_move L (ev_now ev) st st'"
proof -
  obtain k og s' where r: "slab_remove (lib_slab L) k (ls_sending st) = Some (og, s')"
    and st': "st' = (if failed then st\<lparr>ls_sending := s'\<rparr> else st\<lparr>ls_sending := s',
      ls_probes := stamped (probe_index (og_probe og)) (ev_now ev) (ls_probes st)\<rparr>)"
    using complete_write_Inr [OF assms(1)] by blast
  let ?j = "probe_index (og_probe og)"
  have inv: "slab_inv (ls_sending st)" using assms(2) by (simp add: trace_wf_def)
  have g: "slab_get (lib_slab L) (ls_sending st) k = Some og" using remove_ok [OF inv r] by simp
  have j: "?j < length (ls_probes st)" "p_sent_at (ls_probes st ! ?j) = None"
    using wf_entry [OF assms(2) g] by simp_all
  have fl: "in_flight L st' i \<longleftrightarrow> in_flight L st i \<and> i \<noteq> ?j" for i
    using in_flight_remove [OF assms(2) r, of i] st' by (simp add: in_flight_def)
  have "phase_of L st ?j = Queued" using j g by (auto simp: phase_of_def in_flight_def)
  moreover have "phase_of L st' ?j = (if failed then SendFailed else Sent (ev_now ev))"
  proof (cases failed)
    case True
    then show ?thesis using fl [of ?j] j st' by (simp add: phase_of_def)
  next
    case False
    have "p_result (ls_probes st ! ?j) = None" using assms(2) j by (force simp: trace_wf_def)
    with False show ?thesis using j st' by (simp add: phase_of_def stamped_def)
  qed
  moreover have "phase_of L st' i = phase_of L st i" if "i \<noteq> ?j" for i
    using that fl [of i] st' by (cases failed) (simp_all add: phase_of_def stamped_def)
  ultimately have "phases_move L (ev_now ev) st st'"
    unfolding phases_move_def by (metis phase_step.sent phase_step.not_sent)
  then show ?thesis using wf_remove [OF assms(2) r] st' by simp
qed

lemma process_cqe_moves:
  assumes "process_cqe L readers ev st = Inr (finished, st')" "trace_wf L slab_inv st"
  shows "trace_wf L slab_inv st' \<and> phases_move L (ev_now ev) st st'"
proof -
  obtain state failed st1 where c: "complete L readers state ev st = Inr (failed, st1)"
    and st': "st' = st1\<lparr>ls_log := ls_log st1 @ (if failed then [CompletionFailed state (- cqe_result (ev_cqe ev))] else [])\<rparr>"
    using process_cqe_Inr [OF assms(1)] by blast
  have "trace_wf L slab_inv st1 \<and> phases_move L (ev_now ev) st st1"
  proof (cases state)
    case Write
    with c assms(2) show ?thesis by (simp add: complete_def complete_write_moves)
  next
    case Read
    with c assms(2) show ?thesis by (auto simp: complete_def dest: complete_read_moves)
  next
    case Timeout
    with c assms(2) show ?thesis by (simp add: complete_def)
  qed
  then show ?thesis by (simp add: st')
qed

end

interpretation documented: trace_env "documented_libs le" vec_inv vec_slots lq_entries lq_consumed lq_capacity
  for le
  by unfold_locales
    (auto simp: platform_ok_linux64 vec.new_ok vec.remove_None_iff vec.empty_iff
      lsb.slot_new lsb.slot_with_slot lsb.slot_with_state lsb.state_with_state lsb.state_with_slot
      list_sq.push_full list_sq.sync_ok list_sq.submitted_ok
      dest: vec.insert_ok vec.remove_ok vec.key_bound list_sq.push_ok)

end
