(* ===== verification/Trace_Kernel.thy ===== *)
theory Trace_Kernel
  imports Trace_Loop
begin

text \<open>
  The event loop under the kernel's contract: every send completes once, a successful receive names
  a filled buffer, results are errnos or counts (\<open>event_ok\<close>, and \<open>rounds_ok\<close> along a run of the
  loop). Under it the loop never panics, and it returns once the timeout's completion is processed.
\<close>

section \<open>The contract of the kernel\<close>

definition event_ok ::
    "('s, 'q) libs \<Rightarrow> multishot list \<Rightarrow> ('s, 'q) loop_state \<Rightarrow> event \<Rightarrow> bool" where
  "event_ok L readers st ev \<longleftrightarrow>
     - (2 ^ 31) < cqe_result (ev_cqe ev) \<and>
     (let slot = user_data_slot (lib_bits L) (cqe_user_data (ev_cqe ev)) in
      case user_data_state (lib_bits L) (cqe_user_data (ev_cqe ev)) of
        Inl _ \<Rightarrow> False
      | Inr Timeout \<Rightarrow> True
      | Inr Write \<Rightarrow> slab_get (lib_slab L) (ls_sending st) slot \<noteq> None
      | Inr Read \<Rightarrow> slot < length readers \<and>
          (0 \<le> cqe_result (ev_cqe ev) \<longrightarrow> read_ok L (readers ! slot) ev))"

lemma event_ok_frame [simp]:
  "event_ok L readers (st\<lparr>ls_sq := q\<rparr>) ev = event_ok L readers st ev"
  by (simp add: event_ok_def Let_def split: sum.split ustate.split)

fun batch_ok ::
    "('s, 'q) libs \<Rightarrow> multishot list \<Rightarrow> event list \<Rightarrow> ('s, 'q) loop_state \<Rightarrow> bool" where
  "batch_ok L readers [] st = True"
| "batch_ok L readers (ev # evs) st =
     (event_ok L readers st ev \<and>
      (case process_cqe L readers ev st of
         Inr (False, st') \<Rightarrow> batch_ok L readers evs st'
       | _ \<Rightarrow> True))"

fun rounds_ok ::
    "('s, 'q) libs \<Rightarrow> multishot list \<Rightarrow> ring_round list \<Rightarrow> ('s, 'q) loop_state \<Rightarrow> bool" where
  "rounds_ok L readers [] st = True"
| "rounds_ok L readers (r # rs) st =
     (case submit_and_wait L r st of
        Inl _ \<Rightarrow> True
      | Inr st' \<Rightarrow> batch_ok L readers (rd_events r) st' \<and>
          (case process_batch L readers (rd_events r) st' of
             Inr (False, st'') \<Rightarrow> rounds_ok L readers rs (sync_sq L st'')
           | _ \<Rightarrow> True))"

text \<open>A completion after which a multishot receive has to be scheduled again.\<close>

definition rearms :: "('s, 'q) libs \<Rightarrow> event \<Rightarrow> bool" where
  "rearms L ev \<longleftrightarrow>
     user_data_state (lib_bits L) (cqe_user_data (ev_cqe ev)) = Inr Read \<and> \<not> lib_more L (cqe_flags (ev_cqe ev))"

definition rearm_count :: "('s, 'q) libs \<Rightarrow> event list \<Rightarrow> nat" where
  "rearm_count L evs = length (filter (rearms L) evs)"

definition is_timeout :: "('s, 'q) libs \<Rightarrow> event \<Rightarrow> bool" where
  "is_timeout L ev \<longleftrightarrow> user_data_state (lib_bits L) (cqe_user_data (ev_cqe ev)) = Inr Timeout"

definition submit_ok :: "('s, 'q) libs \<Rightarrow> ring_round \<Rightarrow> bool" where
  "submit_ok L r \<longleftrightarrow> (case rd_submit r of Inr _ \<Rightarrow> True | Inl e \<Rightarrow> e = EBUSY (lib_platform L))"

lemma submit_and_wait_ok:
  "submit_ok L r \<Longrightarrow> \<exists>st'. submit_and_wait L r st = Inr st'"
  by (auto simp: submit_ok_def submit_and_wait_def split: sum.splits)

lemma submit_and_wait_Inl:
  "submit_and_wait L r st = Inl e \<Longrightarrow> \<exists>n. n \<noteq> EBUSY (lib_platform L) \<and> e = Fail (IoError n)"
  by (auto simp: submit_and_wait_def split: sum.splits if_splits)

context trace_env begin

lemma submit_and_wait_frame:
  assumes "submit_and_wait L r st = Inr st'"
  shows "trace_wf L slab_inv st' = trace_wf L slab_inv st \<and> pending (ls_sq st') = pending (ls_sq st) \<and>
    capacity (ls_sq st') = capacity (ls_sq st)"
  using assms by (auto simp: submit_and_wait_def submitted_ok split: sum.splits if_splits)

text \<open>The queue after one completion: at most one entry more, and the same capacity.\<close>

definition grows :: "nat \<Rightarrow> 'q \<Rightarrow> 'q \<Rightarrow> bool" where
  "grows n q q' \<longleftrightarrow> capacity q' = capacity q \<and> length (pending q') = length (pending q) + n"

lemma grows_0 [simp]: "grows 0 q q"
  by (simp add: grows_def)

lemma multishot_schedule_cases:
  "(\<exists>q'. multishot_schedule L reader q = Inr q' \<and> grows 1 q q') \<or>
   multishot_schedule L reader q = Inl (Fail SubmissionQueueFull) \<and> capacity q \<le> length (pending q)"
proof -
  let ?e = "SqRecvMsgMulti (q_socket (ms_queue reader)) (ms_msghdr reader)
    (if q_err_queue (ms_queue reader) then MSG_ERRQUEUE (lib_platform L) else 0)
    (user_data (lib_bits L) (unat (ms_slot reader)) Read)"
  have e: "multishot_schedule L reader q = ok_or (Fail SubmissionQueueFull) (sq_push (lib_sq L) ?e q)"
    by (simp add: multishot_schedule_def Let_def)
  show ?thesis
  proof (cases "sq_push (lib_sq L) ?e q")
    case None
    with push_full [of ?e q] show ?thesis by (simp add: e)
  next
    case (Some q')
    with push_ok [OF Some] show ?thesis by (simp add: e grows_def)
  qed
qed

lemma complete_write_total:
  assumes "slab_get (lib_slab L) (ls_sending st) (user_data_slot (lib_bits L) (cqe_user_data (ev_cqe ev))) \<noteq> None"
    and "trace_wf L slab_inv st"
  shows "\<exists>failed st'. complete_write L ev st = Inr (failed, st') \<and> ls_sq st' = ls_sq st"
proof -
  let ?k = "user_data_slot (lib_bits L) (cqe_user_data (ev_cqe ev))"
  obtain og where g: "slab_get (lib_slab L) (ls_sending st) ?k = Some og" using assms(1) by blast
  have "slab_inv (ls_sending st)" using assms(2) by (simp add: trace_wf_def)
  from remove_present [OF this g] obtain s' where
    "slab_remove (lib_slab L) ?k (ls_sending st) = Some (og, s')" by blast
  then show ?thesis using wf_entry(1) [OF assms(2) g] by (auto simp: complete_write_def Let_def)
qed

lemma complete_read_total:
  assumes "user_data_slot (lib_bits L) (cqe_user_data (ev_cqe ev)) < length readers"
    and "0 \<le> cqe_result (ev_cqe ev) \<Longrightarrow>
      read_ok L (readers ! user_data_slot (lib_bits L) (cqe_user_data (ev_cqe ev))) ev"
  shows "(\<exists>failed st'. complete_read L readers ev st = Inr (failed, st') \<and>
      grows (if lib_more L (cqe_flags (ev_cqe ev)) then 0 else 1) (ls_sq st) (ls_sq st')) \<or>
    (complete_read L readers ev st = Inl (Fail SubmissionQueueFull) \<and>
      \<not> lib_more L (cqe_flags (ev_cqe ev)) \<and> capacity (ls_sq st) \<le> length (pending (ls_sq st)))"
proof -
  let ?reader = "readers ! user_data_slot (lib_bits L) (cqe_user_data (ev_cqe ev))"
  obtain ps log where r: "receive L ev ?reader (ls_probes st) = Inr (ps, log)"
  proof (cases "0 \<le> cqe_result (ev_cqe ev)")
    case True
    then show ?thesis
      using that handle_read_eq [OF ok assms(2) [OF True], of "ls_probes st"] by (simp add: receive_def)
  next
    case False
    then show ?thesis using that by (simp add: receive_def)
  qed
  have "(\<exists>q'. rearm L ev ?reader (ls_sq st) = Inr q' \<and>
      grows (if lib_more L (cqe_flags (ev_cqe ev)) then 0 else 1) (ls_sq st) q') \<or>
    rearm L ev ?reader (ls_sq st) = Inl (Fail SubmissionQueueFull) \<and>
      \<not> lib_more L (cqe_flags (ev_cqe ev)) \<and> capacity (ls_sq st) \<le> length (pending (ls_sq st))"
    using multishot_schedule_cases [of ?reader "ls_sq st"] by (simp add: rearm_def)
  then show ?thesis using assms(1) r by (auto simp: complete_read_def Let_def)
qed

lemma complete_total:
  assumes "user_data_state (lib_bits L) (cqe_user_data (ev_cqe ev)) = Inr state"
    and "event_ok L readers st ev" "trace_wf L slab_inv st"
  shows "(\<exists>failed st'. complete L readers state ev st = Inr (failed, st') \<and>
      grows (if rearms L ev then 1 else 0) (ls_sq st) (ls_sq st')) \<or>
    (complete L readers state ev st = Inl (Fail SubmissionQueueFull) \<and>
      rearms L ev \<and> capacity (ls_sq st) \<le> length (pending (ls_sq st)))"
proof (cases state)
  case Write
  then have "slab_get (lib_slab L) (ls_sending st) (user_data_slot (lib_bits L) (cqe_user_data (ev_cqe ev))) \<noteq> None"
    and n: "\<not> rearms L ev"
    using assms(1,2) by (simp_all add: event_ok_def rearms_def)
  from complete_write_total [OF this(1) assms(3)] Write n show ?thesis
    by (auto simp: complete_def)
next
  case Read
  then have "user_data_slot (lib_bits L) (cqe_user_data (ev_cqe ev)) < length readers"
    "0 \<le> cqe_result (ev_cqe ev) \<Longrightarrow>
      read_ok L (readers ! user_data_slot (lib_bits L) (cqe_user_data (ev_cqe ev))) ev"
    and r: "rearms L ev \<longleftrightarrow> \<not> lib_more L (cqe_flags (ev_cqe ev))"
    using assms(1,2) by (simp_all add: event_ok_def rearms_def Let_def)
  from complete_read_total [OF this(1,2), of st] Read r show ?thesis
    by (auto simp: complete_def)
next
  case Timeout
  then show ?thesis using assms(1) by (simp add: complete_def rearms_def)
qed

lemma process_cqe_total:
  assumes "event_ok L readers st ev" "trace_wf L slab_inv st"
  shows "(\<exists>finished st'. process_cqe L readers ev st = Inr (finished, st') \<and> trace_wf L slab_inv st' \<and>
      (is_timeout L ev \<longrightarrow> finished) \<and> grows (if rearms L ev then 1 else 0) (ls_sq st) (ls_sq st')) \<or>
    (process_cqe L readers ev st = Inl (Fail SubmissionQueueFull) \<and>
      rearms L ev \<and> capacity (ls_sq st) \<le> length (pending (ls_sq st)))"
proof -
  obtain state where s: "user_data_state (lib_bits L) (cqe_user_data (ev_cqe ev)) = Inr state"
    using assms(1) by (auto simp: event_ok_def Let_def split: sum.splits)
  have min: "cqe_result (ev_cqe ev) \<noteq> - (2 ^ 31)" using assms(1) by (auto simp: event_ok_def)
  from complete_total [OF s assms] show ?thesis
  proof (elim disjE exE conjE)
    fix failed st1
    assume c: "complete L readers state ev st = Inr (failed, st1)"
      and g: "grows (if rearms L ev then 1 else 0) (ls_sq st) (ls_sq st1)"
    obtain st' where l: "(if failed then log_failure state (cqe_result (ev_cqe ev)) st1 else Inr st1) = Inr st'"
      and q: "ls_sq st' = ls_sq st1"
      using min by (cases failed) (simp_all add: log_failure_def)
    have p: "process_cqe L readers ev st =
        Inr (trace_done L (ls_sending st') (ls_probes st') state, st')"
      by (simp add: process_cqe_def s c l)
    moreover have "is_timeout L ev \<longrightarrow> trace_done L (ls_sending st') (ls_probes st') state"
      using s by (simp add: is_timeout_def trace_done_def)
    ultimately show ?thesis using g q process_cqe_moves [OF p assms(2)] by simp
  qed (simp add: process_cqe_def s)
qed

section \<open>Batches and rounds\<close>

lemma process_batch_total:
  assumes "batch_ok L readers evs st" "trace_wf L slab_inv st"
  shows "(\<exists>finished st'. process_batch L readers evs st = Inr (finished, st') \<and> trace_wf L slab_inv st' \<and>
      (list_ex (is_timeout L) evs \<longrightarrow> finished) \<and> capacity (ls_sq st') = capacity (ls_sq st) \<and>
      length (pending (ls_sq st')) \<le> length (pending (ls_sq st)) + rearm_count L evs) \<or>
    (process_batch L readers evs st = Inl (Fail SubmissionQueueFull) \<and>
      capacity (ls_sq st) < length (pending (ls_sq st)) + rearm_count L evs)"
  using assms
proof (induction evs arbitrary: st)
  case Nil
  then show ?case by (auto simp: rearm_count_def)
next
  case (Cons ev evs)
  have ok: "event_ok L readers st ev" using Cons.prems(1) by simp
  from process_cqe_total [OF ok Cons.prems(2)] show ?case
  proof (elim disjE exE conjE)
    fix finished st1
    assume p: "process_cqe L readers ev st = Inr (finished, st1)" and w: "trace_wf L slab_inv st1"
      and tm: "is_timeout L ev \<longrightarrow> finished"
      and g: "grows (if rearms L ev then 1 else 0) (ls_sq st) (ls_sq st1)"
    have c: "rearm_count L (ev # evs) = (if rearms L ev then 1 else 0) + rearm_count L evs"
      by (simp add: rearm_count_def)
    show ?thesis
    proof (cases finished)
      case True
      then show ?thesis using p w g c by (auto simp: grows_def)
    next
      case False
      then have "batch_ok L readers evs st1" using Cons.prems(1) p by simp
      from Cons.IH [OF this w] False p g c tm show ?thesis by (auto simp: grows_def)
    qed
  next
    assume "process_cqe L readers ev st = Inl (Fail SubmissionQueueFull)" "rearms L ev"
      "capacity (ls_sq st) \<le> length (pending (ls_sq st))"
    then show ?thesis by (simp add: rearm_count_def)
  qed
qed

text \<open>Every way a run of the loop under the contract can end.\<close>

lemma run_loop_total:
  assumes "rounds_ok L readers rs st" "trace_wf L slab_inv st"
  shows "(\<exists>out. run_loop L readers rs st = Inr out \<and> trace_wf L slab_inv (outcome_state out) \<and>
      ((\<exists>r \<in> set rs. list_ex (is_timeout L) (rd_events r)) \<longrightarrow> (\<exists>st'. out = Returned st'))) \<or>
    (run_loop L readers rs st = Inl (Fail SubmissionQueueFull) \<and>
      capacity (ls_sq st) < length (pending (ls_sq st)) + sum_list (map (rearm_count L \<circ> rd_events) rs)) \<or>
    (\<exists>r n. r \<in> set rs \<and> rd_submit r = Inl n \<and> n \<noteq> EBUSY (lib_platform L) \<and>
      run_loop L readers rs st = Inl (Fail (IoError n)))"
  using assms
proof (induction rs arbitrary: st)
  case Nil
  then show ?case by simp
next
  case (Cons r rs)
  show ?case
  proof (cases "submit_and_wait L r st")
    case (Inl e)
    then obtain n where "rd_submit r = Inl n" "n \<noteq> EBUSY (lib_platform L)" "e = Fail (IoError n)"
      by (auto simp: submit_and_wait_def split: sum.splits if_splits)
    with Inl show ?thesis by (intro disjI2 exI [of _ r] exI [of _ n]) simp
  next
    case (Inr st1)
    note f = submit_and_wait_frame [OF Inr]
    have w: "trace_wf L slab_inv st1" using f Cons.prems(2) by simp
    have b: "batch_ok L readers (rd_events r) st1" using Cons.prems(1) Inr by simp
    from process_batch_total [OF b w] show ?thesis
    proof (elim disjE exE conjE)
      fix finished st2
      assume p: "process_batch L readers (rd_events r) st1 = Inr (finished, st2)"
        and w2: "trace_wf L slab_inv st2" and tm: "list_ex (is_timeout L) (rd_events r) \<longrightarrow> finished"
        and q: "capacity (ls_sq st2) = capacity (ls_sq st1)"
          "length (pending (ls_sq st2)) \<le> length (pending (ls_sq st1)) + rearm_count L (rd_events r)"
      show ?thesis
      proof (cases finished)
        case True
        then show ?thesis using Inr p w2 by simp
      next
        case False
        then have ok: "rounds_ok L readers rs (sync_sq L st2)" using Cons.prems(1) Inr p by simp
        have w3: "trace_wf L slab_inv (sync_sq L st2)" using w2 by simp
        have "capacity (ls_sq (sync_sq L st2)) = capacity (ls_sq st)"
          "length (pending (ls_sq (sync_sq L st2))) \<le> length (pending (ls_sq st)) + rearm_count L (rd_events r)"
          using q f by (simp_all add: sync_ok)
        then show ?thesis
          using Cons.IH [OF ok w3] False Inr p tm by simp (elim disjE; force)
      qed
    next
      assume "process_batch L readers (rd_events r) st1 = Inl (Fail SubmissionQueueFull)"
        "capacity (ls_sq st1) < length (pending (ls_sq st1)) + rearm_count L (rd_events r)"
      then show ?thesis using Inr f by simp
    qed
  qed
qed

end

section \<open>Refinement of the phases\<close>

text \<open>Reachability by steps taken at times of the set \<open>T\<close>.\<close>

definition phase_reach :: "nat set \<Rightarrow> phase \<Rightarrow> phase \<Rightarrow> bool" where
  "phase_reach T = (\<lambda>p q. \<exists>now \<in> T. phase_step now p q)\<^sup>*\<^sup>*"

lemma phase_reach_trans: "phase_reach T p q \<Longrightarrow> phase_reach T q r \<Longrightarrow> phase_reach T p r"
  by (simp add: phase_reach_def)

lemma phase_reach_refl [simp]: "phase_reach T p p"
  by (simp add: phase_reach_def)

lemma phase_reach_step: "phase_step now p q \<Longrightarrow> now \<in> T \<Longrightarrow> phase_reach T p q"
  by (auto simp: phase_reach_def)

lemma phases_move_reach:
  "phases_move L now st st' \<Longrightarrow> now \<in> T \<Longrightarrow> i < length (ls_probes st) \<Longrightarrow>
   phase_reach T (phase_of L st i) (phase_of L st' i)"
  unfolding phases_move_def by (metis phase_reach_refl phase_reach_step)

text \<open>
  The phases are ordered by what has happened to the probe; a step moves up, and what is at the top
  stays. Reachability is therefore antisymmetric: no probe goes through a phase twice.
\<close>

instantiation phase :: order
begin

fun less_eq_phase :: "phase \<Rightarrow> phase \<Rightarrow> bool" where
  "less_eq_phase Queued q = True"
| "less_eq_phase (Sent t) q = (q = Sent t \<or> (\<exists>r. q = Answered t r))"
| "less_eq_phase SendFailed q = (q = SendFailed)"
| "less_eq_phase (Answered t r) q = (q = Answered t r)"

definition less_phase :: "phase \<Rightarrow> phase \<Rightarrow> bool" where
  "less_phase p q \<longleftrightarrow> p \<le> q \<and> \<not> q \<le> p"

instance
proof
  fix p q r :: phase
  show "p < q \<longleftrightarrow> p \<le> q \<and> \<not> q \<le> p" by (rule less_phase_def)
  show "p \<le> p" by (cases p) simp_all
  show "p \<le> q \<Longrightarrow> q \<le> r \<Longrightarrow> p \<le> r" by (cases p; cases q) auto
  show "p \<le> q \<Longrightarrow> q \<le> p \<Longrightarrow> p = q" by (cases p; cases q) auto
qed

end

lemma phase_step_less: "phase_step now p q \<Longrightarrow> p < q"
  by (auto simp: less_phase_def elim!: phase_step.cases)

lemma phase_reach_le: "phase_reach T p q \<Longrightarrow> p \<le> q"
  unfolding phase_reach_def
  by (induction rule: rtranclp_induct) (auto dest!: phase_step_less intro: order_trans less_imp_le)

text \<open>From a queued send, exactly the life of a probe.\<close>

lemma phase_reach_Queued:
  assumes "phase_reach T Queued p"
  shows "p = Queued \<or> p = SendFailed \<or> (\<exists>t \<in> T. p = Sent t) \<or>
    (\<exists>t \<in> T. \<exists>now \<in> T. \<exists>r. p = Answered t r \<and> pr_rtt r = now - t)"
  using assms unfolding phase_reach_def
proof (induction rule: rtranclp_induct)
  case base
  then show ?case by simp
next
  case (step p q)
  from step.hyps(2) obtain now where "now \<in> T" "phase_step now p q" by blast
  with step.IH show ?case
    by (auto elim!: phase_step_from_Queued phase_step_from_Sent simp: phase_step_from_final)
qed

context trace_env begin

lemma process_batch_reach:
  assumes "process_batch L readers evs st = Inr (finished, st')" "trace_wf L slab_inv st"
    and "ev_now ` set evs \<subseteq> T"
  shows "trace_wf L slab_inv st' \<and>
    (\<forall>i < length (ls_probes st). phase_reach T (phase_of L st i) (phase_of L st' i))"
  using assms
proof (induction evs arbitrary: st)
  case Nil
  then show ?case by simp
next
  case (Cons ev evs)
  then obtain b st1 where s: "process_cqe L readers ev st = Inr (b, st1)"
    and c: "(if b then Inr (True, st1) else process_batch L readers evs st1) = Inr (finished, st')"
    by (auto simp: try_bind_Inr_iff)
  have T: "ev_now ev \<in> T" "ev_now ` set evs \<subseteq> T" using Cons.prems(3) by simp_all
  have m: "trace_wf L slab_inv st1" "phases_move L (ev_now ev) st st1"
    using process_cqe_moves [OF s Cons.prems(2)] by simp_all
  have n: "length (ls_probes st1) = length (ls_probes st)"
    using process_cqe_evolves [OF s] by (simp add: list_all2_lengthD)
  show ?case
  proof (cases b)
    case True
    with c m T show ?thesis by (auto intro: phases_move_reach)
  next
    case False
    with c Cons.IH [OF _ m(1) T(2)] n m(2) T(1) show ?thesis
      by (auto intro: phase_reach_trans [OF phases_move_reach])
  qed
qed

lemma run_loop_reach:
  assumes "run_loop L readers rs st = Inr out" "trace_wf L slab_inv st"
    and "\<forall>r \<in> set rs. ev_now ` set (rd_events r) \<subseteq> T"
  shows "trace_wf L slab_inv (outcome_state out) \<and>
    (\<forall>i < length (ls_probes st). phase_reach T (phase_of L st i) (phase_of L (outcome_state out) i))"
  using assms
proof (induction rs arbitrary: st)
  case Nil
  then show ?case by auto
next
  case (Cons r rs)
  then obtain st1 b st2 where s: "submit_and_wait L r st = Inr st1"
    and p: "process_batch L readers (rd_events r) st1 = Inr (b, st2)"
    and c: "(if b then Inr (Returned st2) else run_loop L readers rs (sync_sq L st2)) = Inr out"
    by (auto simp: try_bind_Inr_iff)
  have f: "trace_wf L slab_inv st1" "ls_probes st1 = ls_probes st" "phase_of L st1 = phase_of L st"
    using submit_and_wait_frame [OF s] submit_and_wait_Inr [OF s] Cons.prems(2)
    by (auto simp: phase_of_def in_flight_def fun_eq_iff)
  have m: "trace_wf L slab_inv st2"
    "\<forall>i < length (ls_probes st). phase_reach T (phase_of L st i) (phase_of L st2 i)"
    using process_batch_reach [OF p f(1), of T] f(2,3) Cons.prems(3) by auto
  have n: "length (ls_probes st2) = length (ls_probes st)"
    using process_batch_evolves [OF p] f(2) by (simp add: list_all2_lengthD)
  show ?case
  proof (cases b)
    case True
    with c m show ?thesis by auto
  next
    case False
    with c Cons.IH [of "sync_sq L st2"] m n Cons.prems(3) show ?thesis by (auto intro: phase_reach_trans)
  qed
qed

end

end
