(* ===== verification/Trace_Run.thy ===== *)
theory Trace_Run
  imports Trace_Kernel
begin

text \<open>
  \<open>run\<close> of src/src/trace.rs up to the loop: the feature check, the probes, the rings, the readers
  and the initial submissions, and their composition with the loop. The system's answers that are
  not socket calls are a \<open>ring_env\<close>.
\<close>

section \<open>Setup\<close>

record 'q ring_env =
  re_probe_ring :: "i32 + unit"          \<comment> \<open>building the disabled ring of the feature check\<close>
  re_register_probe :: "i32 + unit"
  re_recvmsg_multi :: bool               \<comment> \<open>\<open>probe.is_supported(RecvMsgMulti)\<close>\<close>
  re_ring :: "u32 \<Rightarrow> i32 + 'q"            \<comment> \<open>\<open>IoUring::new\<close>, by its submission queue\<close>
  re_buf_ring :: "u16 \<Rightarrow> nat \<Rightarrow> i32 + unit"
  re_clock :: "nat \<Rightarrow> int"               \<comment> \<open>the wall clock when the \<open>n\<close>-th probe is built\<close>

fun io_result :: "i32 + 'a \<Rightarrow> 'a rust" where
  "io_result (Inl e) = Inl (Fail (IoError e))"
| "io_result (Inr x) = Inr x"

definition check_features_supported :: "'q ring_env \<Rightarrow> unit rust" where
  "check_features_supported E =
     try_bind (io_result (re_probe_ring E)) (\<lambda>_.
     try_bind (case re_register_probe E of Inl e \<Rightarrow> Inl (Fail (FeatureProbeFailed e)) | Inr _ \<Rightarrow> Inr ()) (\<lambda>_.
     if \<not> re_recvmsg_multi E then Inl (Fail RecvMsgMultiUnsupported) else Inr ()))"

text \<open>The inclusive range of hops.\<close>

definition hop_range :: "u8 \<Rightarrow> u8 \<Rightarrow> u8 list" where
  "hop_range lo hi = map of_nat [unat lo ..< Suc (unat hi)]"

definition init_probes :: "u8 list \<Rightarrow> u16 \<Rightarrow> probe list" where
  "init_probes hops count =
     map (\<lambda>ttl. \<lparr>p_ttl = ttl, p_sent_at = None, p_result = None\<rparr>)
       (concat (map (\<lambda>ttl. replicate (unat count) ttl) hops))"

definition u32_try_from_usize :: "nat \<Rightarrow> u32 rust" where
  "u32_try_from_usize n = (if n < 2 ^ 32 then Inr (of_nat n) else Inl (Fail IntConversion))"

definition u16_try_from_usize :: "nat \<Rightarrow> u16 rust" where
  "u16_try_from_usize n = (if n < 2 ^ 16 then Inr (of_nat n) else Inl (Fail IntConversion))"

text \<open>\<open>2 * u16::try_from(len)?\<close>, whose product overflows from 32768 on.\<close>

definition buffer_count :: "nat \<Rightarrow> u16 rust" where
  "buffer_count n =
     try_bind (u16_try_from_usize n) (\<lambda>k.
     if 2 * unat k < 2 ^ 16 then Inr (2 * k) else Inl (Panic ArithmeticOverflow))"

fun readers_try_new :: "platform \<Rightarrow> os \<Rightarrow> nat \<Rightarrow> reply_queue list \<Rightarrow> multishot list io" where
  "readers_try_new P sys index [] = io_return []"
| "readers_try_new P sys index (queue # queues) =
     io_bind (multishot_try_new P sys queue (of_nat index)) (\<lambda>reader.
     io_bind (readers_try_new P sys (Suc index) queues) (\<lambda>readers.
     io_return (reader # readers)))"

fun schedule_readers :: "('s, 'q) libs \<Rightarrow> multishot list \<Rightarrow> 'q \<Rightarrow> 'q rust" where
  "schedule_readers L [] sq = Inr sq"
| "schedule_readers L (reader # readers) sq =
     try_bind (multishot_schedule L reader sq) (\<lambda>sq. schedule_readers L readers sq)"

fun schedule_probes ::
    "('s, 'q) libs \<Rightarrow> fd \<Rightarrow> method_ops \<Rightarrow> (nat \<Rightarrow> int) \<Rightarrow> nat \<Rightarrow> probe list \<Rightarrow> 's \<Rightarrow> 'q \<Rightarrow> ('s \<times> 'q) rust" where
  "schedule_probes L fd method clock index [] sending sq = Inr (sending, sq)"
| "schedule_probes L fd method clock index (probe # probes) sending sq =
     (let (result, sending, sq) =
            schedule_write L fd sending method (clock index) (of_nat index) (p_ttl probe) sq
      in try_bind result (\<lambda>_. schedule_probes L fd method clock (Suc index) probes sending sq))"

definition push_timeout :: "('s, 'q) libs \<Rightarrow> nat \<Rightarrow> 'q \<Rightarrow> 'q rust" where
  "push_timeout L timeout sq =
     ok_or (Fail SubmissionQueueFull)
       (sq_push (lib_sq L) (SqTimeout timeout (user_data_timeout (lib_bits L))) sq)"

text \<open>The entries of the first submission.\<close>

definition submit_all ::
    "('s, 'q) libs \<Rightarrow> 'q ring_env \<Rightarrow> fd \<Rightarrow> method_ops \<Rightarrow> multishot list \<Rightarrow> probe list \<Rightarrow> nat \<Rightarrow> 'q
     \<Rightarrow> ('s, 'q) loop_state rust" where
  "submit_all L E fd method readers probes timeout sq =
     try_bind (schedule_readers L readers sq) (\<lambda>sq.
     try_bind (schedule_probes L fd method (re_clock E) 0 probes (slab_new (lib_slab L)) sq) (\<lambda>(sending, sq).
     try_bind (push_timeout L timeout sq) (\<lambda>sq.
     Inr \<lparr>ls_sending = sending, ls_probes = probes, ls_sq = sq_sync (lib_sq L) sq, ls_log = []\<rparr>)))"

definition create_rings ::
    "('s, 'q) libs \<Rightarrow> 'q ring_env \<Rightarrow> method_ops \<Rightarrow> nat \<Rightarrow> nat \<Rightarrow> 'q rust" where
  "create_rings L E method queue_count probe_count =
     try_bind (usize_add queue_count probe_count) (\<lambda>n.
     try_bind (usize_add n 1) (\<lambda>ring_size.
     try_bind (u32_try_from_usize ring_size) (\<lambda>entries.
     try_bind (io_result (re_ring E entries)) (\<lambda>sq.
     try_bind (buffer_count probe_count) (\<lambda>buffers.
     try_bind (usize_add (RECVMSG_OVERHEAD (lib_platform L)) (m_max_reply_len method)) (\<lambda>size.
     try_bind (io_result (re_buf_ring E buffers size)) (\<lambda>_. Inr sq)))))))"

definition trace_setup ::
    "('s, 'q) libs \<Rightarrow> os \<Rightarrow> 'q ring_env \<Rightarrow> method_ops \<Rightarrow> u8 list \<Rightarrow> nat \<Rightarrow> u16
     \<Rightarrow> (multishot list \<times> ('s, 'q) loop_state) io" where
  "trace_setup L sys E method hops timeout count =
     io_bind (io_lift (check_features_supported E)) (\<lambda>_.
     io_bind (m_open method) (\<lambda>(socket, queues).
     let probes = init_probes hops count in
     io_bind (io_lift (create_rings L E method (length queues) (length probes))) (\<lambda>sq.
     io_bind (readers_try_new (lib_platform L) sys 0 queues) (\<lambda>readers.
     io_bind (io_lift (submit_all L E socket method readers probes timeout sq)) (\<lambda>st.
     io_return (readers, st))))))"

section \<open>The whole trace\<close>

text \<open>\<open>None\<close>: the trace is still waiting after the given rounds.\<close>

definition loop_result :: "('s, 'q) outcome rust \<Rightarrow> probe list option rust" where
  "loop_result r = try_bind r (\<lambda>out.
     case out of Returned st \<Rightarrow> Inr (Some (ls_probes st)) | Waiting _ \<Rightarrow> Inr None)"

lemma loop_result_Some:
  "loop_result r = Inr (Some ps) \<longleftrightarrow> (\<exists>st. r = Inr (Returned st) \<and> ps = ls_probes st)"
  by (cases r) (auto simp: loop_result_def split: outcome.split)

definition run ::
    "('s, 'q) libs \<Rightarrow> os \<Rightarrow> 'q ring_env \<Rightarrow> ring_round list \<Rightarrow> method_ops \<Rightarrow> u8 list \<Rightarrow> nat \<Rightarrow> u16
     \<Rightarrow> probe list option io" where
  "run L sys E rounds method hops timeout count =
     io_bind (trace_setup L sys E method hops timeout count) (\<lambda>(readers, st).
     io_lift (loop_result (run_loop L readers rounds st)))"

section \<open>The probes\<close>

lemma init_probes_ttls: "map p_ttl (init_probes hops count) = concat (map (replicate (unat count)) hops)"
  by (simp add: init_probes_def comp_def)

lemma init_probes_fresh: "p \<in> set (init_probes hops count) \<Longrightarrow> p_sent_at p = None \<and> p_result p = None"
  by (auto simp: init_probes_def)

lemma length_init_probes: "length (init_probes hops count) = length hops * unat count"
  by (simp add: init_probes_def length_concat comp_def sum_list_replicate map_replicate_const)

lemma hop_range_props:
  "distinct (hop_range lo hi)" "sorted (hop_range lo hi)"
  "length (hop_range lo hi) = Suc (unat hi) - unat lo"
  "set (hop_range lo hi) = {lo..hi}"
proof -
  have b: "i \<le> unat hi \<Longrightarrow> unat (of_nat i :: u8) = i" for i
    using unat_bound [of hi] by (simp add: unat_of_nat)
  have m: "map unat (hop_range lo hi) = [unat lo ..< Suc (unat hi)]"
    unfolding hop_range_def map_map by (rule map_idI) (auto simp: b)
  show "distinct (hop_range lo hi)"
    using m by (metis distinct_map distinct_upt)
  have "sorted (map unat (hop_range lo hi))" unfolding m by (rule sorted_upt)
  then show "sorted (hop_range lo hi)"
    by (simp add: sorted_map word_le_nat_alt [abs_def])
  show "length (hop_range lo hi) = Suc (unat hi) - unat lo"
    by (auto simp: hop_range_def)
  have "unat ` set (hop_range lo hi) = {unat lo .. unat hi}"
    using m by (metis atLeastLessThanSuc_atLeastAtMost list.set_map set_upt)
  moreover have "unat ` {lo..hi} = {unat lo .. unat hi}"
  proof (rule set_eqI, rule iffI)
    fix i assume i: "i \<in> {unat lo .. unat hi}"
    then have "of_nat i \<in> {lo..hi}" using b by (simp add: word_le_nat_alt)
    with i show "i \<in> unat ` {lo..hi}" using b by (metis atLeastAtMost_iff image_eqI)
  qed (auto simp: word_le_nat_alt)
  ultimately have "unat ` set (hop_range lo hi) = unat ` {lo..hi}" by simp
  then show "set (hop_range lo hi) = {lo..hi}"
    by (metis inj_image_eq_iff inj_unsigned)
qed

section \<open>The first submission\<close>

definition read_entry :: "('s, 'q) libs \<Rightarrow> multishot \<Rightarrow> sqe" where
  "read_entry L reader =
     SqRecvMsgMulti (q_socket (ms_queue reader)) (ms_msghdr reader)
       (if q_err_queue (ms_queue reader) then MSG_ERRQUEUE (lib_platform L) else 0)
       (user_data (lib_bits L) (unat (ms_slot reader)) Read)"

definition send_entry :: "('s, 'q) libs \<Rightarrow> fd \<Rightarrow> nat \<Rightarrow> sqe" where
  "send_entry L fd k = SqSendMsg fd k (user_data (lib_bits L) k Write)"

lemma multishot_schedule_eq:
  "multishot_schedule L reader sq = ok_or (Fail SubmissionQueueFull) (sq_push (lib_sq L) (read_entry L reader) sq)"
  by (simp add: multishot_schedule_def read_entry_def Let_def)

context trace_env begin

text \<open>\<open>schedule_write\<close> does all of its work or none of it.\<close>

lemma schedule_write_cases:
  assumes "slab_inv s" "schedule_write L fd s method now i ttl sq = (r, s', sq')"
  shows "(\<exists>e. m_probe method now i = Inl e \<and> r = Inl e \<and> s' = s \<and> sq' = sq) \<or>
    (\<exists>p d k. m_probe method now i = Inr (p, d) \<and> slab_inv s' \<and> slab_get (lib_slab L) s k = None \<and> k \<le> slots s \<and>
       (r = Inl (Fail SubmissionQueueFull) \<and> sq_push (lib_sq L) (send_entry L fd k) sq = None \<and>
          slab_get (lib_slab L) s' = slab_get (lib_slab L) s \<and> sq' = sq \<or>
        r = Inr () \<and> sq_push (lib_sq L) (send_entry L fd k) sq = Some sq' \<and>
          slab_get (lib_slab L) s' = (slab_get (lib_slab L) s)(k \<mapsto> outgoing_new (lib_platform L) p d ttl i) \<and>
          slots s' = (if k = slots s then Suc (slots s) else slots s)))"
proof (cases "m_probe method now i")
  case (Inl e)
  then show ?thesis using assms(2) by (simp add: schedule_write_def)
next
  case (Inr pd)
  obtain p d where pd: "pd = (p, d)" by (cases pd)
  let ?og = "outgoing_new (lib_platform L) p d ttl i"
  obtain k s1 where ins: "slab_insert (lib_slab L) ?og s = (k, s1)" by (metis surj_pair)
  note insd = insert_ok [OF assms(1) ins]
  have g: "slab_get (lib_slab L) s1 k = Some ?og" using insd by simp
  from remove_present [OF _ g] insd obtain s2
    where rm: "slab_remove (lib_slab L) k s1 = Some (?og, s2)" by blast
  have restored: "slab_get (lib_slab L) s2 = slab_get (lib_slab L) s" "slab_inv s2"
    using remove_ok [OF _ rm] insd by (auto simp: fun_eq_iff)
  have e: "schedule_write L fd s method now i ttl sq =
    (case sq_push (lib_sq L) (send_entry L fd k) sq of
       Some sq \<Rightarrow> (Inr (), s1, sq) | None \<Rightarrow> (Inl (Fail SubmissionQueueFull), s2, sq))"
    by (simp add: schedule_write_def Inr pd ins g rm Let_def send_entry_def split: option.split)
  show ?thesis
    using assms(2) insd restored unfolding e Inr pd
    by (intro disjI2 exI [of _ p] exI [of _ d] exI [of _ k]) (auto split: option.splits)
qed

lemma schedule_readers_Inr:
  "schedule_readers L readers sq = Inr sq' \<Longrightarrow>
   pending sq' = pending sq @ map (read_entry L) readers \<and> consumed sq' = consumed sq \<and> capacity sq' = capacity sq"
  by (induction readers arbitrary: sq)
    (auto simp: multishot_schedule_eq try_bind_Inr_iff ok_or_Inr_iff dest: push_ok)

lemma schedule_readers_room:
  "length (pending sq) + length readers \<le> capacity sq \<Longrightarrow> \<exists>sq'. schedule_readers L readers sq = Inr sq'"
proof (induction readers arbitrary: sq)
  case (Cons reader readers)
  then obtain q where "sq_push (lib_sq L) (read_entry L reader) sq = Some q"
    "length (pending q) + length readers \<le> capacity q"
    using push_room [of sq "read_entry L reader"] by auto
  with Cons.IH [of q] show ?case by (simp add: multishot_schedule_eq)
qed simp

text \<open>A slab that holds exactly the sends of the first \<open>n\<close> probes, each under its own index.\<close>

definition holds_sends :: "method_ops \<Rightarrow> (nat \<Rightarrow> int) \<Rightarrow> probe list \<Rightarrow> nat \<Rightarrow> 's \<Rightarrow> bool" where
  "holds_sends method clock ps n s \<longleftrightarrow> slab_inv s \<and> slots s = n \<and> dom (slab_get (lib_slab L) s) = {..<n} \<and>
     (\<forall>k < n. \<exists>p d. m_probe method (clock k) (of_nat k) = Inr (p, d) \<and>
        slab_get (lib_slab L) s k = Some (outgoing_new (lib_platform L) p d (p_ttl (ps ! k)) (of_nat k)))"

lemma schedule_write_next:
  assumes "holds_sends method clock ps n s"
    and "schedule_write L fd s method (clock n) (of_nat n) (p_ttl (ps ! n)) sq = (Inr (), s', sq')"
  shows "holds_sends method clock ps (Suc n) s'" "sq_push (lib_sq L) (send_entry L fd n) sq = Some sq'"
proof -
  have h: "slab_inv s" "slots s = n" "dom (slab_get (lib_slab L) s) = {..<n}"
    using assms(1) by (simp_all add: holds_sends_def)
  obtain p d k where w: "m_probe method (clock n) (of_nat n) = Inr (p, d)" "slab_inv s'"
      "slab_get (lib_slab L) s k = None" "k \<le> slots s" "sq_push (lib_sq L) (send_entry L fd k) sq = Some sq'"
      "slab_get (lib_slab L) s' = (slab_get (lib_slab L) s)(k \<mapsto> outgoing_new (lib_platform L) p d (p_ttl (ps ! n)) (of_nat n))"
      "slots s' = (if k = slots s then Suc (slots s) else slots s)"
    using schedule_write_cases [OF h(1) assms(2)] by auto
  have "k \<notin> {..<n}" using w(3) h(3) by (metis domIff)
  then have k: "k = n" using w(4) h(2) by simp
  then show "sq_push (lib_sq L) (send_entry L fd n) sq = Some sq'" using w(5) by simp
  have "\<exists>p d. m_probe method (clock j) (of_nat j) = Inr (p, d) \<and>
      slab_get (lib_slab L) s' j = Some (outgoing_new (lib_platform L) p d (p_ttl (ps ! j)) (of_nat j))"
    if "j < Suc n" for j
    using that assms(1) w(1,6) k by (cases "j = n") (auto simp: holds_sends_def)
  moreover have "dom (slab_get (lib_slab L) s') = {..<Suc n}" using w(6) h(3) k by auto
  ultimately show "holds_sends method clock ps (Suc n) s'"
    using w(2,7) h(2) k by (simp add: holds_sends_def)
qed

lemma schedule_probes_Inr:
  assumes "schedule_probes L fd method clock n (drop n ps) s sq = Inr (s', sq')"
    and "holds_sends method clock ps n s" "n \<le> length ps"
  shows "holds_sends method clock ps (length ps) s' \<and>
    pending sq' = pending sq @ map (send_entry L fd) [n..<length ps] \<and>
    consumed sq' = consumed sq \<and> capacity sq' = capacity sq"
  using assms
proof (induction "length ps - n" arbitrary: n s sq)
  case 0
  then show ?case by simp
next
  case (Suc m)
  then have n: "n < length ps" by simp
  then have d: "drop n ps = ps ! n # drop (Suc n) ps" by (simp add: Cons_nth_drop_Suc)
  obtain s1 sq1 where w: "schedule_write L fd s method (clock n) (of_nat n) (p_ttl (ps ! n)) sq = (Inr (), s1, sq1)"
    and rest: "schedule_probes L fd method clock (Suc n) (drop (Suc n) ps) s1 sq1 = Inr (s', sq')"
    using Suc.prems(1) d by (auto simp: try_bind_Inr_iff split: prod.splits)
  note nx = schedule_write_next [OF Suc.prems(2) w]
  have m: "m = length ps - Suc n" using Suc.hyps(2) by simp
  from Suc.hyps(1) [OF m rest nx(1)] n push_ok [OF nx(2)] show ?case
    by (simp add: upt_conv_Cons)
qed

lemma schedule_probes_room:
  assumes "length (pending sq) + (length ps - n) \<le> capacity sq" "n \<le> length ps"
    and "holds_sends method clock ps n s" "\<And>k. k < length ps \<Longrightarrow> \<exists>x. m_probe method (clock k) (of_nat k) = Inr x"
  shows "\<exists>r. schedule_probes L fd method clock n (drop n ps) s sq = Inr r"
  using assms(1-3)
proof (induction "length ps - n" arbitrary: n s sq)
  case 0
  then show ?case by simp
next
  case (Suc m)
  then have n: "n < length ps" by simp
  then have d: "drop n ps = ps ! n # drop (Suc n) ps" by (simp add: Cons_nth_drop_Suc)
  obtain r s1 sq1 where w: "schedule_write L fd s method (clock n) (of_nat n) (p_ttl (ps ! n)) sq = (r, s1, sq1)"
    by (metis surj_pair)
  have inv: "slab_inv s" using Suc.prems(3) by (simp add: holds_sends_def)
  have room: "length (pending sq) < capacity sq" using Suc.prems(1) n by simp
  have push: "sq_push (lib_sq L) e sq \<noteq> None" for e using push_full [of e sq] room by simp
  have "r = Inr ()" using schedule_write_cases [OF inv w] assms(4) [OF n] by (auto simp: push)
  with w have w: "schedule_write L fd s method (clock n) (of_nat n) (p_ttl (ps ! n)) sq = (Inr (), s1, sq1)"
    by simp
  note nx = schedule_write_next [OF Suc.prems(3) w]
  have m: "m = length ps - Suc n" using Suc.hyps(2) by simp
  have "length (pending sq1) + (length ps - Suc n) \<le> capacity sq1"
    using Suc.prems(1) n push_ok [OF nx(2)] by simp
  from Suc.hyps(1) [OF m this _ nx(1)] n w d show ?case by simp
qed

lemma holds_sends_0: "holds_sends method clock ps 0 (slab_new (lib_slab L))"
  using new_ok by (simp add: holds_sends_def)

text \<open>What the first submission leaves behind.\<close>

definition initial_entries :: "fd \<Rightarrow> multishot list \<Rightarrow> nat \<Rightarrow> nat \<Rightarrow> sqe list" where
  "initial_entries fd readers n timeout =
     map (read_entry L) readers @ map (send_entry L fd) [0..<n] @
     [SqTimeout timeout (user_data_timeout (lib_bits L))]"

lemma submit_all_Inr:
  assumes "submit_all L E fd method readers ps timeout sq = Inr st" "pending sq = []" "consumed sq = 0"
  shows "ls_probes st = ps \<and> holds_sends method (re_clock E) ps (length ps) (ls_sending st) \<and>
    pending (ls_sq st) = initial_entries fd readers (length ps) timeout \<and>
    capacity (ls_sq st) = capacity sq \<and> ls_log st = []"
proof -
  obtain q1 s q2 q3 where r: "schedule_readers L readers sq = Inr q1"
    and p: "schedule_probes L fd method (re_clock E) 0 (drop 0 ps) (slab_new (lib_slab L)) q1 = Inr (s, q2)"
    and t: "sq_push (lib_sq L) (SqTimeout timeout (user_data_timeout (lib_bits L))) q2 = Some q3"
    and st: "st = \<lparr>ls_sending = s, ls_probes = ps, ls_sq = sq_sync (lib_sq L) q3, ls_log = []\<rparr>"
    using assms(1) by (auto simp: submit_all_def push_timeout_def try_bind_Inr_iff ok_or_Inr_iff)
  show ?thesis
    using schedule_readers_Inr [OF r] schedule_probes_Inr [OF p holds_sends_0] push_ok [OF t] assms(2,3)
    by (simp add: st sync_ok initial_entries_def)
qed

lemma submit_all_room:
  assumes "length (pending sq) + length readers + length ps + 1 \<le> capacity sq"
    and "\<And>k. k < length ps \<Longrightarrow> \<exists>x. m_probe method (re_clock E k) (of_nat k) = Inr x"
  shows "\<exists>st. submit_all L E fd method readers ps timeout sq = Inr st"
proof -
  obtain q1 where r: "schedule_readers L readers sq = Inr q1"
    using schedule_readers_room [of sq readers] assms(1) by auto
  note q1 = schedule_readers_Inr [OF r]
  obtain s q2 where p: "schedule_probes L fd method (re_clock E) 0 (drop 0 ps) (slab_new (lib_slab L)) q1 = Inr (s, q2)"
    using schedule_probes_room [OF _ _ holds_sends_0 assms(2), where fd = fd and sq = q1] q1 assms(1) by fastforce
  have "length (pending q2) < capacity q2"
    using schedule_probes_Inr [OF p holds_sends_0] q1 assms(1) by simp
  from push_room [OF this, of "SqTimeout timeout (user_data_timeout (lib_bits L))"] r p show ?thesis
    by (auto simp: submit_all_def push_timeout_def)
qed

lemma holds_sends_wf:
  assumes "holds_sends M clock ps (length ps) (ls_sending st)" "ls_probes st = ps" "length ps \<le> 2 ^ 16"
    and "\<forall>p \<in> set ps. p_sent_at p = None \<and> p_result p = None"
  shows "trace_wf L slab_inv st \<and> (\<forall>i < length ps. phase_of L st i = Queued)"
proof -
  note h = assms(1) [unfolded holds_sends_def]
  have keys: "dom (slab_get (lib_slab L) (ls_sending st)) = {..<length ps}" using h by simp
  have sends: "\<exists>p d. slab_get (lib_slab L) (ls_sending st) k =
      Some (outgoing_new (lib_platform L) p d (p_ttl (ps ! k)) (of_nat k))" if "k < length ps" for k
    using h that by blast
  have ix: "probe_index (og_probe og) = k \<and> k < length ps"
    if og: "slab_get (lib_slab L) (ls_sending st) k = Some og" for k og
  proof -
    have "k \<in> dom (slab_get (lib_slab L) (ls_sending st))" using og by blast
    then have k: "k < length ps" unfolding keys by simp
    from sends [OF k] og have "og_probe og = of_nat k" by auto
    then show ?thesis using k assms(3) by (simp add: probe_index_def unat_of_nat)
  qed
  have "trace_wf L slab_inv st"
    unfolding trace_wf_def
  proof (intro conjI allI impI ballI)
    show "slab_inv (ls_sending st)" using h by simp
    fix k og assume og: "slab_get (lib_slab L) (ls_sending st) k = Some og"
    show "probe_index (og_probe og) < length (ls_probes st)" using ix [OF og] assms(2) by simp
    then show "p_sent_at (ls_probes st ! probe_index (og_probe og)) = None" using assms(2,4) by simp
    show "k' = k" if "slab_get (lib_slab L) (ls_sending st) k' = Some og'"
      "probe_index (og_probe og') = probe_index (og_probe og)" for k' og'
      using ix [OF og] ix [OF that(1)] that(2) by simp
  next
    fix p assume "p \<in> set (ls_probes st)" "p_result p \<noteq> None"
    then show "p_sent_at p \<noteq> None" using assms(2,4) by simp
  qed
  moreover have "phase_of L st i = Queued" if i: "i < length ps" for i
  proof -
    obtain og where "slab_get (lib_slab L) (ls_sending st) i = Some og" using sends [OF i] by blast
    then have "in_flight L st i" using ix by (auto simp: in_flight_def)
    moreover have "p_sent_at (ps ! i) = None" using assms(4) i by (simp add: all_set_conv_all_nth)
    ultimately show ?thesis using assms(2) by (simp add: phase_of_def)
  qed
  ultimately show ?thesis by simp
qed

end

lemma u16_of_nat_small: "n < 65536 \<Longrightarrow> unat (of_nat n :: u16) = n"
  by (simp add: unat_of_nat)

lemma u32_of_nat_small: "n < 4294967296 \<Longrightarrow> unat (of_nat n :: u32) = n"
  by (simp add: unat_of_nat)

lemma buffer_count_Inr: "buffer_count n = Inr b \<Longrightarrow> n < 32768 \<and> unat b = 2 * n"
  by (auto simp: buffer_count_def u16_try_from_usize_def try_bind_Inr_iff u16_of_nat_small
      unat_word_ariths split: if_splits)

lemma create_rings_Inr:
  "create_rings L E method qn pn = Inr sq \<Longrightarrow>
   \<exists>entries. re_ring E entries = Inr sq \<and> unat entries = qn + pn + 1 \<and> pn < 32768"
proof -
  assume "create_rings L E method qn pn = Inr sq"
  then obtain entries b where e: "u32_try_from_usize (qn + pn + 1) = Inr entries"
    and r: "io_result (re_ring E entries) = Inr sq" and b: "buffer_count pn = Inr b"
    by (auto simp: create_rings_def try_bind_Inr_iff usize_add_Inr_iff)
  have "unat entries = qn + pn + 1"
    using e u32_of_nat_small [of "qn + pn + 1"] by (auto simp: u32_try_from_usize_def split: if_splits)
  moreover have "re_ring E entries = Inr sq" using r by (cases "re_ring E entries") simp_all
  ultimately show ?thesis using buffer_count_Inr [OF b] by blast
qed

lemma io_lift_Inr: "io_lift m h = (Inr x, h') \<longleftrightarrow> m = Inr x \<and> h' = h"
  by (auto simp: io_lift_def)

text \<open>What every step of a successful setup returned.\<close>

lemma trace_setup_Inr:
  assumes "trace_setup L sys E method hops timeout count h = (Inr (readers, st), h')"
  obtains socket queues sq h1 h2 where "m_open method h = (Inr (socket, queues), h1)"
    "create_rings L E method (length queues) (length (init_probes hops count)) = Inr sq"
    "readers_try_new (lib_platform L) sys 0 queues h1 = (Inr readers, h2)"
    "submit_all L E socket method readers (init_probes hops count) timeout sq = Inr st"
  using assms
  by (auto simp: trace_setup_def io_bind_Inr io_lift_Inr Let_def io_return_def)

lemma multishot_try_new_Inr:
  "multishot_try_new P sys queue slot h = (Inr reader, h') \<Longrightarrow>
   ms_queue reader = queue \<and> ms_slot reader = slot \<and> msg_namelen (ms_msghdr reader) = NAME_LEN P \<and>
   msg_controllen (ms_msghdr reader) = (if q_err_queue queue then RECVERR_CONTROL_LEN P else 0)"
  by (auto simp: multishot_try_new_def io_bind_Inr io_return_def Let_def zeroed_msghdr_def)

lemma readers_try_new_Inr:
  assumes "readers_try_new P sys n queues h = (Inr readers, h')"
  shows "map ms_queue readers = queues \<and> map ms_slot readers = map of_nat [n ..< n + length queues] \<and>
    (\<forall>r \<in> set readers. msg_namelen (ms_msghdr r) = NAME_LEN P \<and>
       msg_controllen (ms_msghdr r) = (if q_err_queue (ms_queue r) then RECVERR_CONTROL_LEN P else 0))"
  using assms
proof (induction queues arbitrary: n h readers)
  case Nil
  then show ?case by (simp add: io_return_def)
next
  case (Cons queue queues)
  then obtain reader rest h1 where r: "multishot_try_new P sys queue (of_nat n) h = (Inr reader, h1)"
    and rs: "readers_try_new P sys (Suc n) queues h1 = (Inr rest, h')" and e: "readers = reader # rest"
    by (auto simp: io_bind_Inr io_return_def)
  have u: "[n ..< n + length (queue # queues)] = n # [Suc n ..< Suc n + length queues]"
    by (simp add: upt_conv_Cons del: upt_Suc)
  show ?case unfolding u
    using multishot_try_new_Inr [OF r] Cons.IH [OF rs] e by auto
qed

end
