(* ===== verification/Trace_Props.thy ===== *)
theory Trace_Props
  imports Trace_Run
begin

text \<open>
  The properties of a trace: when it is done, what its loop keeps, what happens to every probe, how
  it can end and what the setup leaves to it. The witnesses run the model on the documented
  libraries with a trace of one probe.
\<close>

section \<open>A one-probe trace\<close>

text \<open>One probe with TTL 1, its send under key 0, and one reader that takes every reply for it.\<close>

definition one_reader :: multishot where
  "one_reader = \<lparr>ms_queue = \<lparr>q_socket = 3, q_err_queue = False,
     q_replies = \<lparr>identify = (\<lambda>_. Some 0), classify = (\<lambda>_. Destination),
       ignores_read_error = default_ignores_read_error\<rparr>\<rparr>,
     ms_slot = 0, ms_msghdr = zeroed_msghdr\<lparr>msg_namelen := 28\<rparr>\<rparr>"

definition one_probe :: probe where
  "one_probe = \<lparr>p_ttl = 1, p_sent_at = None, p_result = None\<rparr>"

definition one_method :: method_ops where
  "one_method = \<lparr>m_open = io_return (5, [ms_queue one_reader]),
     m_probe = (\<lambda>_ _. Inr ([9], SockV4 1 0)), m_max_reply_len = 1\<rparr>"

text \<open>Its state after the setup: the entries of the first submission fill the queue.\<close>

definition one_sq :: "sqe list_sq" where
  "one_sq = \<lparr>lq_entries = [SqRecvMsgMulti 3 (ms_msghdr one_reader) 0 0x10000, SqSendMsg 5 0 0,
     SqTimeout 8000 0x20000], lq_consumed = 0, lq_capacity = 3\<rparr>"

definition one_state :: "(outgoing vec_slab, sqe list_sq) loop_state" where
  "one_state = \<lparr>
     ls_sending = \<lparr>vs_entries = [Some (outgoing_new (linux64 True) [9] (SockV4 1 0) 1 0)], vs_vacant = []\<rparr>,
     ls_probes = [one_probe], ls_sq = one_sq, ls_log = []\<rparr>"

abbreviation one_libs :: "(outgoing vec_slab, sqe list_sq) libs" where
  "one_libs \<equiv> documented_libs True"

definition write_event :: event where
  "write_event = \<lparr>ev_cqe = \<lparr>cqe_result = 1, cqe_user_data = 0, cqe_flags = 0\<rparr>,
     ev_buffers = (\<lambda>_ _. None), ev_now = 1000\<rparr>"

definition timeout_event :: event where
  "timeout_event = \<lparr>ev_cqe = \<lparr>cqe_result = -62, cqe_user_data = 0x20000, cqe_flags = 0\<rparr>,
     ev_buffers = (\<lambda>_ _. None), ev_now = 9000\<rparr>"

definition one_buffer :: bytes where
  "one_buffer = linux_recv_buffer True (ms_msghdr one_reader) (linux_sockaddr_in True 1 0) [] [7]"

definition read_event :: event where
  "read_event = \<lparr>ev_cqe = \<lparr>cqe_result = 45, cqe_user_data = 0x10000, cqe_flags = 3\<rparr>,
     ev_buffers = (\<lambda>_ _. Some one_buffer), ev_now = 4000\<rparr>"

definition one_result :: probe_result where
  "one_result = \<lparr>pr_source = Some (V4 1), pr_rtt = 3000, pr_kind = Destination\<rparr>"

lemma event_user_data:
  "user_data_state lsb_bitfield 0 = Inr Write" "user_data_slot lsb_bitfield 0 = 0"
  "user_data_state lsb_bitfield 0x10000 = Inr Read" "user_data_slot lsb_bitfield 0x10000 = 0"
  "user_data_state lsb_bitfield 0x20000 = Inr Timeout" "user_data_slot lsb_bitfield 0x20000 = 0"
  by (simp_all add: user_data_state_def user_data_slot_def lsb_bitfield_def from_bits_def)

lemma read_event_delivers:
  "delivers True one_reader (linux_sockaddr_in True 1 0) [] [7] read_event"
  by (simp add: delivers_def read_event_def one_buffer_def length_linux_recv_buffer one_reader_def
      zeroed_msghdr_def)

lemma read_event_ok: "read_ok one_libs one_reader read_event"
  by (rule delivers_read_ok [OF read_event_delivers])

lemma read_event_reply:
  "reply_of one_libs one_reader read_event =
     Some \<lparr>r_source = Some (SockV4 1 0), r_destination = None, r_quoted = [7], r_error = None\<rparr>"
  using reply_of_answer [OF read_event_delivers] parse_sockaddr_linux(1) [of True 1 0 "[]"]
  by (simp add: one_reader_def)

lemma read_event_log: "read_log one_libs one_reader read_event = []"
  by (simp add: read_log_def one_reader_def)

lemma one_state_wf: "trace_wf one_libs vec_inv one_state"
  by (auto simp: trace_wf_def one_state_def vec_inv_def vec_slab_ops_def vec_get_def one_probe_def
      probe_index_def split: if_splits)

text \<open>What the two completions do to it.\<close>

definition sent_state :: "(outgoing vec_slab, sqe list_sq) loop_state" where
  "sent_state = one_state\<lparr>ls_sending := \<lparr>vs_entries = [None], vs_vacant = [0]\<rparr>,
     ls_probes := [one_probe\<lparr>p_sent_at := Some 1000\<rparr>]\<rparr>"

lemma write_event_step:
  "process_cqe one_libs readers write_event one_state = Inr (False, sent_state)"
  by (simp add: process_cqe_def write_event_def event_user_data complete_def complete_write_def
      one_state_def sent_state_def vec_slab_ops_def vec_remove_def vec_get_def probe_index_def
      one_probe_def trace_done_def answered_def List.map_filter_def)

definition answered_state :: "(outgoing vec_slab, sqe list_sq) loop_state" where
  "answered_state = sent_state\<lparr>ls_probes :=
     [one_probe\<lparr>p_sent_at := Some 1000, p_result := Some one_result\<rparr>]\<rparr>"

lemma read_event_credit:
  "credit_all one_reader 4000 (reply_of one_libs one_reader read_event) [one_probe\<lparr>p_sent_at := Some 1000\<rparr>] =
     [one_probe\<lparr>p_sent_at := Some 1000, p_result := Some one_result\<rparr>]"
  unfolding read_event_reply
  by (simp add: credit_all_def credited_def one_probe_def one_reader_def
      probe_index_def result_for_def one_result_def)

lemma read_event_step:
  "process_cqe one_libs [one_reader] read_event sent_state = Inr (True, answered_state)"
proof -
  have "handle_read one_libs read_event one_reader [one_probe\<lparr>p_sent_at := Some 1000\<rparr>] =
      Inr ([one_probe\<lparr>p_sent_at := Some 1000, p_result := Some one_result\<rparr>], [])"
    using handle_read_eq [OF _ read_event_ok] read_event_credit read_event_log
    by (simp add: platform_ok_linux64) (simp add: read_event_def)
  then have "complete one_libs [one_reader] Read read_event sent_state = Inr (False, answered_state)"
    by (simp add: complete_def complete_read_def receive_def rearm_def read_event_def event_user_data
        sent_state_def answered_state_def one_state_def)
  then show ?thesis
    by (simp add: process_cqe_def read_event_def event_user_data)
      (simp add: trace_done_def answered_state_def sent_state_def one_state_def vec_slab_ops_def
        answered_def List.map_filter_def one_result_def)
qed

section \<open>When a trace is done\<close>

definition destination_reached :: "probe list \<Rightarrow> bool" where
  "destination_reached ps \<longleftrightarrow>
     (\<exists>p \<in> set ps. (\<exists>r. p_result p = Some r \<and> terminates_trace (pr_kind r)) \<and>
       (\<forall>q \<in> set ps. p_ttl q \<le> p_ttl p \<longrightarrow> (\<exists>q' \<in> set ps. p_ttl q' = p_ttl q \<and> p_result q' \<noteq> None)))"

lemma done_iff_reached:
  assumes "sorted (map p_ttl ps)"
  shows "(\<exists>r \<in> set (List.map_filter p_result
            (concat (takeWhile (list_ex answered) (chunk_by (\<lambda>a b. p_ttl a = p_ttl b) ps)))).
          terminates_trace (pr_kind r)) \<longleftrightarrow> destination_reached ps"
proof -
  let ?hop = "\<lambda>k. filter (\<lambda>x. p_ttl x = k) ps"
  define ks where "ks = takeWhile (list_ex answered \<circ> ?hop) (remdups_adj (map p_ttl ps))"
  have "chunk_by (\<lambda>a b. p_ttl a = p_ttl b) ps = map ?hop (remdups_adj (map p_ttl ps))"
    by (rule chunk_by_sorted [OF assms])
  then have runs: "takeWhile (list_ex answered) (chunk_by (\<lambda>a b. p_ttl a = p_ttl b) ps) = map ?hop ks"
    by (simp only: takeWhile_map ks_def)
  have hop: "list_ex answered (?hop k) \<longleftrightarrow> (\<exists>q' \<in> set ps. p_ttl q' = k \<and> p_result q' \<noteq> None)" for k
    unfolding list_ex_iff answered_def by auto
  have ks: "k \<in> set ks \<longleftrightarrow> k \<in> p_ttl ` set ps \<and> (\<forall>q \<in> set ps. p_ttl q \<le> k \<longrightarrow> list_ex answered (?hop (p_ttl q)))" for k
    unfolding ks_def using takeWhile_sorted [OF _ distinct_remdups_adj_sorted [OF assms]] assms by simp
  have "p \<in> set (concat (map ?hop ks)) \<longleftrightarrow> p \<in> set ps \<and> p_ttl p \<in> set ks" for p
    by auto
  then have inset: "p \<in> set (concat (takeWhile (list_ex answered)
        (chunk_by (\<lambda>a b. p_ttl a = p_ttl b) ps))) \<longleftrightarrow>
      p \<in> set ps \<and> (\<forall>q \<in> set ps. p_ttl q \<le> p_ttl p \<longrightarrow>
        (\<exists>q' \<in> set ps. p_ttl q' = p_ttl q \<and> p_result q' \<noteq> None))" for p
    unfolding runs ks hop by blast
  have mf: "r \<in> set (List.map_filter p_result xs) \<longleftrightarrow> (\<exists>p \<in> set xs. p_result p = Some r)" for r xs
    by (induction xs) (auto simp: List.map_filter_simps split: option.splits)
  show ?thesis
    unfolding destination_reached_def Bex_def mf inset by blast
qed

text \<open>
  C7: The test that ends a trace, on probes in the order of their TTLs: it is met exactly by the
  timeout's completion, or when no send is in the slab and some probe was answered by the
  destination while every hop up to that one has at least one answer.
\<close>

theorem trace_done_iff:
  assumes "slab_contract (lib_slab L) slab_inv slots" and "slab_inv sending" and "sorted (map p_ttl probes)"
  shows "trace_done L sending probes state \<longleftrightarrow>
    state = Timeout \<or> (slab_get (lib_slab L) sending = Map.empty \<and> destination_reached probes)"
  using slab_contract.empty_iff [OF assms(1,2)] done_iff_reached [OF assms(3)]
  by (auto simp: trace_done_def)

theorem trace_done_iff_witness:
  "\<not> trace_done one_libs (ls_sending one_state) [one_probe\<lparr>p_result := Some one_result\<rparr>] Read \<and>
   trace_done one_libs (ls_sending sent_state) [one_probe\<lparr>p_result := Some one_result\<rparr>] Read"
proof -
  have inv: "vec_inv (ls_sending one_state)" "vec_inv (ls_sending sent_state)"
    by (auto simp: vec_inv_def one_state_def sent_state_def)
  have get: "slab_get vec_slab_ops (ls_sending one_state) \<noteq> Map.empty"
    "slab_get vec_slab_ops (ls_sending sent_state) = Map.empty"
    by (auto simp: one_state_def sent_state_def vec_slab_ops_def vec_get_def fun_eq_iff)
  have "destination_reached [one_probe\<lparr>p_result := Some one_result\<rparr>]"
    by (simp add: destination_reached_def one_result_def)
  with get show ?thesis
    using trace_done_iff [OF documented.slab_contract_axioms, OF inv(1), where
        probes = "[one_probe\<lparr>p_result := Some one_result\<rparr>]" and state = Read]
      trace_done_iff [OF documented.slab_contract_axioms, OF inv(2), where
        probes = "[one_probe\<lparr>p_result := Some one_result\<rparr>]" and state = Read]
    by simp
qed

section \<open>What a trace keeps\<close>

text \<open>
  C16: However the kernel behaves, the loop neither adds, drops nor reorders probes, never changes a
  TTL, and never changes a result once it is recorded.
\<close>

theorem results_written_once:
  assumes "run_loop L readers rounds st = Inr out"
  shows "map p_ttl (ls_probes (outcome_state out)) = map p_ttl (ls_probes st) \<and>
    (\<forall>i < length (ls_probes st). \<forall>r. p_result (ls_probes st ! i) = Some r \<longrightarrow>
       p_result (ls_probes (outcome_state out) ! i) = Some r)"
  using run_loop_evolves [OF assms] evolves_ttls [OF run_loop_evolves [OF assms]]
  by (auto simp: list_all2_conv_all_nth keeps_def)

text \<open>A trace over one round in which the send completes and the reply arrives.\<close>

definition one_rounds :: "ring_round list" where
  "one_rounds = [\<lparr>rd_submit = Inr 0, rd_events = [write_event, read_event]\<rparr>]"

lemma one_state_submit:
  "submit_and_wait one_libs \<lparr>rd_submit = Inr 0, rd_events = evs\<rparr> one_state = Inr one_state"
  by (simp add: submit_and_wait_def one_state_def one_sq_def list_sq_ops_def)

lemma one_run: "run_loop one_libs [one_reader] one_rounds one_state = Inr (Returned answered_state)"
  by (simp add: one_rounds_def one_state_submit write_event_step read_event_step)

theorem results_written_once_witness:
  "map p_ttl (ls_probes answered_state) = [1]"
  using results_written_once [OF one_run] by (simp add: one_state_def one_probe_def)

section \<open>The life of a probe\<close>

text \<open>
  C2: The loop refines the state machine of a probe: every probe moves from its phase only by the
  steps Queued to Sent or SendFailed (its send's completion, once) and Sent to Answered (with the
  time since the send as its round-trip time), each at the time of one of the events the loop was
  given, so that no probe ever goes back, and the loop's invariant is kept throughout.
\<close>

theorem run_loop_refines_phases:
  assumes "trace_env L slab_inv slots pending consumed capacity" and "trace_wf L slab_inv st"
    and "run_loop L readers rounds st = Inr out"
  shows "trace_wf L slab_inv (outcome_state out) \<and>
    (\<forall>i < length (ls_probes st).
       (\<lambda>p q. \<exists>r \<in> set rounds. \<exists>ev \<in> set (rd_events r). phase_step (ev_now ev) p q)\<^sup>*\<^sup>*
         (phase_of L st i) (phase_of L (outcome_state out) i) \<and>
       phase_of L st i \<le> phase_of L (outcome_state out) i)"
proof -
  let ?T = "\<Union>r \<in> set rounds. ev_now ` set (rd_events r)"
  have "(\<lambda>p q. \<exists>r \<in> set rounds. \<exists>ev \<in> set (rd_events r). phase_step (ev_now ev) p q) =
      (\<lambda>p q. \<exists>now \<in> ?T. phase_step now p q)"
    by (auto simp: fun_eq_iff)
  then show ?thesis
    using trace_env.run_loop_reach [OF assms(1,3,2), of ?T] phase_reach_le [of ?T]
    unfolding phase_reach_def by auto
qed

theorem run_loop_refines_phases_witness:
  "phase_of one_libs one_state 0 = Queued \<and> phase_of one_libs answered_state 0 = Answered 1000 one_result \<and>
   (\<lambda>p q. \<exists>r \<in> set one_rounds. \<exists>ev \<in> set (rd_events r). phase_step (ev_now ev) p q)\<^sup>*\<^sup>*
     Queued (Answered 1000 one_result)"
proof -
  have "phase_of one_libs one_state 0 = Queued"
    by (auto simp: phase_of_def one_state_def one_probe_def in_flight_def vec_slab_ops_def vec_get_def
        probe_index_def)
  moreover have "phase_of one_libs answered_state 0 = Answered 1000 one_result"
    by (simp add: phase_of_def answered_state_def)
  ultimately show ?thesis
    using run_loop_refines_phases [OF documented.trace_env_axioms one_state_wf one_run]
    by (simp add: one_state_def)
qed

section \<open>How a trace can end\<close>

text \<open>
  C1: Under the kernel's contract a trace never panics: it returns or waits with its invariant
  intact, or fails with the errno of \<open>io_uring_enter\<close> (never \<open>EBUSY\<close>), or with a full submission
  queue, and that only when more receives had to be scheduled again than the queue has room for.
\<close>

theorem run_loop_never_panics:
  assumes "trace_env L slab_inv slots pending consumed capacity" and "trace_wf L slab_inv st"
    and "rounds_ok L readers rounds st"
  shows "(\<exists>out. run_loop L readers rounds st = Inr out \<and> trace_wf L slab_inv (outcome_state out)) \<or>
    (\<exists>r \<in> set rounds. \<exists>n. rd_submit r = Inl n \<and> n \<noteq> EBUSY (lib_platform L) \<and>
       run_loop L readers rounds st = Inl (Fail (IoError n))) \<or>
    (run_loop L readers rounds st = Inl (Fail SubmissionQueueFull) \<and>
       capacity (ls_sq st) < length (pending (ls_sq st)) + (\<Sum>r \<leftarrow> rounds. rearm_count L (rd_events r)))"
  using trace_env.run_loop_total [OF assms(1,3,2)] by (auto simp: comp_def)

lemma one_rounds_ok: "rounds_ok one_libs [one_reader] one_rounds one_state"
proof -
  have "event_ok one_libs [one_reader] one_state write_event"
    by (simp add: event_ok_def write_event_def event_user_data one_state_def vec_slab_ops_def vec_get_def)
  moreover have "event_ok one_libs [one_reader] sent_state read_event"
    using read_event_ok by (simp add: event_ok_def read_event_def event_user_data)
  ultimately show ?thesis
    by (simp add: one_rounds_def one_state_submit write_event_step read_event_step)
qed

theorem run_loop_never_panics_witness:
  "\<exists>out. run_loop one_libs [one_reader] one_rounds one_state = Inr out \<and>
     trace_wf one_libs vec_inv (outcome_state out)"
  using run_loop_never_panics [OF documented.trace_env_axioms one_state_wf one_rounds_ok] one_run
  by auto

text \<open>
  C3: A trace does return: under the kernel's contract, when every \<open>io_uring_enter\<close> succeeds or is
  busy and the queue has room for the receives that must be scheduled again, the loop returns no
  later than when it processes the timeout's completion.
\<close>

theorem run_loop_returns_on_timeout:
  assumes "trace_env L slab_inv slots pending consumed capacity" and "trace_wf L slab_inv st"
    and "rounds_ok L readers rounds st"
    and "\<forall>r \<in> set rounds. submit_ok L r"
    and "length (pending (ls_sq st)) + (\<Sum>r \<leftarrow> rounds. rearm_count L (rd_events r)) \<le> capacity (ls_sq st)"
    and "\<exists>r \<in> set rounds. \<exists>ev \<in> set (rd_events r). is_timeout L ev"
  shows "\<exists>st'. run_loop L readers rounds st = Inr (Returned st')"
  using trace_env.run_loop_total [OF assms(1,3,2)] assms(4-6)
  by (auto simp: comp_def submit_ok_def list_ex_iff)

definition late_rounds :: "ring_round list" where
  "late_rounds = [\<lparr>rd_submit = Inr 0, rd_events = []\<rparr>, \<lparr>rd_submit = Inl 16, rd_events = [timeout_event]\<rparr>]"

theorem run_loop_returns_on_timeout_witness:
  "\<exists>st'. run_loop one_libs [one_reader] late_rounds one_state = Inr (Returned st')"
proof -
  have s: "submit_and_wait one_libs \<lparr>rd_submit = Inl 16, rd_events = evs\<rparr> st = Inr st" for evs st
    by (simp add: submit_and_wait_def)
  have ev: "event_ok one_libs [one_reader] st timeout_event" for st
    by (simp add: event_ok_def timeout_event_def event_user_data)
  have "rounds_ok one_libs [one_reader] late_rounds one_state"
    by (simp add: late_rounds_def one_state_submit s ev split: sum.split prod.split bool.split)
  moreover have "\<forall>r \<in> set late_rounds. submit_ok one_libs r"
    by (simp add: late_rounds_def submit_ok_def)
  ultimately show ?thesis
    by (intro run_loop_returns_on_timeout [OF documented.trace_env_axioms one_state_wf])
      (simp_all add: late_rounds_def rearm_count_def rearms_def is_timeout_def timeout_event_def
        event_user_data one_state_def one_sq_def)
qed

theorem handle_read_credits_witness:
  "\<exists>probes'. handle_read one_libs read_event one_reader [one_probe\<lparr>p_sent_at := Some 1000\<rparr>] = Inr (probes', []) \<and>
     p_result (probes' ! 0) = Some one_result"
  using handle_read_credits [OF _ read_event_ok, of "[one_probe\<lparr>p_sent_at := Some 1000\<rparr>]"]
  unfolding read_event_reply read_event_log
  by (auto simp: platform_ok_linux64 one_probe_def one_reader_def probe_index_def one_result_def read_event_def)

section \<open>Why a trace ended\<close>

context trace_env begin

lemma process_cqe_stops:
  assumes "process_cqe L readers ev st = Inr (True, st')" "trace_wf L slab_inv st" "sorted (map p_ttl (ls_probes st))"
  shows "is_timeout L ev \<or> (slab_get (lib_slab L) (ls_sending st') = Map.empty \<and> destination_reached (ls_probes st'))"
proof -
  obtain state failed st1 where s: "user_data_state (lib_bits L) (cqe_user_data (ev_cqe ev)) = Inr state"
    and st': "st' = st1\<lparr>ls_log := ls_log st1 @ (if failed then [CompletionFailed state (- cqe_result (ev_cqe ev))] else [])\<rparr>"
    and d: "trace_done L (ls_sending st1) (ls_probes st1) state"
    using process_cqe_Inr [OF assms(1)] by blast
  have e: "ls_sending st' = ls_sending st1" "ls_probes st' = ls_probes st1" by (simp_all add: st')
  have "slab_inv (ls_sending st')" using process_cqe_moves [OF assms(1,2)] by (simp add: trace_wf_def)
  moreover have "sorted (map p_ttl (ls_probes st'))"
    using assms(3) evolves_ttls [OF process_cqe_evolves [OF assms(1)]] by simp
  ultimately show ?thesis
    using d s empty_iff done_iff_reached by (auto simp: trace_done_def is_timeout_def e)
qed

lemma process_batch_stops:
  assumes "process_batch L readers evs st = Inr (True, st')" "trace_wf L slab_inv st" "sorted (map p_ttl (ls_probes st))"
  shows "list_ex (is_timeout L) evs \<or>
    (slab_get (lib_slab L) (ls_sending st') = Map.empty \<and> destination_reached (ls_probes st'))"
  using assms
proof (induction evs arbitrary: st)
  case Nil
  then show ?case by simp
next
  case (Cons ev evs)
  then obtain b st1 where s: "process_cqe L readers ev st = Inr (b, st1)"
    and c: "(if b then Inr (True, st1) else process_batch L readers evs st1) = Inr (True, st')"
    by (auto simp: try_bind_Inr_iff)
  have w: "trace_wf L slab_inv st1" "sorted (map p_ttl (ls_probes st1))"
    using process_cqe_moves [OF s Cons.prems(2)] Cons.prems(3) evolves_ttls [OF process_cqe_evolves [OF s]]
    by simp_all
  show ?case
  proof (cases b)
    case True
    with s c process_cqe_stops [of readers ev st st'] Cons.prems(2,3) show ?thesis by auto
  next
    case False
    with c Cons.IH [OF _ w] show ?thesis by auto
  qed
qed

lemma run_loop_stops:
  assumes "run_loop L readers rounds st = Inr (Returned st')" "trace_wf L slab_inv st" "sorted (map p_ttl (ls_probes st))"
  shows "(\<exists>r \<in> set rounds. list_ex (is_timeout L) (rd_events r)) \<or>
    (slab_get (lib_slab L) (ls_sending st') = Map.empty \<and> destination_reached (ls_probes st'))"
  using assms
proof (induction rounds arbitrary: st)
  case Nil
  then show ?case by simp
next
  case (Cons r rs)
  then obtain st1 b st2 where s: "submit_and_wait L r st = Inr st1"
    and p: "process_batch L readers (rd_events r) st1 = Inr (b, st2)"
    and c: "(if b then Inr (Returned st2) else run_loop L readers rs (sync_sq L st2)) = Inr (Returned st')"
    by (auto simp: try_bind_Inr_iff)
  have w1: "trace_wf L slab_inv st1" "ls_probes st1 = ls_probes st"
    using submit_and_wait_frame [OF s] submit_and_wait_Inr [OF s] Cons.prems(2) by simp_all
  show ?case
  proof (cases b)
    case True
    with c p process_batch_stops [of readers "rd_events r" st1 st'] w1 Cons.prems(3) show ?thesis by auto
  next
    case False
    have "trace_wf L slab_inv (sync_sq L st2)" "sorted (map p_ttl (ls_probes (sync_sq L st2)))"
      using process_batch_reach [OF p w1(1) subset_refl] evolves_ttls [OF process_batch_evolves [OF p]] w1(2) Cons.prems(3)
      by simp_all
    with False c Cons.IH [of "sync_sq L st2"] show ?thesis by auto
  qed
qed

end

text \<open>
  C4: A trace that returns without a timeout has been told the whole story: no send is left in the
  slab (so its buffers may be freed), the destination answered, and every hop before it did.
\<close>

theorem early_return_is_clean:
  assumes "trace_env L slab_inv slots pending consumed capacity" and "trace_wf L slab_inv st"
    and "sorted (map p_ttl (ls_probes st))" and "run_loop L readers rounds st = Inr (Returned st')"
    and "\<forall>r \<in> set rounds. \<forall>ev \<in> set (rd_events r). \<not> is_timeout L ev"
  shows "slab_get (lib_slab L) (ls_sending st') = Map.empty \<and> destination_reached (ls_probes st')"
  using trace_env.run_loop_stops [OF assms(1,4,2,3)] assms(5) by (auto simp: list_ex_iff)

theorem early_return_is_clean_witness:
  "slab_get vec_slab_ops (ls_sending answered_state) = Map.empty \<and> destination_reached (ls_probes answered_state)"
proof -
  have "\<forall>r \<in> set one_rounds. \<forall>ev \<in> set (rd_events r). \<not> is_timeout one_libs ev"
    by (simp add: one_rounds_def is_timeout_def write_event_def read_event_def event_user_data)
  moreover have "sorted (map p_ttl (ls_probes one_state))" by (simp add: one_state_def)
  ultimately show ?thesis
    using early_return_is_clean [OF documented.trace_env_axioms one_state_wf _ one_run] by simp
qed

text \<open>
  C20: The timeout's completion ends the trace at once, with the probes as they are and with every
  send that is still in the slab left to it: their buffers are freed while the kernel may use them.
\<close>

theorem timeout_leaves_sends:
  assumes "is_timeout L ev" and "- (2 ^ 31) < cqe_result (ev_cqe ev)"
  shows "\<exists>st'. process_cqe L readers ev st = Inr (True, st') \<and> ls_sending st' = ls_sending st \<and>
    ls_probes st' = ls_probes st \<and>
    (ls_log st' = ls_log st \<longleftrightarrow> cqe_result (ev_cqe ev) = - ETIME (lib_platform L))"
  using assms
  by (auto simp: is_timeout_def process_cqe_def complete_def log_failure_def trace_done_def)

theorem timeout_leaves_sends_witness:
  "\<exists>st'. process_cqe one_libs [one_reader] timeout_event one_state = Inr (True, st') \<and>
     in_flight one_libs st' 0"
proof -
  have "is_timeout one_libs timeout_event" "- (2 ^ 31) < cqe_result (ev_cqe timeout_event)"
    by (simp_all add: is_timeout_def timeout_event_def event_user_data)
  from timeout_leaves_sends [OF this, of "[one_reader]" one_state] obtain st' where
    "process_cqe one_libs [one_reader] timeout_event one_state = Inr (True, st')"
    "ls_sending st' = ls_sending one_state" by blast
  moreover have "in_flight one_libs one_state 0"
    by (auto simp: one_state_def in_flight_def vec_slab_ops_def vec_get_def probe_index_def)
  ultimately show ?thesis by (auto simp: in_flight_def)
qed

section \<open>Submitting\<close>

text \<open>
  C17: Scheduling a send is all or nothing: when the method cannot build the probe or the queue is
  full, the slab holds what it held before and the queue is untouched; otherwise one buffer with the
  probe's packet and TTL is added under a vacant key, and one entry with that key is queued.
\<close>

theorem schedule_write_atomic:
  assumes "trace_env L slab_inv slots pending consumed capacity" and "slab_inv s"
    and "schedule_write L fd s method now i ttl sq = (r, s', sq')"
  shows "case r of
      Inl e \<Rightarrow> slab_get (lib_slab L) s' = slab_get (lib_slab L) s \<and> sq' = sq \<and>
        (m_probe method now i = Inl e \<or> e = Fail SubmissionQueueFull \<and> capacity sq \<le> length (pending sq))
    | Inr _ \<Rightarrow> \<exists>packet destination k. m_probe method now i = Inr (packet, destination) \<and>
        slab_get (lib_slab L) s k = None \<and>
        slab_get (lib_slab L) s' = (slab_get (lib_slab L) s)
          (k \<mapsto> outgoing_new (lib_platform L) packet destination ttl i) \<and>
        pending sq' = pending sq @ [SqSendMsg fd k (user_data (lib_bits L) k Write)]"
proof -
  have sq: "sq_contract (lib_sq L) pending consumed capacity"
    using assms(1) by (simp add: trace_env_def)
  show ?thesis
    using trace_env.schedule_write_cases [OF assms]
    by (auto simp: sq_contract.push_full [OF sq] send_entry_def dest!: sq_contract.push_ok [OF sq])
qed

theorem schedule_write_atomic_witness:
  "\<exists>r s' sq'. schedule_write one_libs 0 (ls_sending one_state) one_method 0 1 2
     \<lparr>lq_entries = [], lq_consumed = 0, lq_capacity = 0\<rparr> = (r, s', sq') \<and>
     r = Inl (Fail SubmissionQueueFull) \<and>
     slab_get vec_slab_ops s' = slab_get vec_slab_ops (ls_sending one_state)"
proof -
  obtain r s' sq' where r: "schedule_write one_libs 0 (ls_sending one_state) one_method 0 1 2
     \<lparr>lq_entries = [], lq_consumed = 0, lq_capacity = 0\<rparr> = (r, s', sq')" by (metis surj_pair)
  have "vec_inv (ls_sending one_state)" using one_state_wf by (simp add: trace_wf_def)
  from schedule_write_atomic [OF documented.trace_env_axioms this r] r show ?thesis
    by (auto simp: one_method_def schedule_write_def list_sq_ops_def Let_def split: option.splits prod.splits)
qed

end
