(* ===== verification/Run_Props.thy ===== *)
theory Run_Props
  imports Trace_Props
begin

text \<open>
  The properties of \<open>run\<close> as a whole: what the setup hands to the loop, when it succeeds, what a
  full submission queue does, and what a finished trace reports.
\<close>

section \<open>The setup\<close>

text \<open>A ring's submission queue is empty when it is created.\<close>

definition fresh_rings :: "'q ring_env \<Rightarrow> ('q \<Rightarrow> sqe list) \<Rightarrow> ('q \<Rightarrow> nat) \<Rightarrow> bool" where
  "fresh_rings E pending consumed \<longleftrightarrow>
     (\<forall>n q. re_ring E n = Inr q \<longrightarrow> pending q = [] \<and> consumed q = 0)"

text \<open>\<open>IoUring::new(entries)\<close> makes a ring with room for at least \<open>entries\<close> submissions.\<close>

definition sized_rings :: "'q ring_env \<Rightarrow> ('q \<Rightarrow> nat) \<Rightarrow> bool" where
  "sized_rings E capacity \<longleftrightarrow> (\<forall>n q. re_ring E n = Inr q \<longrightarrow> unat n \<le> capacity q)"

lemma create_rings_succeeds:
  assumes "\<forall>n. \<exists>q. re_ring E n = Inr q" "\<forall>n size. re_buf_ring E n size = Inr ()"
    and "qn + pn + 1 < 2 ^ 32" "pn < 32768" "RECVMSG_OVERHEAD (lib_platform L) + m_max_reply_len method < 2 ^ 64"
  shows "\<exists>sq. create_rings L E method qn pn = Inr sq"
proof -
  obtain sq where "re_ring E (of_nat (qn + pn + 1)) = Inr sq" using assms(1) by blast
  moreover have "usize_add qn pn = Inr (qn + pn)" "usize_add (qn + pn) 1 = Inr (qn + pn + 1)"
    "u32_try_from_usize (qn + pn + 1) = Inr (of_nat (qn + pn + 1))"
    using assms(3) by (simp_all add: u32_try_from_usize_def usize_add_def)
  moreover have "buffer_count pn = Inr (2 * of_nat pn)"
    using assms(4) u16_of_nat_small [of pn] by (simp add: buffer_count_def u16_try_from_usize_def)
  ultimately show ?thesis using assms(2,5) by (simp add: create_rings_def)
qed

lemma trace_setup_result:
  assumes "trace_env L slab_inv slots pending consumed capacity" and "fresh_rings E pending consumed"
    and "trace_setup L sys E method hops timeout count h = (Inr (readers, st), h')"
  shows "trace_wf L slab_inv st \<and> ls_probes st = init_probes hops count \<and> ls_log st = [] \<and>
    length (ls_probes st) < 32768 \<and> (\<forall>i < length (ls_probes st). phase_of L st i = Queued) \<and>
    map ms_slot readers = map of_nat [0..<length readers] \<and>
    (\<exists>fd. pending (ls_sq st) = map (read_entry L) readers @
       map (send_entry L fd) [0..<length (ls_probes st)] @
       [SqTimeout timeout (user_data_timeout (lib_bits L))])"
proof -
  let ?ps = "init_probes hops count"
  obtain fd queues sq h1 h2 where
      c: "create_rings L E method (length queues) (length ?ps) = Inr sq"
    and r: "readers_try_new (lib_platform L) sys 0 queues h1 = (Inr readers, h2)"
    and s: "submit_all L E fd method readers ?ps timeout sq = Inr st"
    using assms(3) by (rule trace_setup_Inr)
  obtain entries where e: "re_ring E entries = Inr sq" "length ?ps < 32768"
    using create_rings_Inr [OF c] by blast
  have "pending sq = []" "consumed sq = 0" using e(1) assms(2) by (auto simp: fresh_rings_def)
  note st = trace_env.submit_all_Inr [OF assms(1) s this]
  have "trace_wf L slab_inv st \<and> (\<forall>i < length ?ps. phase_of L st i = Queued)"
    using st e(2) init_probes_fresh [of _ hops count]
    by (intro trace_env.holds_sends_wf [OF assms(1), where M = "method" and clock = "re_clock E"]) auto
  moreover have "length readers = length queues" using readers_try_new_Inr [OF r] by (metis length_map)
  ultimately show ?thesis
    using st e(2) readers_try_new_Inr [OF r]
    by (auto simp: trace_env.initial_entries_def [OF assms(1)])
qed

text \<open>
  C8: A setup that succeeds leaves the loop its invariant, with every probe queued under its own
  index, and exactly one receive per reader, one send per probe and the timeout in the submission
  queue, in this order; it never has more than 32767 probes.
\<close>

theorem trace_setup_ready:
  assumes "trace_env L slab_inv slots pending consumed capacity" and "fresh_rings E pending consumed"
    and "trace_setup L sys E method hops timeout count h = (Inr (readers, st), h')"
  shows "trace_wf L slab_inv st \<and> ls_probes st = init_probes hops count \<and> ls_log st = [] \<and>
    length (ls_probes st) < 32768 \<and> (\<forall>i < length (ls_probes st). phase_of L st i = Queued) \<and>
    map ms_slot readers = map of_nat [0..<length readers] \<and>
    (\<exists>fd. pending (ls_sq st) = map (read_entry L) readers @
       map (send_entry L fd) [0..<length (ls_probes st)] @
       [SqTimeout timeout (user_data_timeout (lib_bits L))])"
  using assms by (rule trace_setup_result)

text \<open>The setup of the one-probe trace, on rings of exactly the requested size.\<close>

definition one_env :: "sqe list_sq ring_env" where
  "one_env = \<lparr>re_probe_ring = Inr (), re_register_probe = Inr (), re_recvmsg_multi = True,
     re_ring = (\<lambda>n. Inr \<lparr>lq_entries = [], lq_consumed = 0, lq_capacity = unat n\<rparr>),
     re_buf_ring = (\<lambda>_ _. Inr ()), re_clock = (\<lambda>_. 0)\<rparr>"

definition one_os :: os where
  "one_os = \<lparr>os_socket = (\<lambda>_. Inr 0), os_unit = (\<lambda>_. Inr ()), os_addr = (\<lambda>_. Inl 1), os_domain = (\<lambda>_. Inr DomainIpv4)\<rparr>"

lemma one_env_fresh: "fresh_rings one_env lq_entries lq_consumed"
  by (auto simp: fresh_rings_def one_env_def)

lemma one_env_sized: "sized_rings one_env lq_capacity"
  by (auto simp: sized_rings_def one_env_def)

lemma one_features: "check_features_supported one_env = Inr ()"
  by (simp add: check_features_supported_def one_env_def)

lemma one_rings:
  "create_rings one_libs one_env one_method 1 1 = Inr \<lparr>lq_entries = [], lq_consumed = 0, lq_capacity = 3\<rparr>"
  by (simp add: create_rings_def one_env_def one_method_def buffer_count_def u16_try_from_usize_def
      u32_try_from_usize_def RECVMSG_OVERHEAD_def NAME_LEN_def RECVERR_CONTROL_LEN_def size_of_u32_def align_up_def)

lemma one_readers: "readers_try_new (linux64 True) one_os 0 [ms_queue one_reader] h = (Inr [one_reader], h)"
  by (simp add: multishot_try_new_def Let_def one_reader_def) (simp add: io_return_def zeroed_msghdr_def NAME_LEN_def)

lemma one_open: "m_open one_method h = (Inr (5, [ms_queue one_reader]), h)"
  by (simp add: one_method_def io_return_def)

lemma one_init: "init_probes [1] 1 = [one_probe]"
  by (simp add: init_probes_def one_probe_def)

lemma one_submit_all:
  "submit_all one_libs one_env 5 one_method [one_reader] [one_probe] 8000
     \<lparr>lq_entries = [], lq_consumed = 0, lq_capacity = 3\<rparr> = Inr one_state"
  by (simp add: submit_all_def schedule_write_def multishot_schedule_def push_timeout_def list_sq_ops_def
      vec_slab_ops_def vec_insert_def vec_get_def one_env_def one_method_def one_state_def one_sq_def one_probe_def
      one_reader_def user_data_def user_data_timeout_def lsb_bitfield_def Let_def)

lemma one_setup:
  "trace_setup one_libs one_os one_env one_method [1] 8000 1 h = (Inr ([one_reader], one_state), h)"
proof -
  have "create_rings one_libs one_env one_method (length [ms_queue one_reader]) (length [one_probe]) =
      Inr \<lparr>lq_entries = [], lq_consumed = 0, lq_capacity = 3\<rparr>"
    using one_rings by simp
  then show ?thesis
    using one_submit_all
    by (simp add: trace_setup_def one_features one_init Let_def io_bind_def one_open one_readers io_return_def
        del: readers_try_new.simps)
qed

theorem trace_setup_ready_witness:
  "trace_wf one_libs vec_inv one_state \<and> phase_of one_libs one_state 0 = Queued \<and>
   length (lq_entries (ls_sq one_state)) = 3"
proof -
  have "length (init_probes [1] 1) = 1" by (simp add: one_init)
  then show ?thesis
    using trace_setup_ready [OF documented.trace_env_axioms one_env_fresh one_setup] by auto
qed

text \<open>
  C18: When the features are supported, the sockets and the readers can be made, the kernel grants
  rings with the room that was asked for, the counts fit their integer types and no probe fails, the
  setup succeeds: the ring \<open>run\<close> asks for is large enough for everything it submits.
\<close>

theorem trace_setup_succeeds:
  assumes "trace_env L slab_inv slots pending consumed capacity"
    and "fresh_rings E pending consumed" and "sized_rings E capacity"
    and "\<forall>n. \<exists>q. re_ring E n = Inr q" and "\<forall>n size. re_buf_ring E n size = Inr ()"
    and "check_features_supported E = Inr ()"
    and "m_open method h = (Inr (socket, queues), h1)"
    and "length queues + length hops * unat count + 1 < 2 ^ 32" and "length hops * unat count < 32768"
    and "RECVMSG_OVERHEAD (lib_platform L) + m_max_reply_len method < 2 ^ 64"
    and "readers_try_new (lib_platform L) sys 0 queues h1 = (Inr readers, h2)"
    and "\<forall>k < length hops * unat count. \<exists>x. m_probe method (re_clock E k) (of_nat k) = Inr x"
  shows "\<exists>st. trace_setup L sys E method hops timeout count h = (Inr (readers, st), h2)"
proof -
  obtain sq where c: "create_rings L E method (length queues) (length hops * unat count) = Inr sq"
    using create_rings_succeeds [OF assms(4,5,8-10)] by blast
  obtain entries where e: "re_ring E entries = Inr sq" "unat entries = length queues + length hops * unat count + 1"
    using create_rings_Inr [OF c] by blast
  have "pending sq = []" using e(1) assms(2) by (auto simp: fresh_rings_def)
  moreover have "length queues + length hops * unat count + 1 \<le> capacity sq"
    using e assms(3) by (metis sized_rings_def)
  moreover have "length readers = length queues" using readers_try_new_Inr [OF assms(11)] by (metis length_map)
  ultimately obtain st where
    "submit_all L E socket method readers (init_probes hops count) timeout sq = Inr st"
    using trace_env.submit_all_room [OF assms(1), of sq readers "init_probes hops count" "method" E socket timeout]
      assms(12) by (auto simp: length_init_probes)
  then show ?thesis
    using assms(6,7,11) c by (simp add: trace_setup_def io_defs Let_def length_init_probes)
qed

theorem trace_setup_succeeds_witness:
  "\<exists>st. trace_setup one_libs one_os one_env one_method [1] 8000 1 [] = (Inr ([one_reader], st), [])"
  by (rule trace_setup_succeeds [OF documented.trace_env_axioms one_env_fresh one_env_sized _ _ one_features
        one_open [of "[]"]])
    (use one_readers [of "[]"] in \<open>simp_all add: one_env_def one_method_def RECVMSG_OVERHEAD_def NAME_LEN_def
      RECVERR_CONTROL_LEN_def size_of_u32_def align_up_def\<close>)

section \<open>A full queue\<close>

context trace_env begin

text \<open>A queue with no room left: the first receive that ends fails, everything else goes on.\<close>

lemma full_process_cqe:
  assumes "event_ok L readers st ev" "trace_wf L slab_inv st" "capacity (ls_sq st) \<le> length (pending (ls_sq st))"
  shows "if rearms L ev then process_cqe L readers ev st = Inl (Fail SubmissionQueueFull)
    else \<exists>finished st'. process_cqe L readers ev st = Inr (finished, st') \<and> trace_wf L slab_inv st' \<and>
      capacity (ls_sq st') \<le> length (pending (ls_sq st'))"
proof (cases "rearms L ev")
  case True
  have full: "sq_push (lib_sq L) e (ls_sq st) = None" for e using assms(3) by (simp add: push_full)
  have "process_cqe L readers ev st \<noteq> Inr (finished, st')" for finished st'
  proof
    assume "process_cqe L readers ev st = Inr (finished, st')"
    then obtain failed st1 where "complete_read L readers ev st = Inr (failed, st1)"
      using process_cqe_Inr [of L readers ev st] True by (fastforce simp: rearms_def complete_def)
    from complete_read_Inr [OF this] obtain reader q where "rearm L ev reader (ls_sq st) = Inr q" by blast
    then show False using True full by (simp add: rearm_def rearms_def multishot_schedule_eq)
  qed
  then show ?thesis using process_cqe_total [OF assms(1,2)] True by auto
next
  case False
  then show ?thesis using process_cqe_total [OF assms(1,2)] assms(3) by (auto simp: grows_def)
qed

lemma full_process_batch:
  assumes "batch_ok L readers evs st" "trace_wf L slab_inv st" "capacity (ls_sq st) \<le> length (pending (ls_sq st))"
  shows "if \<exists>before ev after st'. evs = before @ ev # after \<and> process_batch L readers before st = Inr (False, st') \<and>
      rearms L ev
    then process_batch L readers evs st = Inl (Fail SubmissionQueueFull)
    else \<exists>finished st'. process_batch L readers evs st = Inr (finished, st')"
  using assms
proof (induction evs arbitrary: st)
  case Nil
  then show ?case by auto
next
  case (Cons ev evs)
  have ok: "event_ok L readers st ev" using Cons.prems(1) by simp
  note step = full_process_cqe [OF ok Cons.prems(2,3)]
  show ?case
  proof (cases "rearms L ev")
    case True
    then have "process_cqe L readers ev st = Inl (Fail SubmissionQueueFull)" using step by simp
    moreover have "\<exists>before e after st'. ev # evs = before @ e # after \<and>
        process_batch L readers before st = Inr (False, st') \<and> rearms L e"
      using True by (intro exI [of _ "[]"] exI [of _ ev] exI [of _ evs] exI [of _ st]) simp
    ultimately show ?thesis by (simp only: if_True process_batch.simps) simp
  next
    case False
    then obtain finished st1 where p: "process_cqe L readers ev st = Inr (finished, st1)"
      and st1: "trace_wf L slab_inv st1" "capacity (ls_sq st1) \<le> length (pending (ls_sq st1))"
      using step by auto
    have split: "(\<exists>before e after st'. ev # evs = before @ e # after \<and>
        process_batch L readers before st = Inr (False, st') \<and> rearms L e) \<longleftrightarrow>
      \<not> finished \<and> (\<exists>before e after st'. evs = before @ e # after \<and>
        process_batch L readers before st1 = Inr (False, st') \<and> rearms L e)" (is "?l \<longleftrightarrow> ?r")
    proof
      assume ?l
      then obtain before e after st' where b: "ev # evs = before @ e # after"
        "process_batch L readers before st = Inr (False, st')" "rearms L e" by blast
      with False obtain tail where t: "before = ev # tail" by (cases before) auto
      with b p have "\<not> finished" "process_batch L readers tail st1 = Inr (False, st')"
        by (auto split: if_splits)
      with b t show ?r by auto
    next
      assume r: ?r
      then obtain before e after st' where b: "evs = before @ e # after"
        "process_batch L readers before st1 = Inr (False, st')" "rearms L e" by blast
      with r p show ?l by (intro exI [of _ "ev # before"] exI [of _ e] exI [of _ after] exI [of _ st']) simp
    qed
    show ?thesis
    proof (cases finished)
      case True
      then show ?thesis unfolding split using p by auto
    next
      case unfinished: False
      then have "batch_ok L readers evs st1" using Cons.prems(1) p by simp
      from Cons.IH [OF this st1] show ?thesis unfolding split using p unfinished by simp
    qed
  qed
qed

end

text \<open>
  C19: In the first round the queue still counts every entry of the first submission, however many
  of them the kernel has consumed. So when the ring is no larger than that submission (its size is a
  power of two), the first receive that ends in this round before the trace is done aborts the
  whole trace, whatever replies have been recorded; and nothing else in this round makes it fail.
\<close>

theorem first_rearm_can_abort:
  assumes "trace_env L slab_inv slots pending consumed capacity" and "fresh_rings E pending consumed"
    and "trace_setup L sys E method hops timeout count h = (Inr (readers, st), h')"
    and "capacity (ls_sq st) = length readers + length hops * unat count + 1"
    and "submit_and_wait L r st = Inr st1" and "batch_ok L readers (rd_events r) st1"
  shows "if \<exists>before ev after st2. rd_events r = before @ ev # after \<and>
        process_batch L readers before st1 = Inr (False, st2) \<and> rearms L ev
    then run_loop L readers (r # rounds) st = Inl (Fail SubmissionQueueFull)
    else \<exists>finished st2. process_batch L readers (rd_events r) st1 = Inr (finished, st2)"
proof -
  note ready = trace_setup_result [OF assms(1-3)]
  note frame = trace_env.submit_and_wait_frame [OF assms(1,5)]
  have "length (pending (ls_sq st)) = length readers + length hops * unat count + 1"
    using ready by (auto simp: length_init_probes)
  then have "capacity (ls_sq st1) \<le> length (pending (ls_sq st1))" using frame assms(4) by simp
  moreover have "trace_wf L slab_inv st1" using frame ready by simp
  ultimately show ?thesis
    using trace_env.full_process_batch [OF assms(1,6)] assms(5) by (simp split: if_split_asm)
qed

definition last_read_event :: event where
  "last_read_event = read_event\<lparr>ev_cqe := \<lparr>cqe_result = -105, cqe_user_data = 0x10000, cqe_flags = 0\<rparr>\<rparr>"

text \<open>The kernel takes all three entries, the send completes, and then the receive ends.\<close>

theorem first_rearm_can_abort_witness:
  "run_loop one_libs [one_reader] [\<lparr>rd_submit = Inr 3, rd_events = [write_event, last_read_event]\<rparr>] one_state =
     Inl (Fail SubmissionQueueFull)"
proof -
  let ?r = "\<lparr>rd_submit = Inr 3, rd_events = [write_event, last_read_event]\<rparr>"
  let ?st = "one_state\<lparr>ls_sq := one_sq\<lparr>lq_consumed := 3\<rparr>\<rparr>"
  let ?sent = "sent_state\<lparr>ls_sq := one_sq\<lparr>lq_consumed := 3\<rparr>\<rparr>"
  have s: "submit_and_wait one_libs ?r one_state = Inr ?st"
    by (simp add: submit_and_wait_def one_state_def one_sq_def list_sq_ops_def)
  have w: "process_cqe one_libs [one_reader] write_event ?st = Inr (False, ?sent)"
    by (simp add: process_cqe_def write_event_def event_user_data complete_def complete_write_def
        one_state_def sent_state_def vec_slab_ops_def vec_remove_def vec_get_def probe_index_def
        one_probe_def trace_done_def answered_def List.map_filter_def)
  have r: "rearms one_libs last_read_event"
    by (simp add: rearms_def last_read_event_def event_user_data)
  have "event_ok one_libs [one_reader] ?st write_event"
    by (simp add: event_ok_def write_event_def event_user_data one_state_def vec_slab_ops_def vec_get_def)
  moreover have "event_ok one_libs [one_reader] ?sent last_read_event"
    by (simp add: event_ok_def last_read_event_def event_user_data)
  ultimately have ok: "batch_ok one_libs [one_reader] (rd_events ?r) ?st"
    using w by (simp split: sum.split prod.split bool.split)
  have "\<exists>before ev after st2. rd_events ?r = before @ ev # after \<and>
      process_batch one_libs [one_reader] before ?st = Inr (False, st2) \<and> rearms one_libs ev"
    using w r by (intro exI [of _ "[write_event]"] exI [of _ last_read_event] exI [of _ "[]"] exI [of _ ?sent]) simp
  with first_rearm_can_abort [OF documented.trace_env_axioms one_env_fresh one_setup _ s ok]
  show ?thesis by (simp add: one_state_def one_sq_def)
qed

section \<open>What is submitted\<close>

text \<open>The receive a completion ends is scheduled again.\<close>

definition ended_reader :: "('s, 'q) libs \<Rightarrow> multishot list \<Rightarrow> event \<Rightarrow> multishot" where
  "ended_reader L readers ev = readers ! user_data_slot (lib_bits L) (cqe_user_data (ev_cqe ev))"

definition rearmed :: "('s, 'q) libs \<Rightarrow> multishot list \<Rightarrow> event list \<Rightarrow> sqe list" where
  "rearmed L readers evs = map (read_entry L \<circ> ended_reader L readers) (filter (rearms L) evs)"

lemma rearmed_simps [simp]:
  "rearmed L readers [] = []"
  "rearmed L readers (ev # evs) =
     (if rearms L ev then [read_entry L (ended_reader L readers ev)] else []) @ rearmed L readers evs"
  "rearmed L readers (evs @ evs') = rearmed L readers evs @ rearmed L readers evs'"
  by (simp_all add: rearmed_def)

text \<open>The entries the kernel takes along a run, in the order it takes them.\<close>

fun taken ::
    "('q \<Rightarrow> sqe list) \<Rightarrow> ('q \<Rightarrow> nat) \<Rightarrow> ('s, 'q) libs \<Rightarrow> multishot list \<Rightarrow> ring_round list
     \<Rightarrow> ('s, 'q) loop_state \<Rightarrow> sqe list" where
  "taken pending consumed L readers [] st = []"
| "taken pending consumed L readers (r # rs) st =
     (case try_bind (submit_and_wait L r st) (process_batch L readers (rd_events r)) of
        Inr (False, st) \<Rightarrow>
          take (consumed (ls_sq st)) (pending (ls_sq st)) @ taken pending consumed L readers rs (sync_sq L st)
      | _ \<Rightarrow> [])"

context trace_env begin

lemma process_cqe_submits:
  assumes "process_cqe L readers ev st = Inr (finished, st')"
  shows "pending (ls_sq st') = pending (ls_sq st) @ rearmed L readers [ev]"
proof -
  obtain state failed st1 where s: "user_data_state (lib_bits L) (cqe_user_data (ev_cqe ev)) = Inr state"
    and c: "complete L readers state ev st = Inr (failed, st1)" and q: "ls_sq st' = ls_sq st1"
    using process_cqe_Inr [OF assms] by auto
  have "pending (ls_sq st1) = pending (ls_sq st) @ rearmed L readers [ev]"
  proof (cases state)
    case Write
    with s c show ?thesis by (auto simp: rearms_def complete_def dest!: complete_write_Inr)
  next
    case Read
    with s c show ?thesis
      by (auto simp: rearms_def complete_def complete_read_def rearm_def ended_reader_def
          multishot_schedule_eq Let_def try_bind_Inr_iff ok_or_Inr_iff dest: push_ok split: if_splits)
  next
    case Timeout
    with s c show ?thesis by (simp add: rearms_def complete_def)
  qed
  with q show ?thesis by simp
qed

lemma process_batch_submits:
  "process_batch L readers evs st = Inr (False, st') \<Longrightarrow>
   pending (ls_sq st') = pending (ls_sq st) @ rearmed L readers evs"
proof (induction evs arbitrary: st)
  case Nil
  then show ?case by simp
next
  case (Cons ev evs)
  then obtain st1 where "process_cqe L readers ev st = Inr (False, st1)"
    "process_batch L readers evs st1 = Inr (False, st')"
    by (auto simp: try_bind_Inr_iff split: if_splits)
  from process_cqe_submits [OF this(1)] Cons.IH [OF this(2)] show ?case by simp
qed

lemma run_loop_submits:
  "run_loop L readers rs st = Inr (Waiting st') \<Longrightarrow>
   taken pending consumed L readers rs st @ pending (ls_sq st') =
     pending (ls_sq st) @ rearmed L readers (concat (map rd_events rs))"
proof (induction rs arbitrary: st)
  case Nil
  then show ?case by simp
next
  case (Cons r rs)
  then obtain st1 st2 where s: "submit_and_wait L r st = Inr st1"
    and p: "process_batch L readers (rd_events r) st1 = Inr (False, st2)"
    and c: "run_loop L readers rs (sync_sq L st2) = Inr (Waiting st')"
    by (auto simp: try_bind_Inr_iff split: if_splits)
  have "taken pending consumed L readers (r # rs) st @ pending (ls_sq st') =
      take (consumed (ls_sq st2)) (pending (ls_sq st2)) @
      taken pending consumed L readers rs (sync_sq L st2) @ pending (ls_sq st')"
    using s p by simp
  also have "\<dots> = take (consumed (ls_sq st2)) (pending (ls_sq st2)) @
      drop (consumed (ls_sq st2)) (pending (ls_sq st2)) @ rearmed L readers (concat (map rd_events rs))"
    using Cons.IH [OF c] by (simp add: sync_ok)
  also have "\<dots> = pending (ls_sq st2) @ rearmed L readers (concat (map rd_events rs))" by simp
  also have "\<dots> = pending (ls_sq st) @ rearmed L readers (concat (map rd_events (r # rs)))"
    using process_batch_submits [OF p] submit_and_wait_frame [OF s] by simp
  finally show ?case .
qed

end

text \<open>
  C9: While a trace is running, what the kernel has taken and what is still queued is, in this
  order: one receive per reader, one send per probe, the timeout, and then one receive for every
  completion that ended one, in the order of the completions. No submission is lost, repeated or
  overtaken, so a receive is outstanding for every reader all the time.
\<close>

theorem submissions_in_order:
  assumes "trace_env L slab_inv slots pending consumed capacity" and "fresh_rings E pending consumed"
    and "trace_setup L sys E method hops timeout count h = (Inr (readers, st), h')"
    and "run_loop L readers rounds st = Inr (Waiting st')"
  shows "\<exists>fd. taken pending consumed L readers rounds st @ pending (ls_sq st') =
    map (read_entry L) readers @ map (send_entry L fd) [0..<length (ls_probes st)] @
    [SqTimeout timeout (user_data_timeout (lib_bits L))] @
    rearmed L readers (concat (map rd_events rounds))"
  using trace_setup_result [OF assms(1-3)] trace_env.run_loop_submits [OF assms(1,4)] by auto

definition refill_rounds :: "ring_round list" where
  "refill_rounds = [\<lparr>rd_submit = Inr 3, rd_events = []\<rparr>, \<lparr>rd_submit = Inr 0, rd_events = [last_read_event]\<rparr>]"

lemma refill_run: "\<exists>st'. run_loop one_libs [one_reader] refill_rounds one_state = Inr (Waiting st')"
  by (simp add: refill_rounds_def last_read_event_def submit_and_wait_def sync_sq_def list_sq_ops_def one_state_def
      one_sq_def process_cqe_def event_user_data complete_def complete_read_def receive_def rearm_def
      multishot_schedule_eq default_ignores_read_error_def one_reader_def log_failure_def trace_done_def
      vec_slab_ops_def one_probe_def answered_def List.map_filter_def)

theorem submissions_in_order_witness:
  "\<exists>fd q. taken lq_entries lq_consumed one_libs [one_reader] refill_rounds one_state @ q =
     [read_entry one_libs one_reader, send_entry one_libs fd 0, SqTimeout 8000 (user_data_timeout lsb_bitfield),
      read_entry one_libs one_reader]"
proof -
  obtain st' where "run_loop one_libs [one_reader] refill_rounds one_state = Inr (Waiting st')"
    using refill_run by blast
  from submissions_in_order [OF documented.trace_env_axioms one_env_fresh one_setup this] show ?thesis
    by (force simp: refill_rounds_def rearms_def last_read_event_def event_user_data ended_reader_def one_state_def)
qed

section \<open>What a finished trace reports\<close>

lemma chunks_of_ttls:
  assumes "map p_ttl ps = concat (map (replicate n) hops)" "0 < n" "distinct hops"
  shows "map (map p_ttl) (chunk_by (\<lambda>a b. p_ttl a = p_ttl b) ps) = map (replicate n) hops"
  using chunk_by_runs [OF assms(2,3)] by (simp add: chunk_by_map_key assms(1))

lemma run_result:
  assumes "trace_env L slab_inv slots pending consumed capacity" and "fresh_rings E pending consumed"
    and "run L sys E rounds method (hop_range lo hi) timeout count h = (Inr (Some probes), h')"
    and "0 < unat count"
  shows "map (map p_ttl) (chunk_by (\<lambda>a b. p_ttl a = p_ttl b) probes) =
      map (replicate (unat count)) (hop_range lo hi) \<and>
    (\<forall>p \<in> set probes. \<forall>res. p_result p = Some res \<longrightarrow>
      (\<exists>r \<in> set rounds. \<exists>ev \<in> set (rd_events r). \<exists>r' \<in> set rounds. \<exists>ev' \<in> set (rd_events r').
         p_sent_at p = Some (ev_now ev) \<and> pr_rtt res = ev_now ev' - ev_now ev))"
proof -
  let ?T = "\<Union>r \<in> set rounds. ev_now ` set (rd_events r)"
  obtain readers st h1 where s: "trace_setup L sys E method (hop_range lo hi) timeout count h = (Inr (readers, st), h1)"
    and l: "loop_result (run_loop L readers rounds st) = Inr (Some probes)"
    using assms(3) by (auto simp: run_def io_bind_Inr io_lift_Inr)
  obtain st' where out: "run_loop L readers rounds st = Inr (Returned st')" and p: "probes = ls_probes st'"
    using l by (auto simp: loop_result_Some)
  note ready = trace_setup_result [OF assms(1,2) s]
  have wf: "trace_wf L slab_inv st" and ps: "ls_probes st = init_probes (hop_range lo hi) count"
    using ready by simp_all
  have reach: "trace_wf L slab_inv st'"
    "\<forall>i < length (ls_probes st). phase_reach ?T (phase_of L st i) (phase_of L st' i)"
    using trace_env.run_loop_reach [OF assms(1) out wf, of ?T] by auto
  have ttls: "map p_ttl probes = concat (map (replicate (unat count)) (hop_range lo hi))"
    using evolves_ttls [OF run_loop_evolves [OF out]] ps by (simp add: p init_probes_ttls)
  have len: "length probes = length (ls_probes st)"
    using list_all2_lengthD [OF run_loop_evolves [OF out]] p by simp
  have "\<exists>t \<in> ?T. \<exists>now \<in> ?T. p_sent_at (probes ! i) = Some t \<and> pr_rtt res = now - t"
    if i: "i < length probes" and res: "p_result (probes ! i) = Some res" for i res
  proof -
    have "p_sent_at (probes ! i) \<noteq> None" using reach(1) i res p by (simp add: trace_wf_def)
    then obtain t where t: "p_sent_at (probes ! i) = Some t" by blast
    then have "phase_of L st' i = Answered t res" using res p by (simp add: phase_of_def)
    moreover have "phase_of L st i = Queued" using ready i len by simp
    ultimately have "phase_reach ?T Queued (Answered t res)" using reach(2) i len by fastforce
    from phase_reach_Queued [OF this] t show ?thesis by auto
  qed
  then show ?thesis
    using chunks_of_ttls [OF ttls assms(4) hop_range_props(1)] by (fastforce simp: in_set_conv_nth)
qed

text \<open>
  C6: What a trace reports when it returns: the probes, cut into hops as the trace and the output
  cut them, are the requested TTLs in order with the requested number of probes each, and every
  result belongs to a probe that was sent; its send time and the time its round trip is measured to
  are times of processed completions.
\<close>

theorem run_reports:
  assumes "trace_env L slab_inv slots pending consumed capacity" and "fresh_rings E pending consumed"
    and "run L sys E rounds method (hop_range lo hi) timeout count h = (Inr (Some probes), h')"
    and "0 < unat count"
  shows "map (map p_ttl) (chunk_by (\<lambda>a b. p_ttl a = p_ttl b) probes) =
      map (replicate (unat count)) (hop_range lo hi) \<and>
    (\<forall>p \<in> set probes. \<forall>res. p_result p = Some res \<longrightarrow>
      (\<exists>r \<in> set rounds. \<exists>ev \<in> set (rd_events r). \<exists>r' \<in> set rounds. \<exists>ev' \<in> set (rd_events r').
         p_sent_at p = Some (ev_now ev) \<and> pr_rtt res = ev_now ev' - ev_now ev))"
  using assms by (rule run_result)

theorem run_reports_witness:
  "map (map p_ttl) (chunk_by (\<lambda>a b. p_ttl a = p_ttl b) (ls_probes answered_state)) = [[1]]"
proof -
  have h: "hop_range 1 1 = [1]" by (simp add: hop_range_def)
  have "run one_libs one_os one_env one_rounds one_method (hop_range 1 1) 8000 1 [] =
      (Inr (Some (ls_probes answered_state)), [])"
    unfolding h using one_setup [of "[]"] one_run by (simp add: run_def io_bind_def loop_result_def io_return_def)
  from run_reports [OF documented.trace_env_axioms one_env_fresh this] h show ?thesis by simp
qed

end
