(* ===== verification/Method_Icmp.thy ===== *)
theory Method_Icmp
  imports Methods
begin

text \<open>
  src/src/method/icmp.rs: echo requests whose sequence number is the probe's identifier. The lemmas
  show the size and contents of a probe, that every probe identifier survives the trip whatever
  checksum and identifier the kernel fills in, and which system calls \<open>open\<close> makes.
\<close>

section \<open>The method\<close>

definition ECHO_HEADER_LEN :: nat where "ECHO_HEADER_LEN = 8"

definition sequence :: "reply \<Rightarrow> probe_id option" where
  "sequence r = map_option u16_from_be (get_range (r_quoted r) 6 8)"

definition echo_replies :: "platform \<Rightarrow> replies" where
  "echo_replies P =
     \<lparr>identify = (\<lambda>r. sequence r),
      classify = (\<lambda>_. Destination),
      ignores_read_error = (\<lambda>error. error = - EHOSTUNREACH P)\<rparr>"

record icmp =
  icmp_target :: ip_addr
  icmp_payload_len :: nat

definition icmp_min_packet_len :: "ip_addr \<Rightarrow> nat" where
  "icmp_min_packet_len target =
     (case target of V4 _ \<Rightarrow> MIN_IPV4_HEADER_LEN | V6 _ \<Rightarrow> IPV6_HEADER_LENGTH) + ECHO_HEADER_LEN"

definition icmp_try_new :: "ip_addr \<Rightarrow> nat \<Rightarrow> icmp rust" where
  "icmp_try_new target packet_len =
     (let want_packet_len = icmp_min_packet_len target in
      case checked_sub_usize packet_len want_packet_len of
        None \<Rightarrow> Inl (Fail (PacketTooSmall want_packet_len ''icmp''))
      | Some payload_len \<Rightarrow> Inr \<lparr>icmp_target = target, icmp_payload_len = payload_len\<rparr>)"

definition icmp_open :: "platform \<Rightarrow> os \<Rightarrow> icmp \<Rightarrow> (fd \<times> reply_queue list) io" where
  "icmp_open P sys self =
     io_bind (bound_socket sys Dgram ProtoIcmpV4 ProtoIcmpV6 (icmp_target self)) (\<lambda>socket.
     io_return
       (socket,
        [\<lparr>q_socket = socket, q_err_queue = False, q_replies = echo_replies P\<rparr>,
         \<lparr>q_socket = socket, q_err_queue = True, q_replies = error_replies sequence\<rparr>]))"

definition icmp_probe :: "icmp \<Rightarrow> probe_id \<Rightarrow> (bytes \<times> sock_addr) rust" where
  "icmp_probe self i =
     (let packet = replicate (ECHO_HEADER_LEN + icmp_payload_len self) 0 in
      try_bind (store_at packet 0
          (case icmp_target self of V4 _ \<Rightarrow> v4_ECHO_REQUEST | V6 _ \<Rightarrow> v6_ECHO_REQUEST)) (\<lambda>packet.
      try_bind (copy_at packet 6 (u16_to_be i)) (\<lambda>packet.
      Inr (packet, sock_addr_new (icmp_target self) 0))))"

definition icmp_max_reply_len :: "icmp \<Rightarrow> nat" where
  "icmp_max_reply_len self = ECHO_HEADER_LEN + icmp_payload_len self"

definition icmp_method :: "platform \<Rightarrow> os \<Rightarrow> icmp \<Rightarrow> method_ops" where
  "icmp_method P sys self =
     \<lparr>m_open = icmp_open P sys self, m_probe = (\<lambda>_. icmp_probe self),
      m_max_reply_len = icmp_max_reply_len self\<rparr>"

section \<open>Packets\<close>

definition echo_request :: "ip_addr \<Rightarrow> u8" where
  "echo_request target = (case target of V4 _ \<Rightarrow> 8 | V6 _ \<Rightarrow> 128)"

lemma icmp_probe_eq:
  "icmp_probe self i =
     Inr ([echo_request (icmp_target self), 0, 0, 0, 0, 0] @ u16_to_be i @
            replicate (icmp_payload_len self) 0,
          sock_addr_new (icmp_target self) 0)"
  by (cases "icmp_target self")
    (simp_all add: icmp_probe_def store_at_def copy_at_def write_at_def ECHO_HEADER_LEN_def
      echo_request_def icmp_constants numeral_eq_Suc)

text \<open>
  C37: A method built for a packet length sends echo requests to the target that, with the IP
  header, have exactly that length, carry the probe's identifier big-endian in bytes 6 and 7 and
  zeros elsewhere, and never panics; shorter packet lengths are refused with the least length.
\<close>

theorem icmp_probe_packet:
  "(packet_len < icmp_min_packet_len target \<longrightarrow>
      icmp_try_new target packet_len =
        Inl (Fail (PacketTooSmall (icmp_min_packet_len target) ''icmp''))) \<and>
   (icmp_min_packet_len target \<le> packet_len \<longrightarrow>
      (\<exists>self packet. icmp_try_new target packet_len = Inr self \<and>
         icmp_probe self i = Inr (packet, sock_addr_new target 0) \<and>
         (case target of V4 _ \<Rightarrow> 20 | V6 _ \<Rightarrow> 40) + length packet = packet_len \<and>
         length packet = icmp_max_reply_len self \<and>
         packet ! 0 = echo_request target \<and>
         field packet 6 2 = u16_to_be i \<and>
         (\<forall>k < length packet. k \<notin> {0, 6, 7} \<longrightarrow> packet ! k = 0)))"
proof (intro conjI impI)
  assume "packet_len < icmp_min_packet_len target"
  then show "icmp_try_new target packet_len =
      Inl (Fail (PacketTooSmall (icmp_min_packet_len target) ''icmp''))"
    by (simp add: icmp_try_new_def checked_sub_usize_def Let_def)
next
  assume len: "icmp_min_packet_len target \<le> packet_len"
  define self where
    "self = \<lparr>icmp_target = target, icmp_payload_len = packet_len - icmp_min_packet_len target\<rparr>"
  define packet where
    "packet = [echo_request target, 0, 0, 0, 0, 0] @ u16_to_be i @
       replicate (icmp_payload_len self) 0"
  have new: "icmp_try_new target packet_len = Inr self"
    using len by (simp add: icmp_try_new_def checked_sub_usize_def Let_def self_def)
  have probe: "icmp_probe self i = Inr (packet, sock_addr_new target 0)"
    by (simp add: icmp_probe_eq packet_def self_def)
  have length: "length packet = 8 + icmp_payload_len self"
    by (simp add: packet_def)
  have total: "(case target of V4 _ \<Rightarrow> 20 | V6 _ \<Rightarrow> 40) + length packet = packet_len"
    using len by (cases target) (simp_all add: length self_def icmp_min_packet_len_def
        MIN_IPV4_HEADER_LEN_def IPV6_HEADER_LENGTH_def ECHO_HEADER_LEN_def)
  have zeros: "packet ! k = 0" if "k < length packet" "k \<notin> {0, 6, 7}" for k
  proof (cases "k < 6")
    case True
    then have "k \<in> {1, 2, 3, 4, 5}" using that(2) by auto
    then show ?thesis by (auto simp: packet_def)
  next
    case False
    then have "8 \<le> k" using that(2) by auto
    then show ?thesis using that(1)
      by (auto simp: packet_def nth_append numeral_eq_Suc nth_Cons')
  qed
  show "\<exists>self packet. icmp_try_new target packet_len = Inr self \<and>
         icmp_probe self i = Inr (packet, sock_addr_new target 0) \<and>
         (case target of V4 _ \<Rightarrow> 20 | V6 _ \<Rightarrow> 40) + length packet = packet_len \<and>
         length packet = icmp_max_reply_len self \<and>
         packet ! 0 = echo_request target \<and>
         field packet 6 2 = u16_to_be i \<and>
         (\<forall>k < length packet. k \<notin> {0, 6, 7} \<longrightarrow> packet ! k = 0)"
    using new probe total zeros length
    by (intro exI [of _ self] exI [of _ packet])
      (auto simp: icmp_max_reply_len_def ECHO_HEADER_LEN_def packet_def field_def)
qed

theorem icmp_probe_packet_witness:
  "icmp_try_new (V4 0x7F000001) 27 = Inl (Fail (PacketTooSmall 28 ''icmp'')) \<and>
   (\<exists>self packet. icmp_try_new (V6 1) 60 = Inr self \<and>
      icmp_probe self 1234 = Inr (packet, SockV6 1 0 0 0) \<and> length packet = 20)"
  using icmp_probe_packet [of 27 "V4 0x7F000001" 0] icmp_probe_packet [of 60 "V6 1" 1234]
  by (auto simp: icmp_min_packet_len_def MIN_IPV4_HEADER_LEN_def IPV6_HEADER_LENGTH_def
      ECHO_HEADER_LEN_def)

section \<open>Identification\<close>

text \<open>
  What comes back: a router quotes at least the first eight bytes of the request as it was sent,
  an echo reply has a type of its own and the request's bytes from the identifier on. The kernel fills in the checksum
  and the identifier, bytes 2 to 5, so nothing is said of them.
\<close>

definition echo_quotes :: "bytes \<Rightarrow> sock_addr \<Rightarrow> reply \<Rightarrow> bool" where
  "echo_quotes p d r \<longleftrightarrow>
     8 \<le> length (r_quoted r) \<and> take 2 (r_quoted r) = take 2 p \<and>
     field (r_quoted r) 6 2 = field p 6 2"

definition echo_answers :: "bytes \<Rightarrow> sock_addr \<Rightarrow> reply \<Rightarrow> bool" where
  "echo_answers p d r \<longleftrightarrow> 8 \<le> length (r_quoted r) \<and> field (r_quoted r) 6 2 = field p 6 2"

lemma sequence_eq:
  "8 \<le> length (r_quoted r) \<Longrightarrow> sequence r = Some (u16_from_be (field (r_quoted r) 6 2))"
  by (simp add: sequence_def get_range_field)

lemma icmp_probe_sequence: "icmp_probe self i = Inr (p, d) \<Longrightarrow> field p 6 2 = u16_to_be i"
  by (auto simp: icmp_probe_eq field_def)

interpretation icmp_codec: probe_codec "\<lambda>_. icmp_probe self" sequence "identify (echo_replies P)"
    "\<lambda>_. True" echo_quotes echo_answers for self P
  by unfold_locales
    (auto simp: echo_quotes_def echo_answers_def echo_replies_def sequence_eq
      dest: icmp_probe_sequence)

text \<open>
  C33: Every one of the 65536 probe identifiers is recovered, from eight quoted bytes of the
  request on the error queue as well as from the target's echo reply, whatever checksum and
  identifier the kernel put in; a reply with fewer than eight bytes is never identified.
\<close>

theorem icmp_probe_identified:
  assumes "icmp_probe self i = Inr (p, d)"
  shows "(echo_quotes p d r \<longrightarrow> identify (error_replies sequence) r = Some i) \<and>
    (echo_answers p d r \<longrightarrow> identify (echo_replies P) r = Some i) \<and>
    (length (r_quoted r) < 8 \<longrightarrow>
       identify (error_replies sequence) r = None \<and> identify (echo_replies P) r = None)"
  using icmp_codec.quote_identified [OF TrueI assms] icmp_codec.answer_identified [OF TrueI assms]
  by (auto simp: echo_replies_def sequence_def get_range_def)

theorem icmp_probe_identified_witness:
  "identify (error_replies sequence)
     \<lparr>r_source = None, r_destination = None, r_quoted = [8, 0, 0xAB, 0xCD, 0x12, 0x34, 4, 210],
      r_error = Some (IcmpV4 11 0 0)\<rparr> = Some 1234"
proof -
  let ?self = "\<lparr>icmp_target = V4 1, icmp_payload_len = 0\<rparr>"
  have p: "icmp_probe ?self 1234 = Inr ([8, 0, 0, 0, 0, 0, 4, 210], SockV4 1 0)"
    by code_simp
  show ?thesis
    using icmp_probe_identified [OF p, of "\<lparr>r_source = None, r_destination = None,
        r_quoted = [8, 0, 0xAB, 0xCD, 0x12, 0x34, 4, 210], r_error = Some (IcmpV4 11 0 0)\<rparr>"]
    by (simp add: echo_quotes_def field_def)
qed

end
