(* ===== verification/Method_Udp.thy ===== *)
theory Method_Udp
  imports Methods
begin

text \<open>
  src/src/method/udp.rs: datagrams whose destination port is \<open>START_PORT\<close> plus the probe's
  identifier. The lemmas give the port of every identifier, with the wrap-around past 65535, and
  show for exactly which identifiers a reply is identified as the probe it answers.
\<close>

section \<open>The method\<close>

definition UDP_HEADER_LEN :: nat where "UDP_HEADER_LEN = 8"
definition START_PORT :: u16 where "START_PORT = 33434"

record udp =
  udp_target :: ip_addr
  udp_payload_len :: nat

definition udp_replies_identify :: "ip_addr \<Rightarrow> reply \<Rightarrow> probe_id option" where
  "udp_replies_identify target r =
     Option.bind (r_source r) (\<lambda>a.
     Option.bind (as_socket a) (\<lambda>(ip, port).
       if ip \<noteq> target then None else checked_sub port START_PORT))"

definition udp_replies :: "platform \<Rightarrow> ip_addr \<Rightarrow> replies" where
  "udp_replies P target =
     \<lparr>identify = udp_replies_identify target,
      classify = (\<lambda>_. Destination),
      ignores_read_error = (\<lambda>error. error = - EHOSTUNREACH P)\<rparr>"

definition udp_identify_from_error :: "reply \<Rightarrow> probe_id option" where
  "udp_identify_from_error r =
     Option.bind (r_destination r) (\<lambda>a.
     Option.bind (as_socket a) (\<lambda>(_, port). checked_sub port START_PORT))"

definition udp_min_packet_len :: "ip_addr \<Rightarrow> nat" where
  "udp_min_packet_len target =
     (case target of V4 _ \<Rightarrow> MIN_IPV4_HEADER_LEN | V6 _ \<Rightarrow> IPV6_HEADER_LENGTH) + UDP_HEADER_LEN"

definition udp_try_new :: "ip_addr \<Rightarrow> nat \<Rightarrow> udp rust" where
  "udp_try_new target packet_len =
     (let want_packet_len = udp_min_packet_len target in
      case checked_sub_usize packet_len want_packet_len of
        None \<Rightarrow> Inl (Fail (PacketTooSmall want_packet_len ''udp''))
      | Some payload_len \<Rightarrow> Inr \<lparr>udp_target = target, udp_payload_len = payload_len\<rparr>)"

definition udp_open :: "platform \<Rightarrow> os \<Rightarrow> udp \<Rightarrow> (fd \<times> reply_queue list) io" where
  "udp_open P sys self =
     io_bind (bound_socket sys Dgram ProtoUdp ProtoUdp (udp_target self)) (\<lambda>socket.
     io_return
       (socket,
        [\<lparr>q_socket = socket, q_err_queue = False, q_replies = udp_replies P (udp_target self)\<rparr>,
         \<lparr>q_socket = socket, q_err_queue = True,
          q_replies = error_replies udp_identify_from_error\<rparr>]))"

text \<open>\<open>port += 1\<close> would panic on overflow.\<close>

definition udp_probe :: "udp \<Rightarrow> probe_id \<Rightarrow> (bytes \<times> sock_addr) rust" where
  "udp_probe self i =
     (let packet = replicate (udp_payload_len self) 0;
          (port, overflowed) = overflowing_add START_PORT i
      in try_bind
           (if overflowed then ok_or (Panic ArithmeticOverflow) (checked_add port 1) else Inr port)
           (\<lambda>port. Inr (packet, sock_addr_new (udp_target self) port)))"

definition udp_max_reply_len :: "udp \<Rightarrow> nat" where
  "udp_max_reply_len self = udp_payload_len self"

definition udp_method :: "platform \<Rightarrow> os \<Rightarrow> udp \<Rightarrow> method_ops" where
  "udp_method P sys self =
     \<lparr>m_open = udp_open P sys self, m_probe = (\<lambda>_. udp_probe self),
      m_max_reply_len = udp_max_reply_len self\<rparr>"

section \<open>Ports\<close>

text \<open>The port of a probe: no port is zero, and past 65535 the ports go on from 1.\<close>

definition udp_port :: "probe_id \<Rightarrow> u16" where
  "udp_port i = (if unat i \<le> 32101 then START_PORT + i else START_PORT + i + 1)"

lemma unat_START_PORT_add:
  "unat (START_PORT + i) = (if unat i \<le> 32101 then 33434 + unat i else unat i - 32102)"
proof -
  have "unat i < 65536" using unat_bound [of i] by simp
  then show ?thesis by (auto simp: unat_word_ariths START_PORT_def mod_if)
qed

lemma unat_udp_port:
  "unat (udp_port i) = (if unat i \<le> 32101 then 33434 + unat i else unat i - 32101)"
proof -
  have "unat i < 65536" using unat_bound [of i] by simp
  then show ?thesis
    by (auto simp: udp_port_def unat_START_PORT_add unat_word_ariths(1) [of "START_PORT + i" 1])
qed

lemma udp_probe_eq:
  "udp_probe self i =
     Inr (replicate (udp_payload_len self) 0, sock_addr_new (udp_target self) (udp_port i))"
proof -
  have i: "unat i < 65536" using unat_bound [of i] by simp
  have over: "snd (overflowing_add START_PORT i) \<longleftrightarrow> \<not> unat i \<le> 32101"
    by (auto simp: overflowing_add_def START_PORT_def)
  have "checked_add (START_PORT + i) 1 = Some (START_PORT + i + 1)" if "\<not> unat i \<le> 32101"
    using that i by (simp add: checked_add_def unat_START_PORT_add)
  then show ?thesis using over
    by (auto simp: udp_probe_def Let_def overflowing_add_def udp_port_def)
qed

text \<open>
  C26: Every probe is sent from a method built for its packet length to a port of the target that
  is never zero, without panicking; up to identifier 32101 the port is 33434 plus the identifier,
  from there on the ports continue at 1, and no two identifiers share a port except 0 and 65535.
\<close>

theorem udp_probe_ports:
  "(\<exists>port. udp_probe self i = Inr (replicate (udp_payload_len self) 0,
                                   sock_addr_new (udp_target self) port) \<and>
      port \<noteq> 0 \<and> (if unat i \<le> 32101 then unat port = 33434 + unat i
                   else unat port = unat i - 32101)) \<and>
   (udp_probe self i = udp_probe self j \<longleftrightarrow> i = j \<or> {i, j} = {0, 65535})"
proof (intro conjI exI [of _ "udp_port i"])
  have b: "unat i < 65536" "unat j < 65536"
    using unat_bound [of i] unat_bound [of j] by simp_all
  show "udp_probe self i = Inr (replicate (udp_payload_len self) 0,
      sock_addr_new (udp_target self) (udp_port i))"
    by (rule udp_probe_eq)
  show "udp_port i \<noteq> 0"
    using unat_udp_port [of i] by (auto split: if_splits)
  show "if unat i \<le> 32101 then unat (udp_port i) = 33434 + unat i
        else unat (udp_port i) = unat i - 32101"
    by (simp add: unat_udp_port)
  have new: "sock_addr_new ip p = sock_addr_new ip q \<longleftrightarrow> p = q" for ip p q
    by (cases ip) simp_all
  have "udp_probe self i = udp_probe self j \<longleftrightarrow> unat (udp_port i) = unat (udp_port j)"
    by (simp add: udp_probe_eq new word_unat_eq_iff)
  also have "\<dots> \<longleftrightarrow> unat i = unat j \<or> (unat i = 0 \<and> unat j = 65535) \<or> (unat i = 65535 \<and> unat j = 0)"
    using b unfolding unat_udp_port by (auto split: if_splits)
  also have "\<dots> \<longleftrightarrow> i = j \<or> {i, j} = {0, 65535}"
    by (auto simp: word_unat_eq_iff doubleton_eq_iff)
  finally show "udp_probe self i = udp_probe self j \<longleftrightarrow> i = j \<or> {i, j} = {0, 65535}" .
qed

section \<open>Identification\<close>

text \<open>
  The kernel reports the destination of the datagram an ICMP error is about; a service that
  answers does so from the address and port the probe was sent to.
\<close>

definition udp_quotes :: "bytes \<Rightarrow> sock_addr \<Rightarrow> reply \<Rightarrow> bool" where
  "udp_quotes p d r \<longleftrightarrow> r_destination r = Some d"

definition udp_answers :: "bytes \<Rightarrow> sock_addr \<Rightarrow> reply \<Rightarrow> bool" where
  "udp_answers p d r \<longleftrightarrow> r_source r = Some d"

definition udp_valid :: "probe_id \<Rightarrow> bool" where
  "udp_valid i \<longleftrightarrow> unat i \<le> 32101"

lemma checked_sub_udp_port:
  "checked_sub (udp_port i) START_PORT =
     (if udp_valid i then Some i else if i = 65535 then Some 0 else None)"
proof -
  have b: "unat i < 65536" using unat_bound [of i] by simp
  have le: "START_PORT \<le> udp_port i \<longleftrightarrow> unat i \<le> 32101 \<or> unat i = 65535"
    using b by (auto simp: word_le_nat_alt unat_udp_port START_PORT_def)
  have "i = 65535 \<longleftrightarrow> unat i = 65535" by (simp add: word_unat_eq_iff)
  moreover have "udp_port 65535 - START_PORT = 0"
    by (simp add: udp_port_def START_PORT_def)
  ultimately show ?thesis
    using le by (auto simp: checked_sub_def udp_valid_def udp_port_def)
qed

lemma udp_identify_own:
  assumes "udp_probe self i = Inr (p, d)"
  shows "udp_quotes p d r \<Longrightarrow> udp_identify_from_error r = checked_sub (udp_port i) START_PORT"
    and "udp_answers p d r \<Longrightarrow>
      identify (udp_replies P (udp_target self)) r = checked_sub (udp_port i) START_PORT"
  using assms by (auto simp: udp_probe_eq udp_quotes_def udp_answers_def
      udp_identify_from_error_def udp_replies_def udp_replies_identify_def)

interpretation udp_codec: probe_codec "\<lambda>_. udp_probe self" udp_identify_from_error
    "identify (udp_replies P (udp_target self))" udp_valid udp_quotes udp_answers for self P
  by unfold_locales (simp_all add: udp_identify_own checked_sub_udp_port)

text \<open>
  C34: A reply about a probe, an ICMP error or the target's own datagram, is identified as that
  probe exactly for the identifiers up to 32101, whose port did not wrap; for the others it is
  discarded, but for identifier 65535, which is taken for identifier 0. A datagram from another
  host is never identified.
\<close>

theorem udp_probe_identified_iff:
  assumes "udp_probe self i = Inr (p, d)"
  shows "(udp_quotes p d r \<longrightarrow>
      identify (error_replies udp_identify_from_error) r =
        (if unat i \<le> 32101 then Some i else if i = 65535 then Some 0 else None)) \<and>
    (udp_answers p d r \<longrightarrow>
      identify (udp_replies P (udp_target self)) r =
        (if unat i \<le> 32101 then Some i else if i = 65535 then Some 0 else None)) \<and>
    (Option.bind (r_source r) sa_ip \<noteq> Some (udp_target self) \<longrightarrow>
      identify (udp_replies P (udp_target self)) r = None)"
proof -
  have "identify (udp_replies P (udp_target self)) r = None"
    if "Option.bind (r_source r) sa_ip \<noteq> Some (udp_target self)"
    using that by (cases "r_source r")
      (auto simp: udp_replies_def udp_replies_identify_def as_socket_def split: option.splits)
  then show ?thesis
    using udp_identify_own [OF assms] by (simp add: checked_sub_udp_port udp_valid_def)
qed

theorem udp_probe_identified_iff_witness:
  "identify (error_replies udp_identify_from_error)
     \<lparr>r_source = None, r_destination = Some (SockV4 1 34668), r_quoted = [], r_error = None\<rparr> =
     Some 1234 \<and>
   identify (error_replies udp_identify_from_error)
     \<lparr>r_source = None, r_destination = Some (SockV4 1 1), r_quoted = [], r_error = None\<rparr> = None"
proof -
  let ?self = "\<lparr>udp_target = V4 1, udp_payload_len = 0\<rparr>"
  have p: "udp_probe ?self 1234 = Inr ([], SockV4 1 34668)"
    "udp_probe ?self 32102 = Inr ([], SockV4 1 1)"
    by (simp_all add: udp_probe_eq udp_port_def START_PORT_def)
  show ?thesis
    using udp_probe_identified_iff [OF p(1), of "\<lparr>r_source = None,
        r_destination = Some (SockV4 1 34668), r_quoted = [], r_error = None\<rparr>"]
      udp_probe_identified_iff [OF p(2), of "\<lparr>r_source = None,
        r_destination = Some (SockV4 1 1), r_quoted = [], r_error = None\<rparr>"]
    by (simp add: udp_quotes_def)
qed

text \<open>
  A UDP method is built exactly for packet lengths that hold the IP and UDP headers, and its
  probes then have, with the headers, exactly the requested length.
\<close>

lemma udp_probe_length:
  "(packet_len < udp_min_packet_len target \<longrightarrow>
      udp_try_new target packet_len =
        Inl (Fail (PacketTooSmall (udp_min_packet_len target) ''udp''))) \<and>
   (udp_min_packet_len target \<le> packet_len \<longrightarrow>
      (\<exists>self packet d. udp_try_new target packet_len = Inr self \<and>
         udp_probe self i = Inr (packet, d) \<and> sa_ip d = Some target \<and>
         (case target of V4 _ \<Rightarrow> 28 | V6 _ \<Rightarrow> 48) + length packet = packet_len \<and>
         length packet = udp_max_reply_len self \<and> set packet \<subseteq> {0}))"
proof -
  have "sa_ip (sock_addr_new target port) = Some target" for port
    by (cases target) simp_all
  then show ?thesis
    by (cases target)
      (auto simp: udp_try_new_def udp_probe_eq udp_max_reply_len_def checked_sub_usize_def
        udp_min_packet_len_def MIN_IPV4_HEADER_LEN_def IPV6_HEADER_LENGTH_def UDP_HEADER_LEN_def)
qed

end
