(* ===== verification/Method_Tcp.thy ===== *)
theory Method_Tcp
  imports Methods
begin

unbundle bit_operations_syntax

text \<open>
  src/src/method/tcp.rs: SYN segments whose sequence number is the probe's identifier. The packet
  views of the \<open>pnet\<close> crate are a record of functions the definitions take as an argument; the
  locale \<open>tcp_wire\<close> states the documented behaviour the code relies on (the field offsets of
  RFC 9293 and which bytes a setter touches) and is interpreted with \<open>rfc_pnet\<close>, an executable
  implementation of that layout.
\<close>

section \<open>Packet views\<close>

datatype tcp_option =
    TcpMss u16
  | TcpSackPerm
  | TcpTimestamp u32 u32
  | TcpNop
  | TcpWscale u8

record pnet =
  tcp_view_ok :: "bytes \<Rightarrow> bool"      \<comment> \<open>\<open>TcpPacket::new\<close>, \<open>MutableTcpPacket::new\<close> return \<open>Some\<close>\<close>
  get_source :: "bytes \<Rightarrow> u16"
  get_destination :: "bytes \<Rightarrow> u16"
  get_acknowledgement :: "bytes \<Rightarrow> u32"
  set_source :: "u16 \<Rightarrow> bytes \<Rightarrow> bytes"
  set_destination :: "u16 \<Rightarrow> bytes \<Rightarrow> bytes"
  set_sequence :: "u32 \<Rightarrow> bytes \<Rightarrow> bytes"
  set_flags :: "u8 \<Rightarrow> bytes \<Rightarrow> bytes"
  set_data_offset :: "u8 \<Rightarrow> bytes \<Rightarrow> bytes"
  set_options :: "tcp_option list \<Rightarrow> bytes \<Rightarrow> bytes"
  set_checksum :: "u16 \<Rightarrow> bytes \<Rightarrow> bytes"
  ipv4_checksum :: "bytes \<Rightarrow> 32 word \<Rightarrow> 32 word \<Rightarrow> u16"
  ipv6_checksum :: "bytes \<Rightarrow> 128 word \<Rightarrow> 128 word \<Rightarrow> u16"
  ipv4_view_ok :: "bytes \<Rightarrow> bool"     \<comment> \<open>\<open>Ipv4Packet::new\<close> returns \<open>Some\<close>\<close>
  ipv4_payload :: "bytes \<Rightarrow> bytes"
  flags_SYN :: u8

section \<open>The method\<close>

definition TCP_MIN_HEADER_LEN :: nat where "TCP_MIN_HEADER_LEN = 20"
definition TCP_SYN_OPTIONS_LEN :: nat where "TCP_SYN_OPTIONS_LEN = 20"
definition DEST_PORT :: u16 where "DEST_PORT = 80"

record tcp =
  tcp_target :: ip_addr
  tcp_source :: "ip_addr \<times> u16"
  tcp_dummy_sock :: fd

definition tcp_replies_identify ::
    "pnet \<Rightarrow> ip_addr \<Rightarrow> ip_addr \<times> u16 \<Rightarrow> reply \<Rightarrow> probe_id option" where
  "tcp_replies_identify N target source r =
     Option.bind (r_source r) (\<lambda>a.
     Option.bind (as_socket a) (\<lambda>(ip, _).
     if ip \<noteq> target then None else
     Option.bind
       (case target of
          V4 _ \<Rightarrow> (if ipv4_view_ok N (r_quoted r) then Some (ipv4_payload N (r_quoted r)) else None)
        | V6 _ \<Rightarrow> Some (r_quoted r)) (\<lambda>tcp_payload.
     if \<not> tcp_view_ok N tcp_payload then None
     else if (get_source N tcp_payload, get_destination N tcp_payload) \<noteq> (DEST_PORT, snd source)
       then None
     else Option.bind (checked_sub (get_acknowledgement N tcp_payload) 1) u16_try_from)))"

definition tcp_replies :: "platform \<Rightarrow> pnet \<Rightarrow> ip_addr \<Rightarrow> ip_addr \<times> u16 \<Rightarrow> replies" where
  "tcp_replies P N target source =
     \<lparr>identify = tcp_replies_identify N target source,
      classify = (\<lambda>_. Destination),
      ignores_read_error = (\<lambda>error. error = - EHOSTUNREACH P)\<rparr>"

definition tcp_identify_from_error :: "reply \<Rightarrow> u16 \<Rightarrow> probe_id option" where
  "tcp_identify_from_error r want_source_port =
     Option.bind (get_range (r_quoted r) 0 2) (\<lambda>source_port.
     if u16_from_be source_port \<noteq> want_source_port then None else
     Option.bind (get_range (r_quoted r) 4 8) (\<lambda>sequence.
     u16_try_from (u32_from_be sequence)))"

text \<open>\<open>local_addr()?.as_socket().context(...)?\<close>\<close>

definition local_socket_addr :: "os \<Rightarrow> fd \<Rightarrow> (ip_addr \<times> u16) io" where
  "local_socket_addr sys socket =
     io_bind (io_call (os_addr sys) (SysLocalAddr socket)) (\<lambda>a.
     io_lift (ok_or (Fail NotASocketAddress) (as_socket a)))"

definition tcp_try_new :: "os \<Rightarrow> ip_addr \<Rightarrow> tcp io" where
  "tcp_try_new sys target =
     io_bind (bound_socket sys Stream ProtoTcp ProtoTcp target) (\<lambda>dummy_sock.
     io_bind (local_socket_addr sys dummy_sock) (\<lambda>(_, source_port).
     io_bind (bound_socket sys Dgram ProtoUdp ProtoUdp target) (\<lambda>socket.
     io_bind (io_call (os_unit sys) (SysConnect socket (sock_addr_new target DEST_PORT))) (\<lambda>_.
     io_bind (local_socket_addr sys socket) (\<lambda>(source_ip, _).
     io_return \<lparr>tcp_target = target, tcp_source = (source_ip, source_port),
                tcp_dummy_sock = dummy_sock\<rparr>)))))"

definition tcp_open :: "platform \<Rightarrow> pnet \<Rightarrow> os \<Rightarrow> tcp \<Rightarrow> (fd \<times> reply_queue list) io" where
  "tcp_open P N sys self =
     io_bind (bound_socket sys Raw ProtoTcp ProtoTcp (tcp_target self)) (\<lambda>socket.
     let source_port = snd (tcp_source self) in
     io_return
       (socket,
        [\<lparr>q_socket = socket, q_err_queue = False,
          q_replies = tcp_replies P N (tcp_target self) (tcp_source self)\<rparr>,
         \<lparr>q_socket = socket, q_err_queue = True,
          q_replies = error_replies (\<lambda>r. tcp_identify_from_error r source_port)\<rparr>]))"

text \<open>
  The clock is nanoseconds since the epoch; before it \<open>duration_since(UNIX_EPOCH).unwrap()\<close>
  panics.
\<close>

definition unix_millis :: "int \<Rightarrow> u32 rust" where
  "unix_millis now =
     (if now < 0 then Inl (Panic UnwrapUnixTime) else Inr (of_int (now div 1000000)))"

definition tcp_mss :: "ip_addr \<Rightarrow> u16" where
  "tcp_mss target = (case target of V4 _ \<Rightarrow> 1460 | V6 _ \<Rightarrow> 1440)"

definition tcp_checksum :: "pnet \<Rightarrow> bytes \<Rightarrow> ip_addr \<Rightarrow> ip_addr \<Rightarrow> u16 rust" where
  "tcp_checksum N packet source target =
     (case (source, target) of
        (V4 s, V4 t) \<Rightarrow> Inr (ipv4_checksum N packet s t)
      | (V6 s, V6 t) \<Rightarrow> Inr (ipv6_checksum N packet s t)
      | _ \<Rightarrow> Inl (Panic UnreachableFamilies))"

definition tcp_probe :: "pnet \<Rightarrow> tcp \<Rightarrow> int \<Rightarrow> probe_id \<Rightarrow> (bytes \<times> sock_addr) rust" where
  "tcp_probe N self now i =
     (let total_len = TCP_MIN_HEADER_LEN + TCP_SYN_OPTIONS_LEN;
          packet = replicate total_len 0
      in if \<not> tcp_view_ok N packet then Inl (Panic UnwrapTcpPacket) else
      let packet = set_source N (snd (tcp_source self)) packet;
          packet = set_destination N DEST_PORT packet;
          packet = set_sequence N (ucast i) packet;
          packet = set_flags N (flags_SYN N) packet;
          packet = set_data_offset N (of_nat total_len div 4) packet;
          mss = tcp_mss (tcp_target self)
      in try_bind (unix_millis now) (\<lambda>timestamp.
      let packet = set_options N
            [TcpMss mss, TcpSackPerm, TcpTimestamp timestamp 0, TcpNop, TcpWscale 7] packet
      in try_bind (tcp_checksum N packet (fst (tcp_source self)) (tcp_target self)) (\<lambda>checksum.
      let packet = set_checksum N checksum packet
      in Inr (packet, sock_addr_new (tcp_target self) DEST_PORT))))"

definition tcp_max_reply_len :: "tcp \<Rightarrow> nat" where
  "tcp_max_reply_len self =
     (case tcp_target self of V4 _ \<Rightarrow> MIN_IPV4_HEADER_LEN | V6 _ \<Rightarrow> 0) + TCP_MIN_HEADER_LEN"

definition tcp_method :: "platform \<Rightarrow> pnet \<Rightarrow> os \<Rightarrow> tcp \<Rightarrow> method_ops" where
  "tcp_method P N sys self =
     \<lparr>m_open = tcp_open P N sys self, m_probe = tcp_probe N self,
      m_max_reply_len = tcp_max_reply_len self\<rparr>"

section \<open>The wire format\<close>

fun option_bytes :: "tcp_option \<Rightarrow> bytes" where
  "option_bytes (TcpMss v) = [2, 4] @ u16_to_be v"
| "option_bytes TcpSackPerm = [4, 2]"
| "option_bytes (TcpTimestamp a b) = [8, 10] @ u32_to_be a @ u32_to_be b"
| "option_bytes TcpNop = [1]"
| "option_bytes (TcpWscale v) = [3, 3, v]"

definition header_len :: "bytes \<Rightarrow> nat" where
  "header_len p = 4 * unat (drop_bit 4 (p ! 12))"

text \<open>
  What the code relies on: a view needs the 20 bytes of the fixed header; the getters and setters
  read and write the header's fields where RFC 9293 puts them; options that fill the header
  the data offset announces are written behind the fixed part; and the checksums
  do not depend on the checksum field.
\<close>

definition tcp_wire_ok :: "pnet \<Rightarrow> bool" where
  "tcp_wire_ok N \<longleftrightarrow>
     (\<forall>p. tcp_view_ok N p \<longleftrightarrow> 20 \<le> length p) \<and> flags_SYN N = 2 \<and>
     (\<forall>p. 20 \<le> length p \<longrightarrow>
        get_source N p = u16_from_be (field p 0 2) \<and>
        get_destination N p = u16_from_be (field p 2 2) \<and>
        get_acknowledgement N p = u32_from_be (field p 8 4) \<and>
        (\<forall>v. set_source N v p = write_at p 0 (u16_to_be v) \<and>
             set_destination N v p = write_at p 2 (u16_to_be v) \<and>
             set_checksum N v p = write_at p 16 (u16_to_be v)) \<and>
        (\<forall>v. set_sequence N v p = write_at p 4 (u32_to_be v)) \<and>
        (\<forall>v. set_flags N v p = p[13 := v] \<and>
             set_data_offset N v p = p[12 := push_bit 4 v OR (p ! 12 AND 15)]) \<and>
        (\<forall>os. 20 + length (concat (map option_bytes os)) = header_len p \<longrightarrow> header_len p \<le> length p \<longrightarrow>
             set_options N os p = write_at p 20 (concat (map option_bytes os))) \<and>
        (\<forall>v s t. ipv4_checksum N (write_at p 16 (u16_to_be v)) s t = ipv4_checksum N p s t) \<and>
        (\<forall>v s t. ipv6_checksum N (write_at p 16 (u16_to_be v)) s t = ipv6_checksum N p s t))"

text \<open>
  The segment of a probe: ports, sequence number, no acknowledgement, ten words of header, SYN, no
  window, checksum, no urgent pointer, and the options.
\<close>

definition syn_segment :: "u16 \<Rightarrow> u32 \<Rightarrow> u16 \<Rightarrow> u32 \<Rightarrow> u16 \<Rightarrow> bytes" where
  "syn_segment source_port sequence mss timestamp checksum =
     u16_to_be source_port @ u16_to_be 80 @ u32_to_be sequence @ [0, 0, 0, 0] @ [0xA0, 2, 0, 0] @
     u16_to_be checksum @ [0, 0] @
     [2, 4] @ u16_to_be mss @ [4, 2] @ [8, 10] @ u32_to_be timestamp @ [0, 0, 0, 0] @ [1] @ [3, 3, 7]"

lemma length_syn_segment [simp]: "length (syn_segment sp i mss ts c) = 40"
  by (simp add: syn_segment_def)

lemma take_syn_segment: "take 8 (syn_segment sp i mss ts c) = u16_to_be sp @ u16_to_be 80 @ u32_to_be i"
  by (simp add: syn_segment_def)

lemma zero_to_be: "u16_to_be 0 = [0, 0]" "u32_to_be 0 = [0, 0, 0, 0]"
  by code_simp+

lemma write_checksum: "write_at (syn_segment sp i mss ts c) 16 (u16_to_be d) = syn_segment sp i mss ts d"
  by (simp add: syn_segment_def write_at_def)

locale tcp_wire =
  fixes N :: pnet
  assumes wire: "tcp_wire_ok N"
begin

lemma view_iff: "tcp_view_ok N p \<longleftrightarrow> 20 \<le> length p"
  using wire by (simp add: tcp_wire_ok_def)

lemma getters:
  assumes "20 \<le> length p"
  shows "get_source N p = u16_from_be (field p 0 2)"
    and "get_destination N p = u16_from_be (field p 2 2)"
    and "get_acknowledgement N p = u32_from_be (field p 8 4)"
  using wire assms by (simp_all add: tcp_wire_ok_def)

lemma setters:
  assumes "20 \<le> length p"
  shows "set_source N v p = write_at p 0 (u16_to_be v)"
    and "set_destination N v p = write_at p 2 (u16_to_be v)"
    and "set_sequence N w p = write_at p 4 (u32_to_be w)"
    and "set_checksum N v p = write_at p 16 (u16_to_be v)"
    and "set_flags N (flags_SYN N) p = p[13 := 2]"
    and "set_data_offset N b p = p[12 := push_bit 4 b OR (p ! 12 AND 15)]"
  using wire assms by (simp_all add: tcp_wire_ok_def)

lemma set_options:
  assumes "20 + length (concat (map option_bytes os)) = header_len p" "header_len p \<le> length p"
  shows "set_options N os p = write_at p 20 (concat (map option_bytes os))"
proof -
  have "20 \<le> length p" using assms by linarith
  with wire assms show ?thesis unfolding tcp_wire_ok_def by blast
qed

lemma checksum_skips_field:
  "tcp_checksum N (syn_segment sp i mss ts c) s t = tcp_checksum N (syn_segment sp i mss ts d) s t"
proof -
  have "20 \<le> length (syn_segment sp i mss ts d)" by simp
  then have "ipv4_checksum N (syn_segment sp i mss ts c) x y = ipv4_checksum N (syn_segment sp i mss ts d) x y"
    "ipv6_checksum N (syn_segment sp i mss ts c) x' y' = ipv6_checksum N (syn_segment sp i mss ts d) x' y'"
    for x y x' y'
    using wire unfolding tcp_wire_ok_def write_checksum [of sp i mss ts d c, symmetric] by blast+
  then show ?thesis by (simp add: tcp_checksum_def split: ip_addr.split)
qed

text \<open>The packet of a probe.\<close>

lemma probe_segment:
  assumes "0 \<le> now"
  shows "tcp_probe N self now i =
    (let segment = syn_segment (snd (tcp_source self)) (ucast i) (tcp_mss (tcp_target self)) (of_int (now div 1000000))
     in try_bind (tcp_checksum N (segment 0) (fst (tcp_source self)) (tcp_target self)) (\<lambda>c.
          Inr (segment c, sock_addr_new (tcp_target self) 80)))"
proof -
  let ?os = "[TcpMss (tcp_mss (tcp_target self)), TcpSackPerm, TcpTimestamp (of_int (now div 1000000)) 0, TcpNop, TcpWscale 7]"
  define p1 where "p1 = set_sequence N (ucast i) (set_destination N DEST_PORT
      (set_source N (snd (tcp_source self)) (replicate 40 0)))"
  define start where "start = u16_to_be (snd (tcp_source self)) @ u16_to_be 80 @ u32_to_be (ucast i)"
  have start: "length start = 8" by (simp add: start_def)
  have p1: "p1 = start @ replicate 32 0"
    by (simp add: p1_def setters start_def DEST_PORT_def write_at_def)
  define p2 where "p2 = set_data_offset N 10 (set_flags N (flags_SYN N) p1)"
  have p2: "p2 = start @ [0, 0, 0, 0, 0xA0, 2, 0, 0, 0, 0, 0, 0] @ replicate 20 0"
    using start by (simp add: p2_def p1 setters list_update_append nth_append numeral_eq_Suc)
  have "header_len p2 = 40" using start by (simp add: header_len_def p2 nth_append)
  then have "set_options N ?os p2 = write_at p2 20 (concat (map option_bytes ?os))"
    using start by (intro set_options) (simp_all add: p2)
  also have "\<dots> = syn_segment (snd (tcp_source self)) (ucast i) (tcp_mss (tcp_target self)) (of_int (now div 1000000)) 0"
    using start by (simp add: p2 write_at_def syn_segment_def start_def zero_to_be)
  finally show ?thesis
    using assms by (simp add: tcp_probe_def Let_def TCP_MIN_HEADER_LEN_def TCP_SYN_OPTIONS_LEN_def view_iff
        unix_millis_def p1_def p2_def setters write_checksum DEST_PORT_def)
qed

lemma probe_packet:
  assumes "0 \<le> now" and "family_of (fst (tcp_source self)) = family_of (tcp_target self)"
  shows "\<exists>packet. tcp_probe N self now i =
      Inr (packet, sock_addr_new (tcp_target self) DEST_PORT) \<and> length packet = 40 \<and>
      take 8 packet = u16_to_be (snd (tcp_source self)) @ u16_to_be DEST_PORT @
        u32_to_be (ucast i)"
proof -
  have "\<exists>c. tcp_checksum N p (fst (tcp_source self)) (tcp_target self) = Inr c" for p
    using assms(2) by (cases "fst (tcp_source self)"; cases "tcp_target self")
      (auto simp: tcp_checksum_def family_of_def)
  then obtain c where "tcp_checksum N (syn_segment (snd (tcp_source self)) (ucast i) (tcp_mss (tcp_target self))
      (of_int (now div 1000000)) 0) (fst (tcp_source self)) (tcp_target self) = Inr c" by blast
  then show ?thesis
    using probe_segment [OF assms(1), of self i] by (simp add: Let_def DEST_PORT_def take_syn_segment)
qed

text \<open>A probe that was built had a legal clock and addresses of one family.\<close>

lemma probe_Inr:
  assumes "tcp_probe N self now i = Inr (p, d)"
  shows "0 \<le> now" "family_of (fst (tcp_source self)) = family_of (tcp_target self)"
proof -
  show "0 \<le> now"
    using assms by (auto simp: tcp_probe_def Let_def unix_millis_def split: if_splits)
  show "family_of (fst (tcp_source self)) = family_of (tcp_target self)"
    using assms by (auto simp: tcp_probe_def Let_def try_bind_Inr_iff tcp_checksum_def family_of_def
        split: if_splits ip_addr.splits)
qed

lemma probe_is_segment:
  assumes "tcp_probe N self now i = Inr (packet, d)"
  shows "d = sock_addr_new (tcp_target self) 80 \<and>
      (\<exists>checksum. tcp_checksum N packet (fst (tcp_source self)) (tcp_target self) = Inr checksum \<and>
         packet = syn_segment (snd (tcp_source self)) (ucast i) (tcp_mss (tcp_target self))
           (of_int (now div 1000000)) checksum)"
proof -
  let ?segment = "syn_segment (snd (tcp_source self)) (ucast i) (tcp_mss (tcp_target self)) (of_int (now div 1000000))"
  obtain c where c: "tcp_checksum N (?segment 0) (fst (tcp_source self)) (tcp_target self) = Inr c"
    "packet = ?segment c" "d = sock_addr_new (tcp_target self) 80"
    using assms probe_segment [OF probe_Inr(1) [OF assms], of self i]
    by (auto simp: Let_def try_bind_Inr_iff)
  have "tcp_checksum N packet (fst (tcp_source self)) (tcp_target self) = Inr c"
    unfolding c(2) c(1) [symmetric] by (rule checksum_skips_field)
  with c show ?thesis by blast
qed

lemma probe_bytes:
  assumes "tcp_probe N self now i = Inr (p, d)"
  shows "length p = 40" "d = sock_addr_new (tcp_target self) DEST_PORT"
    "field p 0 2 = u16_to_be (snd (tcp_source self))" "field p 4 4 = u32_to_be (ucast i)"
proof -
  obtain packet where "tcp_probe N self now i =
      Inr (packet, sock_addr_new (tcp_target self) DEST_PORT)" "length packet = 40"
    "take 8 packet = u16_to_be (snd (tcp_source self)) @ u16_to_be DEST_PORT @ u32_to_be (ucast i)"
    using probe_packet [OF probe_Inr [OF assms]] by blast
  with assms have p: "length p = 40" "d = sock_addr_new (tcp_target self) DEST_PORT"
    "take 8 p = u16_to_be (snd (tcp_source self)) @ u16_to_be DEST_PORT @ u32_to_be (ucast i)"
    by simp_all
  show "length p = 40" "d = sock_addr_new (tcp_target self) DEST_PORT" by fact+
  show "field p 0 2 = u16_to_be (snd (tcp_source self))" "field p 4 4 = u32_to_be (ucast i)"
    unfolding field_take [of 0 2 8 p, simplified, symmetric] field_take [of 4 4 8 p, simplified, symmetric]
    using p(3) by (simp_all add: field_def)
qed

end

section \<open>Identification\<close>

text \<open>
  The error queue of a raw socket quotes the segment from its first byte. The target answers with
  a segment from the probed port to ours that acknowledges the SYN, sequence number plus one; a
  raw IPv4 socket delivers it with its IP header.
\<close>

definition tcp_quotes :: "bytes \<Rightarrow> sock_addr \<Rightarrow> reply \<Rightarrow> bool" where
  "tcp_quotes p d r \<longleftrightarrow> 8 \<le> length (r_quoted r) \<and> take 8 (r_quoted r) = take 8 p"

definition received_segment :: "pnet \<Rightarrow> ip_addr \<Rightarrow> bytes \<Rightarrow> bytes \<Rightarrow> bool" where
  "received_segment N target quoted segment \<longleftrightarrow>
     (case target of V4 _ \<Rightarrow> ipv4_view_ok N quoted \<and> segment = ipv4_payload N quoted
      | V6 _ \<Rightarrow> segment = quoted)"

definition tcp_answers :: "pnet \<Rightarrow> tcp \<Rightarrow> bytes \<Rightarrow> sock_addr \<Rightarrow> reply \<Rightarrow> bool" where
  "tcp_answers N self p d r \<longleftrightarrow>
     (\<exists>a segment. r_source r = Some a \<and> sa_ip a = Some (tcp_target self) \<and>
        received_segment N (tcp_target self) (r_quoted r) segment \<and> 20 \<le> length segment \<and>
        field segment 0 2 = u16_to_be DEST_PORT \<and>
        field segment 2 2 = u16_to_be (snd (tcp_source self)) \<and>
        u32_from_be (field segment 8 4) = u32_from_be (field p 4 4) + 1)"

lemma unat_ucast_u16: "unat (ucast (i :: u16) :: u32) = unat i"
  using unat_bound [of i] by (simp add: unsigned_ucast_eq take_bit_nat_eq_self)

lemma u16_try_from_ucast: "u16_try_from (ucast (i :: u16) :: u32) = Some i"
proof -
  have "ucast (ucast i :: u32) = i" by (rule ucast_up_ucast_id) (simp add: is_up)
  then show ?thesis using unat_bound [of i] by (simp add: u16_try_from_def unat_ucast_u16)
qed

lemma ucast_u16_try_from: "u16_try_from (s :: u32) = Some i \<Longrightarrow> s = ucast i"
  by (auto simp: u16_try_from_def word_unat_eq_iff unat_ucast_u16 unsigned_ucast_eq take_bit_nat_eq_self split: if_splits)

lemma acknowledged_sequence: "checked_sub (ucast (i :: u16) + 1 :: u32) 1 = Some (ucast i)"
proof -
  have "unat (ucast i + 1 :: u32) = unat i + 1"
    using unat_bound [of i] by (simp add: unat_word_ariths unat_ucast_u16)
  then show ?thesis by (simp add: checked_sub_def word_le_nat_alt)
qed

lemma as_socket_ip: "sa_ip a = Some ip \<Longrightarrow> \<exists>port. as_socket a = Some (ip, port)"
  by (cases a) auto

context tcp_wire begin

lemma quote_is_identified:
  assumes "tcp_probe N self now i = Inr (p, d)" and "tcp_quotes p d r"
  shows "tcp_identify_from_error r (snd (tcp_source self)) = Some i"
proof -
  have t: "take 8 (r_quoted r) = take 8 p" "8 \<le> length (r_quoted r)"
    using assms(2) by (simp_all add: tcp_quotes_def)
  have "field (take 8 xs) 0 2 = field xs 0 2" "field (take 8 xs) 4 4 = field xs 4 4" for xs :: bytes
    by (simp_all add: field_take)
  with t(1) have "field (r_quoted r) 0 2 = field p 0 2" "field (r_quoted r) 4 4 = field p 4 4"
    by metis+
  with t(2) have q: "field (r_quoted r) 0 2 = field p 0 2" "field (r_quoted r) 4 4 = field p 4 4"
    "8 \<le> length (r_quoted r)" by blast+
  then show ?thesis
    using probe_bytes [OF assms(1)]
    by (simp add: tcp_identify_from_error_def get_range_field u16_try_from_ucast)
qed

lemma answer_is_identified:
  assumes "tcp_probe N self now i = Inr (p, d)" and "tcp_answers N self p d r"
  shows "tcp_replies_identify N (tcp_target self) (tcp_source self) r = Some i"
proof -
  obtain a segment port where a: "r_source r = Some a" "as_socket a = Some (tcp_target self, port)"
    and seg: "received_segment N (tcp_target self) (r_quoted r) segment" "20 \<le> length segment"
    and fields: "field segment 0 2 = u16_to_be DEST_PORT"
      "field segment 2 2 = u16_to_be (snd (tcp_source self))"
      "u32_from_be (field segment 8 4) = u32_from_be (field p 4 4) + 1"
    using assms(2) by (auto simp: tcp_answers_def dest!: as_socket_ip)
  have "u32_from_be (field segment 8 4) = ucast i + 1"
    using fields(3) probe_bytes(4) [OF assms(1)] by simp
  then show ?thesis
    using a seg fields by (cases "tcp_target self")
      (simp_all add: tcp_replies_identify_def received_segment_def view_iff getters
        acknowledged_sequence u16_try_from_ucast)
qed

text \<open>Nothing but an acknowledgement of a probe from its target and port is identified as that probe.\<close>

lemma identified_fields:
  assumes "tcp_replies_identify N target source r = Some i"
    and "received_segment N target (r_quoted r) segment"
  shows "Option.bind (r_source r) sa_ip = Some target" "20 \<le> length segment"
    "field segment 0 2 = u16_to_be DEST_PORT" "field segment 2 2 = u16_to_be (snd source)"
    "u32_from_be (field segment 8 4) \<noteq> 0" "u32_from_be (field segment 8 4) = ucast i + 1"
proof -
  obtain a port where a: "r_source r = Some a" "as_socket a = Some (target, port)"
    and seg: "20 \<le> length segment"
    and ports: "get_source N segment = DEST_PORT" "get_destination N segment = snd source"
    and ack: "Option.bind (checked_sub (get_acknowledgement N segment) 1) u16_try_from = Some i"
    using assms
    by (auto simp: tcp_replies_identify_def received_segment_def view_iff bind_eq_Some_conv
        split: ip_addr.splits if_splits)
  show "Option.bind (r_source r) sa_ip = Some target" using a by (cases a) auto
  show "20 \<le> length segment" by (rule seg)
  show "field segment 0 2 = u16_to_be DEST_PORT" "field segment 2 2 = u16_to_be (snd source)"
    using ports seg u16_to_from_be [of "field segment 0 2"] u16_to_from_be [of "field segment 2 2"]
    by (simp_all add: getters length_field)
  have "1 \<le> u32_from_be (field segment 8 4)" "u32_from_be (field segment 8 4) - 1 = ucast i"
    using ack seg ucast_u16_try_from by (auto simp: getters bind_eq_Some_conv checked_sub_Some_iff)
  then show "u32_from_be (field segment 8 4) \<noteq> 0" "u32_from_be (field segment 8 4) = ucast i + 1"
    by (auto simp: diff_eq_eq)
qed

lemma identified_answers:
  assumes "tcp_probe N self now i = Inr (p, d)"
    and "tcp_replies_identify N (tcp_target self) (tcp_source self) r = Some i"
  shows "tcp_answers N self p d r"
proof -
  obtain segment where seg: "received_segment N (tcp_target self) (r_quoted r) segment"
    using assms(2)
    by (auto simp: tcp_replies_identify_def received_segment_def bind_eq_Some_conv
        split: ip_addr.splits if_splits)
  note f = identified_fields [OF assms(2) seg]
  show ?thesis
    using f seg probe_bytes(4) [OF assms(1)] unfolding tcp_answers_def
    by (auto simp: bind_eq_Some_conv)
qed

sublocale codec: probe_codec "tcp_probe N self" "\<lambda>r. tcp_identify_from_error r (snd (tcp_source self))"
    "tcp_replies_identify N (tcp_target self) (tcp_source self)" "\<lambda>_. True" tcp_quotes
    "tcp_answers N self" for self
  by unfold_locales (auto intro: quote_is_identified answer_is_identified)

lemma segments_differ:
  assumes "tcp_probe N self now i = Inr (p, d)" "tcp_probe N self later j = Inr (q, e)" "i \<noteq> j"
  shows "take 8 p \<noteq> take 8 q"
proof
  assume "take 8 p = take 8 q"
  then have "tcp_quotes p d \<lparr>r_source = None, r_destination = None, r_quoted = p, r_error = None\<rparr>"
    "tcp_quotes q e \<lparr>r_source = None, r_destination = None, r_quoted = p, r_error = None\<rparr>"
    using probe_bytes(1) [OF assms(1)] by (simp_all add: tcp_quotes_def)
  then show False using codec.quote_unambiguous [OF TrueI assms(1) _ TrueI assms(2)] assms(3) by blast
qed

end

section \<open>An implementation of the wire format\<close>

fun sum16 :: "bytes \<Rightarrow> nat" where
  "sum16 (a # b # bs) = unat a * 256 + unat b + sum16 bs"
| "sum16 [a] = unat a * 256"
| "sum16 [] = 0"

definition fold16 :: "nat \<Rightarrow> nat" where
  "fold16 s = s mod 65536 + s div 65536"

definition internet_checksum :: "bytes \<Rightarrow> u16" where
  "internet_checksum bs = NOT (of_nat (fold16 (fold16 (sum16 bs))))"

definition rfc_pnet :: pnet where
  "rfc_pnet = \<lparr>
     tcp_view_ok = (\<lambda>p. 20 \<le> length p),
     get_source = (\<lambda>p. u16_from_be (field p 0 2)),
     get_destination = (\<lambda>p. u16_from_be (field p 2 2)),
     get_acknowledgement = (\<lambda>p. u32_from_be (field p 8 4)),
     set_source = (\<lambda>v p. write_at p 0 (u16_to_be v)),
     set_destination = (\<lambda>v p. write_at p 2 (u16_to_be v)),
     set_sequence = (\<lambda>v p. write_at p 4 (u32_to_be v)),
     set_flags = (\<lambda>v p. p[13 := v]),
     set_data_offset = (\<lambda>v p. p[12 := push_bit 4 v OR (p ! 12 AND 15)]),
     set_options = (\<lambda>os p. write_at p 20 (take (length p - 20) (concat (map option_bytes os)))),
     set_checksum = (\<lambda>v p. write_at p 16 (u16_to_be v)),
     ipv4_checksum = (\<lambda>p s t. internet_checksum
       (be_bytes 4 (unat s) @ be_bytes 4 (unat t) @ [0, 6] @ be_bytes 2 (length p) @
        write_at p 16 [0, 0])),
     ipv6_checksum = (\<lambda>p s t. internet_checksum
       (be_bytes 16 (unat s) @ be_bytes 16 (unat t) @ be_bytes 4 (length p) @ [0, 0, 0, 6] @
        write_at p 16 [0, 0])),
     ipv4_view_ok = (\<lambda>p. 20 \<le> length p),
     ipv4_payload = (\<lambda>p. let header = 4 * unat (p ! 0 AND 15) in
       take (be_nat (field p 2 2) - header) (drop header p)),
     flags_SYN = 2 \<rparr>"

lemma write_at_twice:
  "i + length a \<le> length p \<Longrightarrow> length b = length a \<Longrightarrow> write_at (write_at p i a) i b = write_at p i b"
  by (simp add: write_at_def)

lemma tcp_wire_ok_rfc: "tcp_wire_ok rfc_pnet"
  by (auto simp: tcp_wire_ok_def rfc_pnet_def write_at_twice)

interpretation rfc: tcp_wire rfc_pnet
  by unfold_locales (rule tcp_wire_ok_rfc)

section \<open>Properties\<close>

text \<open>
  C35: A TCP probe is built without a panic exactly when the clock is not before the Unix epoch
  and source and target have the same family. It then goes to port 80 of the target and is, byte for
  byte, the segment of 40 bytes described by \<open>syn_segment\<close>: a SYN from the source port with the probe's
  identifier as its sequence number, the options of a Linux SYN with the family's segment size
  and the clock's milliseconds, and a checksum that is valid for the segment itself.
\<close>

theorem tcp_probe_packet:
  assumes "tcp_wire_ok N"
  shows "(never_panics (tcp_probe N self now i) \<longleftrightarrow>
      0 \<le> now \<and> family_of (fst (tcp_source self)) = family_of (tcp_target self)) \<and>
    (\<forall>packet d. tcp_probe N self now i = Inr (packet, d) \<longrightarrow>
      d = sock_addr_new (tcp_target self) 80 \<and>
      (\<exists>checksum. tcp_checksum N packet (fst (tcp_source self)) (tcp_target self) = Inr checksum \<and>
         packet = syn_segment (snd (tcp_source self)) (ucast i) (tcp_mss (tcp_target self))
           (of_int (now div 1000000)) checksum))"
proof -
  note W = tcp_wire.intro [OF assms]
  let ?ok = "0 \<le> now \<and> family_of (fst (tcp_source self)) = family_of (tcp_target self)"
  have "?ok" if "never_panics (tcp_probe N self now i)"
    using that tcp_wire.view_iff [OF W]
    by (auto simp: tcp_probe_def Let_def unix_millis_def tcp_checksum_def family_of_def
        TCP_MIN_HEADER_LEN_def TCP_SYN_OPTIONS_LEN_def split: if_splits ip_addr.splits)
  moreover have "never_panics (tcp_probe N self now i)" if ok: ?ok
  proof -
    obtain packet where "tcp_probe N self now i = Inr (packet, sock_addr_new (tcp_target self) DEST_PORT)"
      using tcp_wire.probe_packet [OF W, of now self i] ok by blast
    then show ?thesis by simp
  qed
  moreover have "d = sock_addr_new (tcp_target self) 80 \<and>
      (\<exists>checksum. tcp_checksum N packet (fst (tcp_source self)) (tcp_target self) = Inr checksum \<and>
         packet = syn_segment (snd (tcp_source self)) (ucast i) (tcp_mss (tcp_target self))
           (of_int (now div 1000000)) checksum)"
    if "tcp_probe N self now i = Inr (packet, d)" for packet d
    using tcp_wire.probe_is_segment [OF W that] .
  ultimately show ?thesis by blast
qed

theorem tcp_probe_packet_witness:
  "\<exists>checksum. tcp_probe rfc_pnet \<lparr>tcp_target = V4 1, tcp_source = (V4 2, 40000), tcp_dummy_sock = 3\<rparr>
       1000000000 1234 = Inr (syn_segment 40000 1234 1460 1000 checksum, SockV4 1 80)"
proof -
  let ?self = "\<lparr>tcp_target = V4 1, tcp_source = (V4 2, 40000), tcp_dummy_sock = 3\<rparr>"
  note T = tcp_probe_packet [OF tcp_wire_ok_rfc, of ?self 1000000000 1234]
  have "never_panics (tcp_probe rfc_pnet ?self 1000000000 1234)"
    using T by (simp add: family_of_def)
  moreover have "\<exists>packet d. tcp_probe rfc_pnet ?self 1000000000 1234 = Inr (packet, d)"
    by (simp add: tcp_probe_def Let_def unix_millis_def tcp_checksum_def rfc_pnet_def
        TCP_MIN_HEADER_LEN_def TCP_SYN_OPTIONS_LEN_def)
  ultimately show ?thesis using T by (auto simp: tcp_mss_def)
qed

text \<open>
  C32: Every probe identifier is recovered, from eight quoted bytes of the segment on the error
  queue, and on the receive queue exactly from the target's own segment, from port 80 to the probe's
  source port, that acknowledges the probe. A quoted segment of another source port, and a received
  one from another host, with another port at either end or with an acknowledgement of zero, are
  never identified.
\<close>

theorem tcp_probe_identified:
  assumes "tcp_wire_ok N" and "tcp_probe N self now i = Inr (p, d)"
  shows "(tcp_quotes p d r \<longrightarrow> tcp_identify_from_error r (snd (tcp_source self)) = Some i) \<and>
    (tcp_quotes p d r \<longrightarrow> port \<noteq> snd (tcp_source self) \<longrightarrow> tcp_identify_from_error r port = None) \<and>
    (identify (tcp_replies P N (tcp_target self) (tcp_source self)) r = Some i \<longleftrightarrow> tcp_answers N self p d r) \<and>
    (\<forall>segment. received_segment N (tcp_target self) (r_quoted r) segment \<longrightarrow>
       field segment 0 2 \<noteq> u16_to_be 80 \<or> field segment 2 2 \<noteq> u16_to_be (snd (tcp_source self)) \<or>
       u32_from_be (field segment 8 4) = 0 \<or> Option.bind (r_source r) sa_ip \<noteq> Some (tcp_target self) \<longrightarrow>
       identify (tcp_replies P N (tcp_target self) (tcp_source self)) r = None)"
proof -
  note W = tcp_wire.intro [OF assms(1)]
  have "tcp_identify_from_error r port = None" if "tcp_quotes p d r" "port \<noteq> snd (tcp_source self)"
    using tcp_wire.quote_is_identified [OF W assms(2) that(1)] that(2)
    by (auto simp: tcp_identify_from_error_def bind_eq_Some_conv split: if_splits)
  moreover have "identify (tcp_replies P N (tcp_target self) (tcp_source self)) r = None"
    if seg: "received_segment N (tcp_target self) (r_quoted r) segment"
      and bad: "field segment 0 2 \<noteq> u16_to_be 80 \<or> field segment 2 2 \<noteq> u16_to_be (snd (tcp_source self)) \<or>
        u32_from_be (field segment 8 4) = 0 \<or> Option.bind (r_source r) sa_ip \<noteq> Some (tcp_target self)" for segment
  proof (rule ccontr)
    assume "identify (tcp_replies P N (tcp_target self) (tcp_source self)) r \<noteq> None"
    then obtain j where j: "tcp_replies_identify N (tcp_target self) (tcp_source self) r = Some j"
      by (auto simp: tcp_replies_def)
    show False using tcp_wire.identified_fields [OF W j seg] bad by (simp add: DEST_PORT_def)
  qed
  ultimately show ?thesis
    using tcp_wire.quote_is_identified [OF W assms(2)] tcp_wire.answer_is_identified [OF W assms(2)]
      tcp_wire.identified_answers [OF W assms(2)]
    by (auto simp: tcp_replies_def)
qed

definition local_addr_family :: "os \<Rightarrow> domain \<Rightarrow> bool" where
  "local_addr_family sys family \<longleftrightarrow> (\<forall>h a. os_addr sys h = Inr a \<longrightarrow> sa_domain a = family)"

text \<open>
  C36: When it succeeds, \<open>try_new\<close> has made exactly its seven socket calls in order, holds the
  socket whose local port, as the system reported it, is its source port, and, if the system reports
  local addresses of the sockets' own family, has a source address of the target's family, so its
  probes cannot panic on that.
\<close>

theorem tcp_try_new_calls:
  assumes "tcp_try_new sys target h = (Inr self, h')"
    and "local_addr_family sys (family_of target)"
  shows "tcp_target self = target \<and> family_of (fst (tcp_source self)) = family_of target \<and>
    (\<exists>socket. h' = h @
      [SysSocket (family_of target) Stream ProtoTcp, SysBind (tcp_dummy_sock self) (unspecified target),
       SysLocalAddr (tcp_dummy_sock self),
       SysSocket (family_of target) Dgram ProtoUdp, SysBind socket (unspecified target),
       SysConnect socket (sock_addr_new target 80), SysLocalAddr socket]) \<and>
    (\<exists>a. os_addr sys (h @
        [SysSocket (family_of target) Stream ProtoTcp, SysBind (tcp_dummy_sock self) (unspecified target),
         SysLocalAddr (tcp_dummy_sock self)]) = Inr a \<and> sa_port a = Some (snd (tcp_source self)))"
proof -
  from assms(1) obtain dummy h1 a1 p1 h2 socket h3 h4 a2 p2 where
    s1: "bound_socket sys Stream ProtoTcp ProtoTcp target h = (Inr dummy, h1)" and
    l1: "local_socket_addr sys dummy h1 = (Inr (a1, p1), h2)" and
    s2: "bound_socket sys Dgram ProtoUdp ProtoUdp target h2 = (Inr socket, h3)" and
    c: "h4 = h3 @ [SysConnect socket (sock_addr_new target DEST_PORT)]" and
    l2: "local_socket_addr sys socket h4 = (Inr (a2, p2), h')" and
    self: "self = \<lparr>tcp_target = target, tcp_source = (a2, p1), tcp_dummy_sock = dummy\<rparr>"
    by (auto simp: tcp_try_new_def io_bind_Inr io_call_Inr io_return_def)
  have local: "h' = h @ [SysLocalAddr s] \<and> family_of ip = family_of target \<and>
      (\<exists>a. os_addr sys (h @ [SysLocalAddr s]) = Inr a \<and> sa_port a = Some port)"
    if l: "local_socket_addr sys s h = (Inr (ip, port), h')" for s h ip port h'
  proof -
    obtain a where a: "os_addr sys (h @ [SysLocalAddr s]) = Inr a" "as_socket a = Some (ip, port)"
      "h' = h @ [SysLocalAddr s]"
      using l unfolding local_socket_addr_def io_bind_Inr io_call_Inr
      by (auto simp: io_lift_def ok_or_Inr_iff)
    have "sa_domain a = family_of target"
      using a(1) assms(2) by (simp add: local_addr_family_def)
    with a show ?thesis by (cases a) (auto simp: family_of_def split: ip_addr.splits)
  qed
  show ?thesis
    using bound_socket_calls [OF s1] bound_socket_calls [OF s2] local [OF l1] local [OF l2] c self
    by (cases target) (auto simp: DEST_PORT_def)
qed

text \<open>An operating system that answers with fresh descriptors and local IPv4 addresses.\<close>

definition demo_os :: os where
  "demo_os = \<lparr>os_socket = (\<lambda>h. Inr (length h)), os_unit = (\<lambda>_. Inr ()),
     os_addr = (\<lambda>h. Inr (SockV4 0xC0000202 40000)), os_domain = (\<lambda>_. Inr DomainIpv4)\<rparr>"

theorem tcp_try_new_calls_witness:
  "\<exists>self h'. tcp_try_new demo_os (V4 1) [] = (Inr self, h') \<and> tcp_source self = (V4 0xC0000202, 40000) \<and>
     family_of (fst (tcp_source self)) = DomainIpv4 \<and> length h' = 7"
proof -
  let ?self = "\<lparr>tcp_target = V4 1, tcp_source = (V4 0xC0000202, 40000), tcp_dummy_sock = 1\<rparr>"
  have run: "\<exists>h'. tcp_try_new demo_os (V4 1) [] = (Inr ?self, h')"
    by (simp add: tcp_try_new_def bound_socket_def local_socket_addr_def io_defs demo_os_def)
  have "local_addr_family demo_os (family_of (V4 1))"
    by (simp add: local_addr_family_def demo_os_def family_of_def)
  with run show ?thesis
    using tcp_try_new_calls [of demo_os "V4 1" "[]" ?self] by (fastforce simp: family_of_def)
qed

text \<open>An acknowledgement of probe 1234 that comes from another port of the target.\<close>

definition foreign_segment :: reply where
  "foreign_segment = \<lparr>r_source = Some (SockV6 1 0 0 0), r_destination = None,
     r_quoted = [0, 81, 0x9C, 0x40, 0, 0, 0, 0, 0, 0, 4, 211, 0x50, 4, 0, 0, 0, 0, 0, 0], r_error = None\<rparr>"

theorem tcp_probe_identified_witness:
  "\<exists>p d. tcp_probe rfc_pnet \<lparr>tcp_target = V6 1, tcp_source = (V6 2, 40000), tcp_dummy_sock = 3\<rparr>
       0 1234 = Inr (p, d) \<and>
     tcp_identify_from_error
       \<lparr>r_source = None, r_destination = None, r_quoted = take 8 p, r_error = None\<rparr> 40000 = Some 1234 \<and>
     tcp_identify_from_error
       \<lparr>r_source = None, r_destination = None, r_quoted = take 8 p, r_error = None\<rparr> 40001 = None \<and>
     identify (tcp_replies (linux64 True) rfc_pnet (V6 1) (V6 2, 40000)) foreign_segment = None"
proof -
  let ?self = "\<lparr>tcp_target = V6 1, tcp_source = (V6 2, 40000), tcp_dummy_sock = 3\<rparr>"
  obtain p d where p: "tcp_probe rfc_pnet ?self 0 1234 = Inr (p, d)" "length p = 40"
    using rfc.probe_packet [of 0 ?self] by (fastforce simp: family_of_def)
  have "received_segment rfc_pnet (V6 1) (r_quoted foreign_segment) (r_quoted foreign_segment)"
    by (simp add: received_segment_def)
  moreover have "field (r_quoted foreign_segment) 0 2 \<noteq> u16_to_be 80"
    by code_simp
  ultimately show ?thesis
    using p tcp_probe_identified [OF tcp_wire_ok_rfc p(1), where port = 40001
        and r = "\<lparr>r_source = None, r_destination = None, r_quoted = take 8 p, r_error = None\<rparr>"]
      tcp_probe_identified [OF tcp_wire_ok_rfc p(1), where r = foreign_segment and P = "linux64 True"]
    by (auto simp: tcp_quotes_def)
qed

end
