(* ===== verification/End_To_End.thy ===== *)
theory End_To_End
  imports Run_Props Method_Icmp Method_Udp Method_Tcp
begin

text \<open>
  From the wire to the result: a message that Linux delivers about a probe, an ICMP error on the
  error queue or the target's own answer, ends as the result of exactly that probe. The two lemmas
  are proved once against the contract \<open>probe_codec\<close> of a method and used through its three
  interpretations.
\<close>

section \<open>Addresses as Linux writes them\<close>

fun linux_sockaddr :: "bool \<Rightarrow> sock_addr \<Rightarrow> bytes" where
  "linux_sockaddr le (SockV4 ip port) = linux_sockaddr_in le ip port"
| "linux_sockaddr le (SockV6 ip port flow scope) = linux_sockaddr_in6 le ip port flow scope"
| "linux_sockaddr le (SockOther n) = []"

lemma parse_linux_sockaddr [simp]:
  "parse_sockaddr (linux64 le) (linux_sockaddr le (sock_addr_new ip port)) = Some (sock_addr_new ip port)"
  using parse_sockaddr_linux [where rest = "[]"] by (cases ip) simp_all

lemma sa_ip_new [simp]: "sa_ip (sock_addr_new ip port) = Some ip"
  by (cases ip) simp_all

section \<open>Any method\<close>

definition with_result :: "nat \<Rightarrow> probe_result \<Rightarrow> probe list \<Rightarrow> probe list" where
  "with_result i r probes = probes[i := (probes ! i)\<lparr>p_result := Some r\<rparr>]"

text \<open>A probe that was sent and is still waiting for its result.\<close>

definition awaiting :: "nat \<Rightarrow> nat \<Rightarrow> probe list \<Rightarrow> bool" where
  "awaiting i sent probes \<longleftrightarrow>
     i < length probes \<and> p_sent_at (probes ! i) = Some sent \<and> p_result (probes ! i) = None"

lemma handle_read_records:
  assumes "delivers le reader name control payload ev"
    and "reply_of (documented_libs le) reader ev = Some r"
    and "identify (q_replies (ms_queue reader)) r = Some i" "awaiting (probe_index i) sent probes"
  shows "handle_read (documented_libs le) ev reader probes =
    Inr (with_result (probe_index i) (result_for reader (ev_now ev) r sent) probes, [])"
proof -
  have "handle_read (documented_libs le) ev reader probes =
      Inr (credit_all reader (ev_now ev) (Some r) probes, read_log (documented_libs le) reader ev)"
    using handle_read_eq [OF _ delivers_read_ok [OF assms(1)], of probes] assms(2)
    by (simp add: platform_ok_linux64)
  moreover have "read_log (documented_libs le) reader ev = []"
    using delivers_message(1) [OF assms(1)] by (simp add: read_log_def)
  moreover have "credit_all reader (ev_now ev) (Some r) probes =
      with_result (probe_index i) (result_for reader (ev_now ev) r sent) probes"
    using assms(3,4)
    by (intro nth_equalityI) (auto simp: with_result_def awaiting_def nth_list_update credited_def
        split: option.splits)
  ultimately show ?thesis by simp
qed

context probe_codec begin

lemma quote_recorded:
  assumes "valid i" "probe t i = Inr (p, d)" "awaiting (probe_index i) sent probes"
    and "delivers le reader name (linux_recverr le errno e (linux_sockaddr le (sock_addr_new router port))) payload ev"
    and "q_err_queue (ms_queue reader)" "q_replies (ms_queue reader) = error_replies identify_error"
    and "quotes p d \<lparr>r_source = Some (sock_addr_new router port),
      r_destination = parse_sockaddr (linux64 le) name, r_quoted = payload, r_error = Some e\<rparr>"
  shows "handle_read (documented_libs le) ev reader probes =
    Inr (with_result (probe_index i)
      \<lparr>pr_source = Some router, pr_rtt = ev_now ev - sent, pr_kind = kind e\<rparr> probes, [])"
  using handle_read_records [OF assms(4) reply_of_error [OF assms(4,5)], where i = i, OF _ assms(3)]
    quote_identified [OF assms(1,2,7)] assms(6)
  by (simp add: result_for_def classify_error_reply_def)

lemma answer_recorded:
  assumes "valid i" "probe t i = Inr (p, d)" "awaiting (probe_index i) sent probes"
    and "delivers le reader (linux_sockaddr le (sock_addr_new source port)) [] payload ev"
    and "\<not> q_err_queue (ms_queue reader)" "identify (q_replies (ms_queue reader)) = identify_answer"
    and "classify (q_replies (ms_queue reader)) = (\<lambda>_. Destination)"
    and "answers p d \<lparr>r_source = Some (sock_addr_new source port), r_destination = None,
      r_quoted = payload, r_error = None\<rparr>"
  shows "handle_read (documented_libs le) ev reader probes =
    Inr (with_result (probe_index i)
      \<lparr>pr_source = Some source, pr_rtt = ev_now ev - sent, pr_kind = Destination\<rparr> probes, [])"
  using handle_read_records [OF assms(4) reply_of_answer [OF assms(4,5)], where i = i, OF _ assms(3)]
    answer_identified [OF assms(1,2,8)] assms(6,7)
  by (simp add: result_for_def)

end

section \<open>A delivery\<close>

definition error_reader :: "reply_queue \<Rightarrow> multishot" where
  "error_reader queue = \<lparr>ms_queue = queue, ms_slot = 0,
     ms_msghdr = zeroed_msghdr\<lparr>msg_namelen := 28, msg_controllen := 64\<rparr>\<rparr>"

definition delivery :: "bool \<Rightarrow> multishot \<Rightarrow> bytes \<Rightarrow> bytes \<Rightarrow> bytes \<Rightarrow> nat \<Rightarrow> event" where
  "delivery le reader name control payload now =
     (let buffer = linux_recv_buffer le (ms_msghdr reader) name control payload in
      \<lparr>ev_cqe = \<lparr>cqe_result = int (length buffer), cqe_user_data = 0, cqe_flags = 1\<rparr>,
       ev_buffers = (\<lambda>_ _. Some buffer), ev_now = now\<rparr>)"

lemma delivery_delivers:
  assumes "length name \<le> 28" "length control \<le> 64" "length payload < 65536"
  shows "delivers le (error_reader queue) name control payload
    (delivery le (error_reader queue) name control payload now)"
  using assms length_linux_recv_buffer [of name "ms_msghdr (error_reader queue)" control le payload]
  by (simp add: delivers_def delivery_def Let_def error_reader_def zeroed_msghdr_def)

lemma ev_now_delivery [simp]: "ev_now (delivery le reader name control payload now) = now"
  by (simp add: delivery_def Let_def)

definition sent_probe :: probe where
  "sent_probe = \<lparr>p_ttl = 3, p_sent_at = Some 1000, p_result = None\<rparr>"

section \<open>The three methods\<close>
text \<open>
  C11: An ICMP error about a UDP probe, as Linux queues it with the probe's destination, becomes the
  result of that probe when its port did not wrap: the router's address, the time since the send
  and the kind of the error, so a Time Exceeded is a hop and a Port Unreachable the destination.
\<close>

theorem udp_error_recorded:
  assumes "udp_probe self i = Inr (packet, sock_addr_new target port)" and "unat i \<le> 32101"
    and "ms_queue reader = \<lparr>q_socket = fd, q_err_queue = True, q_replies = error_replies udp_identify_from_error\<rparr>"
    and "delivers le reader (linux_sockaddr le (sock_addr_new target port))
      (linux_recverr le errno e (linux_sockaddr le (sock_addr_new router 0))) payload ev"
    and "awaiting (unat i) sent probes"
  shows "handle_read (documented_libs le) ev reader probes =
    Inr (with_result (unat i)
      \<lparr>pr_source = Some router, pr_rtt = ev_now ev - sent, pr_kind = kind e\<rparr> probes, [])"
  using udp_codec.quote_recorded [of i self packet "sock_addr_new target port" sent probes le reader
      "linux_sockaddr le (sock_addr_new target port)" errno e router 0 payload ev] assms
  by (simp add: udp_valid_def udp_quotes_def probe_index_def)

text \<open>
  C12: An ICMP error that quotes at least eight bytes of an echo request, and a reply that carries
  the request's sequence number, whatever its type, checksum, identifier and data, become the result
  of that request's probe. (A reply's type is 0 or 129, not the request's; the code does not look at it.)
\<close>

theorem icmp_messages_recorded:
  assumes "icmp_probe self i = Inr (packet, d)" and "awaiting (unat i) sent probes"
    and "8 \<le> length payload" and "field payload 6 2 = field packet 6 2"
  shows "(ms_queue reader = \<lparr>q_socket = fd, q_err_queue = True, q_replies = error_replies sequence\<rparr> \<and>
      delivers le reader name (linux_recverr le errno e (linux_sockaddr le (sock_addr_new router 0))) payload ev \<and>
      take 2 payload = take 2 packet \<longrightarrow>
      handle_read (documented_libs le) ev reader probes =
        Inr (with_result (unat i)
          \<lparr>pr_source = Some router, pr_rtt = ev_now ev - sent, pr_kind = kind e\<rparr> probes, [])) \<and>
    (ms_queue reader = \<lparr>q_socket = fd, q_err_queue = False, q_replies = echo_replies (linux64 le)\<rparr> \<and>
      delivers le reader (linux_sockaddr le (sock_addr_new source 0)) [] payload ev \<longrightarrow>
      handle_read (documented_libs le) ev reader probes =
        Inr (with_result (unat i)
          \<lparr>pr_source = Some source, pr_rtt = ev_now ev - sent, pr_kind = Destination\<rparr> probes, []))"
proof (intro conjI impI; elim conjE)
  assume "ms_queue reader = \<lparr>q_socket = fd, q_err_queue = True, q_replies = error_replies sequence\<rparr>"
    "delivers le reader name (linux_recverr le errno e (linux_sockaddr le (sock_addr_new router 0))) payload ev"
    "take 2 payload = take 2 packet"
  then show "handle_read (documented_libs le) ev reader probes =
      Inr (with_result (unat i)
        \<lparr>pr_source = Some router, pr_rtt = ev_now ev - sent, pr_kind = kind e\<rparr> probes, [])"
    using icmp_codec.quote_recorded [OF TrueI assms(1), of sent probes le reader name errno e router 0
        payload ev] assms(2-4)
    by (simp add: echo_quotes_def probe_index_def)
next
  assume "ms_queue reader = \<lparr>q_socket = fd, q_err_queue = False, q_replies = echo_replies (linux64 le)\<rparr>"
    "delivers le reader (linux_sockaddr le (sock_addr_new source 0)) [] payload ev"
  then show "handle_read (documented_libs le) ev reader probes =
      Inr (with_result (unat i)
        \<lparr>pr_source = Some source, pr_rtt = ev_now ev - sent, pr_kind = Destination\<rparr> probes, [])"
    using icmp_codec.answer_recorded [OF TrueI assms(1), of sent probes le reader source 0
        payload ev "linux64 le"] assms(2-4)
    by (simp add: echo_answers_def probe_index_def echo_replies_def)
qed

context tcp_wire begin

lemma messages_recorded:
  assumes "tcp_probe N self now i = Inr (packet, d)" and "awaiting (unat i) sent probes"
  shows "(ms_queue reader = \<lparr>q_socket = fd, q_err_queue = True,
        q_replies = error_replies (\<lambda>r. tcp_identify_from_error r (snd (tcp_source self)))\<rparr> \<and>
      delivers le reader name (linux_recverr le errno e (linux_sockaddr le (sock_addr_new router 0))) payload ev \<and>
      8 \<le> length payload \<and> take 8 payload = take 8 packet \<longrightarrow>
      handle_read (documented_libs le) ev reader probes =
        Inr (with_result (unat i)
          \<lparr>pr_source = Some router, pr_rtt = ev_now ev - sent, pr_kind = kind e\<rparr> probes, [])) \<and>
    (ms_queue reader = \<lparr>q_socket = fd, q_err_queue = False,
        q_replies = tcp_replies (linux64 le) N (tcp_target self) (tcp_source self)\<rparr> \<and>
      delivers le reader (linux_sockaddr le (sock_addr_new (tcp_target self) 0)) [] payload ev \<and>
      tcp_answers N self packet d \<lparr>r_source = Some (sock_addr_new (tcp_target self) 0),
        r_destination = None, r_quoted = payload, r_error = None\<rparr> \<longrightarrow>
      handle_read (documented_libs le) ev reader probes =
        Inr (with_result (unat i)
          \<lparr>pr_source = Some (tcp_target self), pr_rtt = ev_now ev - sent, pr_kind = Destination\<rparr> probes, []))"
  using codec.quote_recorded [OF TrueI assms(1), of sent probes le reader name errno e router 0 payload ev]
    codec.answer_recorded [OF TrueI assms(1), of sent probes le reader "tcp_target self" 0 payload ev]
    assms(2)
  by (auto simp: tcp_quotes_def probe_index_def tcp_replies_def)

end

text \<open>
  C13: An ICMP error that quotes the first eight bytes of a TCP probe, and the segment with which
  the target acknowledges it, become the result of that probe.
\<close>

theorem tcp_messages_recorded:
  assumes "tcp_wire_ok N" and "tcp_probe N self now i = Inr (packet, d)" and "awaiting (unat i) sent probes"
  shows "(ms_queue reader = \<lparr>q_socket = fd, q_err_queue = True,
        q_replies = error_replies (\<lambda>r. tcp_identify_from_error r (snd (tcp_source self)))\<rparr> \<and>
      delivers le reader name (linux_recverr le errno e (linux_sockaddr le (sock_addr_new router 0))) payload ev \<and>
      8 \<le> length payload \<and> take 8 payload = take 8 packet \<longrightarrow>
      handle_read (documented_libs le) ev reader probes =
        Inr (with_result (unat i)
          \<lparr>pr_source = Some router, pr_rtt = ev_now ev - sent, pr_kind = kind e\<rparr> probes, [])) \<and>
    (ms_queue reader = \<lparr>q_socket = fd, q_err_queue = False,
        q_replies = tcp_replies (linux64 le) N (tcp_target self) (tcp_source self)\<rparr> \<and>
      delivers le reader (linux_sockaddr le (sock_addr_new (tcp_target self) 0)) [] payload ev \<and>
      tcp_answers N self packet d \<lparr>r_source = Some (sock_addr_new (tcp_target self) 0),
        r_destination = None, r_quoted = payload, r_error = None\<rparr> \<longrightarrow>
      handle_read (documented_libs le) ev reader probes =
        Inr (with_result (unat i)
          \<lparr>pr_source = Some (tcp_target self), pr_rtt = ev_now ev - sent, pr_kind = Destination\<rparr> probes, []))"
  using tcp_wire.messages_recorded [OF tcp_wire.intro [OF assms(1)] assms(2,3)] .

theorem udp_error_recorded_witness:
  "\<exists>ev. handle_read one_libs ev
     (error_reader \<lparr>q_socket = 3, q_err_queue = True, q_replies = error_replies udp_identify_from_error\<rparr>)
     [sent_probe] =
   Inr ([sent_probe\<lparr>p_result := Some \<lparr>pr_source = Some (V4 0x0A000001), pr_rtt = 500, pr_kind = Hop\<rparr>\<rparr>], [])"
proof -
  let ?self = "\<lparr>udp_target = V4 0x08080808, udp_payload_len = 1\<rparr>"
  let ?reader = "error_reader \<lparr>q_socket = 3, q_err_queue = True, q_replies = error_replies udp_identify_from_error\<rparr>"
  let ?ev = "delivery True ?reader (linux_sockaddr True (sock_addr_new (V4 0x08080808) 33434))
    (linux_recverr True 113 (IcmpV4 11 0 0) (linux_sockaddr True (sock_addr_new (V4 0x0A000001) 0))) [] 1500"
  have p: "udp_probe ?self 0 = Inr ([0], sock_addr_new (V4 0x08080808) 33434)"
    by (simp add: udp_probe_eq udp_port_def START_PORT_def)
  have d: "delivers True ?reader (linux_sockaddr True (sock_addr_new (V4 0x08080808) 33434))
    (linux_recverr True 113 (IcmpV4 11 0 0) (linux_sockaddr True (sock_addr_new (V4 0x0A000001) 0))) [] ?ev"
    by (rule delivery_delivers) simp_all
  have a: "awaiting (unat (0 :: u16)) 1000 [sent_probe]" by (simp add: awaiting_def sent_probe_def)
  have q: "ms_queue ?reader = \<lparr>q_socket = 3, q_err_queue = True, q_replies = error_replies udp_identify_from_error\<rparr>"
    by (simp add: error_reader_def)
  show ?thesis
    using udp_error_recorded [OF p _ q d a]
    by (intro exI [of _ ?ev]) (simp add: with_result_def icmp_constants)
qed

text \<open>The router's error and the target's reply (of type 0) about the same probe.\<close>

theorem icmp_messages_recorded_witness:
  "(\<exists>ev. handle_read one_libs ev (error_reader \<lparr>q_socket = 3, q_err_queue = False, q_replies = echo_replies (linux64 True)\<rparr>)
       [sent_probe] =
     Inr ([sent_probe\<lparr>p_result := Some \<lparr>pr_source = Some (V4 0x08080808), pr_rtt = 500, pr_kind = Destination\<rparr>\<rparr>], [])) \<and>
   (\<exists>ev. handle_read one_libs ev (error_reader \<lparr>q_socket = 3, q_err_queue = True, q_replies = error_replies sequence\<rparr>)
       [sent_probe] =
     Inr ([sent_probe\<lparr>p_result := Some \<lparr>pr_source = Some (V4 9), pr_rtt = 500, pr_kind = Hop\<rparr>\<rparr>], []))"
proof
  let ?self = "\<lparr>icmp_target = V4 0x08080808, icmp_payload_len = 0\<rparr>"
  let ?answers = "error_reader \<lparr>q_socket = 3, q_err_queue = False, q_replies = echo_replies (linux64 True)\<rparr>"
  let ?errors = "error_reader \<lparr>q_socket = 3, q_err_queue = True, q_replies = error_replies sequence\<rparr>"
  let ?reply = "delivery True ?answers (linux_sockaddr True (sock_addr_new (V4 0x08080808) 0)) [] [0, 0, 1, 2, 3, 4, 0, 0] 1500"
  let ?recverr = "linux_recverr True 113 (IcmpV4 11 0 0) (linux_sockaddr True (sock_addr_new (V4 9) 0))"
  let ?error = "delivery True ?errors [] ?recverr [8, 0, 1, 2, 3, 4, 0, 0] 1500"
  have p: "icmp_probe ?self 0 = Inr ([8, 0, 0, 0, 0, 0, 0, 0], sock_addr_new (V4 0x08080808) 0)" by code_simp
  have w: "awaiting (unat (0 :: u16)) 1000 [sent_probe]" by (simp add: awaiting_def sent_probe_def)
  have "delivers True ?answers (linux_sockaddr True (sock_addr_new (V4 0x08080808) 0)) [] [0, 0, 1, 2, 3, 4, 0, 0] ?reply"
    by (rule delivery_delivers) simp_all
  then have "handle_read one_libs ?reply ?answers [sent_probe] = Inr (with_result (unat (0 :: u16))
      \<lparr>pr_source = Some (V4 0x08080808), pr_rtt = ev_now ?reply - 1000, pr_kind = Destination\<rparr> [sent_probe], [])"
    using icmp_messages_recorded [OF p w, of "[0, 0, 1, 2, 3, 4, 0, 0]" ?answers 3 True "[]" 0
        "IcmpV4 0 0 0" "V4 0" ?reply "V4 0x08080808"]
    by (simp add: field_def error_reader_def)
  then show "\<exists>ev. handle_read one_libs ev ?answers [sent_probe] =
     Inr ([sent_probe\<lparr>p_result := Some \<lparr>pr_source = Some (V4 0x08080808), pr_rtt = 500, pr_kind = Destination\<rparr>\<rparr>], [])"
    by (intro exI [of _ ?reply]) (simp add: with_result_def)
  have "delivers True ?errors [] ?recverr [8, 0, 1, 2, 3, 4, 0, 0] ?error"
    by (rule delivery_delivers) simp_all
  then have "handle_read one_libs ?error ?errors [sent_probe] = Inr (with_result (unat (0 :: u16))
      \<lparr>pr_source = Some (V4 9), pr_rtt = ev_now ?error - 1000, pr_kind = kind (IcmpV4 11 0 0)\<rparr> [sent_probe], [])"
    using icmp_messages_recorded [OF p w, of "[8, 0, 1, 2, 3, 4, 0, 0]" ?errors 3 True "[]" 113
        "IcmpV4 11 0 0" "V4 9" ?error "V4 0"]
    by (simp add: field_def error_reader_def)
  then show "\<exists>ev. handle_read one_libs ev ?errors [sent_probe] =
     Inr ([sent_probe\<lparr>p_result := Some \<lparr>pr_source = Some (V4 9), pr_rtt = 500, pr_kind = Hop\<rparr>\<rparr>], [])"
    by (intro exI [of _ ?error]) (simp add: with_result_def icmp_constants)
qed

theorem tcp_messages_recorded_witness:
  "\<exists>ev reader. handle_read one_libs ev reader [sent_probe] =
   Inr ([sent_probe\<lparr>p_result := Some \<lparr>pr_source = Some (V6 9), pr_rtt = 500, pr_kind = Hop\<rparr>\<rparr>], [])"
proof -
  let ?self = "\<lparr>tcp_target = V6 1, tcp_source = (V6 2, 40000), tcp_dummy_sock = 3\<rparr>"
  let ?reader = "error_reader \<lparr>q_socket = 3, q_err_queue = True,
    q_replies = error_replies (\<lambda>r. tcp_identify_from_error r 40000)\<rparr>"
  obtain p d where p: "tcp_probe rfc_pnet ?self 0 0 = Inr (p, d)" "length p = 40"
    using rfc.probe_packet [of 0 ?self] by (fastforce simp: family_of_def)
  let ?ev = "delivery True ?reader [] (linux_recverr True 113 (IcmpV6 3 0 0)
    (linux_sockaddr True (sock_addr_new (V6 9) 0))) (take 8 p) 1500"
  have d: "delivers True ?reader [] (linux_recverr True 113 (IcmpV6 3 0 0)
    (linux_sockaddr True (sock_addr_new (V6 9) 0))) (take 8 p) ?ev"
    using p(2) by (intro delivery_delivers) simp_all
  have a: "awaiting (unat (0 :: u16)) 1000 [sent_probe]" by (simp add: awaiting_def sent_probe_def)
  have "handle_read one_libs ?ev ?reader [sent_probe] = Inr (with_result (unat (0 :: u16))
      \<lparr>pr_source = Some (V6 9), pr_rtt = ev_now ?ev - 1000, pr_kind = kind (IcmpV6 3 0 0)\<rparr> [sent_probe], [])"
    using tcp_messages_recorded [OF tcp_wire_ok_rfc p(1) a, of ?reader 3 True "[]" 113 "IcmpV6 3 0 0" "V6 9"
        "take 8 p" ?ev] d p(2)
    by (simp add: error_reader_def)
  then show ?thesis by (intro exI [of _ ?ev] exI [of _ ?reader]) (simp add: with_result_def icmp_constants)
qed

end
