(* ===== verification/Std_Net.thy ===== *)
theory Std_Net
  imports Platform
begin

text \<open>
  What the program uses of \<open>std::net\<close> on text: the \<open>Display\<close> of IP and socket addresses and the
  parsers of \<open>IpAddr\<close> and \<open>SocketAddr\<close>. A parser takes the remaining input and returns a value and
  the input after it; \<open>None\<close> leaves the caller with the input it had (\<open>read_atomically\<close>). The lemmas
  show that every address is read back from what is printed for it.
\<close>

section \<open>Numbers\<close>

text \<open>\<open>char::to_digit(radix)\<close>, the \<open>Display\<close> and \<open>LowerHex\<close> of the unsigned integers.\<close>

definition digit_value :: "nat \<Rightarrow> char \<Rightarrow> nat option" where
  "digit_value radix c =
     (let n = of_char c :: nat;
          d = if 48 \<le> n \<and> n \<le> 57 then n - 48
              else if 97 \<le> n \<and> n \<le> 122 then n - 87
              else if 65 \<le> n \<and> n \<le> 90 then n - 55 else radix
      in if d < radix then Some d else None)"

definition digit_char :: "nat \<Rightarrow> char" where
  "digit_char d = char_of (if d < 10 then 48 + d else 87 + d)"

fun show_radix :: "nat \<Rightarrow> nat \<Rightarrow> string" where
  "show_radix b n =
     (if n < b \<or> b < 2 then [digit_char n] else show_radix b (n div b) @ [digit_char (n mod b)])"

declare show_radix.simps [simp del]

definition show_hex :: "nat \<Rightarrow> string" where
  "show_hex = show_radix 16"

definition digits_value :: "nat \<Rightarrow> string \<Rightarrow> nat" where
  "digits_value b ds = foldl (\<lambda>a c. a * b + the (digit_value b c)) 0 ds"

text \<open>
  \<open>Parser::read_number\<close>: the longest run of digits, refused when it is empty, longer than
  \<open>max_digits\<close>, padded with zeros where that is not allowed, or not below \<open>limit\<close>, the number of
  values of the result type.
\<close>

definition read_number ::
    "nat \<Rightarrow> nat option \<Rightarrow> bool \<Rightarrow> nat \<Rightarrow> string \<Rightarrow> (nat \<times> string) option" where
  "read_number radix max_digits allow_zero_prefix limit s =
     (let ds = takeWhile (\<lambda>c. digit_value radix c \<noteq> None) s;
          rest = dropWhile (\<lambda>c. digit_value radix c \<noteq> None) s
      in if ds = [] \<or> (case max_digits of None \<Rightarrow> False | Some m \<Rightarrow> m < length ds)
            \<or> (\<not> allow_zero_prefix \<and> hd ds = CHR ''0'' \<and> 1 < length ds) \<or> limit \<le> digits_value radix ds
         then None else Some (digits_value radix ds, rest))"

lemma show_nat_radix: "show_nat n = show_radix 10 n"
proof (induction n rule: show_nat.induct)
  case (1 n)
  then show ?case by (simp add: show_nat.simps [of n] show_radix.simps [of 10 n] digit_char_def)
qed

lemma digit_value_char [simp]:
  "d < b \<Longrightarrow> b \<le> 16 \<Longrightarrow> digit_value b (digit_char d) = Some d"
  by (simp add: digit_value_def digit_char_def of_char_of)

lemma digits_value_show [simp]: "2 \<le> b \<Longrightarrow> b \<le> 16 \<Longrightarrow> digits_value b (show_radix b n) = n"
proof (induction b n rule: show_radix.induct)
  case (1 b n)
  then show ?case by (simp add: show_radix.simps [of b n] digits_value_def)
qed

lemma show_radix_digits:
  "c \<in> set (show_radix b n) \<Longrightarrow> 2 \<le> b \<Longrightarrow> b \<le> 16 \<Longrightarrow> digit_value b c \<noteq> None"
proof (induction b n rule: show_radix.induct)
  case (1 b n)
  then show ?case by (auto simp: show_radix.simps [of b n] split: if_splits)
qed

lemma show_radix_nonempty [simp]: "show_radix b n \<noteq> []"
  by (simp add: show_radix.simps [of b n])

lemma length_show_radix: "2 \<le> b \<Longrightarrow> n < b ^ Suc k \<Longrightarrow> length (show_radix b n) \<le> Suc k"
proof (induction k arbitrary: n)
  case 0
  then show ?case by (simp add: show_radix.simps [of b n])
next
  case (Suc k)
  then have "n div b < b ^ Suc k" by (simp add: less_mult_imp_div_less mult.commute)
  with Suc show ?case by (simp add: show_radix.simps [of b n])
qed

lemma hd_show_radix: "2 \<le> b \<Longrightarrow> b \<le> 16 \<Longrightarrow> hd (show_radix b n) = CHR ''0'' \<Longrightarrow> n = 0"
proof (induction b n rule: show_radix.induct)
  case (1 b n)
  have z: "d = 0" if "digit_char d = CHR ''0''" "d < b" for d
  proof -
    have "digit_char 0 = CHR ''0''" by code_simp
    then have "digit_value b (digit_char d) = digit_value b (digit_char 0)" using that(1) by simp
    then show ?thesis using that(2) 1(2,3) by simp
  qed
  show ?case
  proof (cases "n < b")
    case True
    then show ?thesis using 1(4) z [of n] by (simp add: show_radix.simps [of b n])
  next
    case False
    then have "n div b = 0" using 1 by (simp add: show_radix.simps [of b n])
    then show ?thesis using False 1(2) by (simp add: div_eq_0_iff)
  qed
qed

text \<open>A printed number is read back, whatever follows that is not a digit.\<close>

definition no_digit :: "nat \<Rightarrow> string \<Rightarrow> bool" where
  "no_digit b rest \<longleftrightarrow> (rest \<noteq> [] \<longrightarrow> digit_value b (hd rest) = None)"

lemma read_number_show:
  assumes "2 \<le> b" "b \<le> 16" "no_digit b rest" "n < limit"
    and "\<And>m. max_digits = Some m \<Longrightarrow> n < b ^ m \<and> 0 < m"
  shows "read_number b max_digits zero limit (show_radix b n @ rest) = Some (n, rest)"
proof -
  let ?p = "\<lambda>c. digit_value b c \<noteq> None"
  have all: "\<forall>c \<in> set (show_radix b n). ?p c" using show_radix_digits assms(1,2) by blast
  have "takeWhile ?p rest = []" "dropWhile ?p rest = rest"
    using assms(3) by (cases rest; simp add: no_digit_def)+
  then have split: "takeWhile ?p (show_radix b n @ rest) = show_radix b n"
    "dropWhile ?p (show_radix b n @ rest) = rest"
    using all by (simp_all add: takeWhile_append2 dropWhile_append2)
  have "length (show_radix b n) \<le> m" if "max_digits = Some m" for m
    using assms(5) [OF that] length_show_radix [OF assms(1), of n "m - 1"] by simp
  moreover have "length (show_radix b n) = 1" if "hd (show_radix b n) = CHR ''0''"
    using hd_show_radix [OF assms(1,2) that] assms(1) by (simp add: show_radix.simps [of b 0])
  ultimately show ?thesis
    unfolding read_number_def split Let_def using assms(1,2,4)
    by (auto split: option.split simp: not_less)
qed

section \<open>The parsers\<close>

definition given_char :: "char \<Rightarrow> string \<Rightarrow> string option" where
  "given_char target s = (case s of [] \<Rightarrow> None | c # cs \<Rightarrow> if c = target then Some cs else None)"

text \<open>\<open>Parser::read_separator\<close>: the separator stands before every element but the first.\<close>

definition read_separator :: "char \<Rightarrow> nat \<Rightarrow> (string \<Rightarrow> 'a option) \<Rightarrow> string \<Rightarrow> 'a option" where
  "read_separator sep index inner s =
     (if index > 0 then Option.bind (given_char sep s) inner else inner s)"

fun read_octets :: "nat \<Rightarrow> nat \<Rightarrow> string \<Rightarrow> (nat list \<times> string) option" where
  "read_octets index 0 s = Some ([], s)"
| "read_octets index (Suc n) s =
     Option.bind (read_separator CHR ''.'' index (read_number 10 (Some 3) False 256) s) (\<lambda>(octet, s).
     map_option (\<lambda>(octets, s). (octet # octets, s)) (read_octets (Suc index) n s))"

text \<open>The digits of an address in a base, most significant first, and back.\<close>

fun groups :: "nat \<Rightarrow> nat \<Rightarrow> nat \<Rightarrow> nat list" where
  "groups base 0 x = []"
| "groups base (Suc n) x = groups base n (x div base) @ [x mod base]"

definition ungroup :: "nat \<Rightarrow> nat list \<Rightarrow> nat" where
  "ungroup base ds = foldl (\<lambda>a d. a * base + d) 0 ds"

definition ipv4_octets :: "32 word \<Rightarrow> nat list" where
  "ipv4_octets a = groups 256 4 (unat a)"

definition ipv6_segments :: "128 word \<Rightarrow> nat list" where
  "ipv6_segments a = groups 65536 8 (unat a)"

definition read_ipv4_addr :: "string \<Rightarrow> (32 word \<times> string) option" where
  "read_ipv4_addr s = map_option (\<lambda>(octets, s). (of_nat (ungroup 256 octets), s)) (read_octets 0 4 s)"

text \<open>
  \<open>read_groups\<close>: up to \<open>limit\<close> groups from number \<open>i\<close> on; where two fit, an IPv4 address is
  tried first and ends the groups.
\<close>

function read_groups :: "nat \<Rightarrow> nat \<Rightarrow> string \<Rightarrow> nat list \<times> bool \<times> string" where
  "read_groups limit i s =
     (if limit \<le> i then ([], False, s) else
      case (if i < limit - 1 then read_separator CHR '':'' i read_ipv4_addr s else None) of
        Some (v4, s) \<Rightarrow> (groups 65536 2 (unat v4), True, s)
      | None \<Rightarrow>
          (case read_separator CHR '':'' i (read_number 16 (Some 4) True 65536) s of
             None \<Rightarrow> ([], False, s)
           | Some (g, s) \<Rightarrow>
               let (gs, v4, s) = read_groups limit (Suc i) s in (g # gs, v4, s)))"
  by pat_completeness auto
termination by (relation "measure (\<lambda>(limit, i, _). limit - i)") auto

declare read_groups.simps [simp del]

definition read_ipv6_addr :: "string \<Rightarrow> (128 word \<times> string) option" where
  "read_ipv6_addr s =
     (let (head, head_ipv4, s) = read_groups 8 0 s in
      if length head = 8 then Some (of_nat (ungroup 65536 head), s)
      else if head_ipv4 then None
      else Option.bind (given_char CHR '':'' s) (\<lambda>s.
           Option.bind (given_char CHR '':'' s) (\<lambda>s.
           let (tail, _, s) = read_groups (8 - (length head + 1)) 0 s
           in Some (of_nat (ungroup 65536
                (head @ replicate (8 - length tail - length head) 0 @ tail)), s))))"

definition read_ip_addr :: "string \<Rightarrow> (ip_addr \<times> string) option" where
  "read_ip_addr s =
     (case read_ipv4_addr s of
        Some (a, s) \<Rightarrow> Some (V4 a, s)
      | None \<Rightarrow> map_option (\<lambda>(a, s). (V6 a, s)) (read_ipv6_addr s))"

definition read_port :: "string \<Rightarrow> (u16 \<times> string) option" where
  "read_port s = Option.bind (given_char CHR '':'' s) (\<lambda>s.
     map_option (\<lambda>(n, s). (of_nat n, s)) (read_number 10 None True 65536 s))"

definition read_scope_id :: "string \<Rightarrow> (u32 \<times> string) option" where
  "read_scope_id s = Option.bind (given_char CHR ''%'' s) (\<lambda>s.
     map_option (\<lambda>(n, s). (of_nat n, s)) (read_number 10 None True (2 ^ 32) s))"

definition read_socket_addr_v4 :: "string \<Rightarrow> (sock_addr \<times> string) option" where
  "read_socket_addr_v4 s =
     Option.bind (read_ipv4_addr s) (\<lambda>(ip, s).
     map_option (\<lambda>(port, s). (SockV4 ip port, s)) (read_port s))"

definition read_socket_addr_v6 :: "string \<Rightarrow> (sock_addr \<times> string) option" where
  "read_socket_addr_v6 s =
     Option.bind (given_char CHR ''['' s) (\<lambda>s.
     Option.bind (read_ipv6_addr s) (\<lambda>(ip, s).
     let (scope_id, s) = (case read_scope_id s of Some (scope, s) \<Rightarrow> (scope, s) | None \<Rightarrow> (0, s)) in
     Option.bind (given_char CHR '']'' s) (\<lambda>s.
     map_option (\<lambda>(port, s). (SockV6 ip port 0 scope_id, s)) (read_port s))))"

definition read_socket_addr :: "string \<Rightarrow> (sock_addr \<times> string) option" where
  "read_socket_addr s =
     (case read_socket_addr_v4 s of Some x \<Rightarrow> Some x | None \<Rightarrow> read_socket_addr_v6 s)"

text \<open>\<open>parse_with\<close>: the whole input must be read.\<close>

definition parse_with :: "(string \<Rightarrow> ('a \<times> string) option) \<Rightarrow> string \<Rightarrow> 'a option" where
  "parse_with inner s =
     (case inner s of Some (x, rest) \<Rightarrow> if rest = [] then Some x else None | None \<Rightarrow> None)"

definition parse_ip :: "string \<Rightarrow> ip_addr option" where
  "parse_ip = parse_with read_ip_addr"

definition parse_socket_addr :: "string \<Rightarrow> sock_addr option" where
  "parse_socket_addr = parse_with read_socket_addr"

section \<open>Printing\<close>

fun join :: "string \<Rightarrow> string list \<Rightarrow> string" where
  "join sep [] = []"
| "join sep [x] = x"
| "join sep (x # y # xs) = x @ sep @ join sep (y # xs)"

definition show_ipv4 :: "32 word \<Rightarrow> string" where
  "show_ipv4 a = join ''.'' (map show_nat (ipv4_octets a))"

text \<open>The longest run of zero segments, the first of several: start and length.\<close>

fun longest_zeroes ::
    "nat \<Rightarrow> nat list \<Rightarrow> nat \<times> nat \<Rightarrow> nat \<times> nat \<Rightarrow> nat \<times> nat" where
  "longest_zeroes i [] longest current = longest"
| "longest_zeroes i (segment # segments) longest current =
     (if segment = 0 then
        let current = (if snd current = 0 then i else fst current, snd current + 1);
            longest = (if snd current > snd longest then current else longest)
        in longest_zeroes (Suc i) segments longest current
      else longest_zeroes (Suc i) segments longest (0, 0))"

definition fmt_subslice :: "nat list \<Rightarrow> string" where
  "fmt_subslice chunk = join '':'' (map show_hex chunk)"

definition show_ipv6 :: "128 word \<Rightarrow> string" where
  "show_ipv6 a =
     (let segments = ipv6_segments a in
      if take 6 segments = [0, 0, 0, 0, 0, 65535]
      then ''::ffff:'' @ show_ipv4 (of_nat (ungroup 65536 (drop 6 segments)))
      else let (start, len) = longest_zeroes 0 segments (0, 0) (0, 0) in
           if len > 1
           then fmt_subslice (take start segments) @ ''::'' @ fmt_subslice (drop (start + len) segments)
           else fmt_subslice segments)"

fun show_ip :: "ip_addr \<Rightarrow> string" where
  "show_ip (V4 a) = show_ipv4 a"
| "show_ip (V6 a) = show_ipv6 a"

fun show_endpoint :: "ip_addr \<Rightarrow> u16 \<Rightarrow> string" where
  "show_endpoint (V4 a) port = show_ipv4 a @ '':'' @ show_nat (unat port)"
| "show_endpoint (V6 a) port = ''['' @ show_ipv6 a @ '']:'' @ show_nat (unat port)"


section \<open>Reading back what is printed\<close>

lemma length_groups [simp]: "length (groups b n x) = n"
  by (induction b n x rule: groups.induct) simp_all

lemma groups_less: "0 < b \<Longrightarrow> d \<in> set (groups b n x) \<Longrightarrow> d < b"
  by (induction b n x rule: groups.induct) auto

lemma ungroup_snoc [simp]: "ungroup b (ds @ [d]) = ungroup b ds * b + d" "ungroup b [] = 0"
  by (simp_all add: ungroup_def)

lemma ungroup_groups [simp]: "0 < b \<Longrightarrow> ungroup b (groups b n x) = x mod b ^ n"
proof (induction b n x rule: groups.induct)
  case (2 b n x)
  then show ?case by (simp add: mod_mult2_eq mult.commute)
qed simp

lemma ungroup_less: "0 < b \<Longrightarrow> \<forall>d \<in> set ds. d < b \<Longrightarrow> ungroup b ds < b ^ length ds"
proof (induction ds rule: rev_induct)
  case (snoc d ds)
  then have "ungroup b ds + 1 \<le> b ^ length ds" "d < b" by auto
  then have "(ungroup b ds + 1) * b \<le> b ^ length ds * b" by (intro mult_le_mono1)
  with \<open>d < b\<close> show ?case by (simp add: algebra_simps)
qed simp

lemma groups_ungroup: "0 < b \<Longrightarrow> \<forall>d \<in> set ds. d < b \<Longrightarrow> groups b (length ds) (ungroup b ds) = ds"
  by (induction ds rule: rev_induct) auto

lemma join_Cons: "join sep (x # xs) = x @ concat (map (\<lambda>y. sep @ y) xs)"
  by (induction sep "x # xs" arbitrary: x xs rule: join.induct) auto

lemma read_number_no_digit: "no_digit b s \<Longrightarrow> read_number b m z l s = None"
  by (cases s) (simp_all add: read_number_def no_digit_def Let_def)

lemma read_number_rest: "read_number b m z l s = Some (n, r) \<Longrightarrow> r = dropWhile (\<lambda>c. digit_value b c \<noteq> None) s"
  by (auto simp: read_number_def Let_def split: if_splits)

lemma digit_value_punctuation [simp]:
  "b \<le> 16 \<Longrightarrow> digit_value b CHR '':'' = None" "b \<le> 16 \<Longrightarrow> digit_value b CHR ''.'' = None"
  "b \<le> 16 \<Longrightarrow> digit_value b CHR '']'' = None" "b \<le> 16 \<Longrightarrow> digit_value b CHR ''['' = None"
  "b \<le> 16 \<Longrightarrow> digit_value b CHR ''%'' = None"
  by (simp_all add: digit_value_def)

lemma given_char_simps [simp]:
  "given_char c [] = None" "given_char c (c # s) = Some s" "c \<noteq> d \<Longrightarrow> given_char c (d # s) = None"
  by (simp_all add: given_char_def)

subsection \<open>IPv4\<close>

lemma read_octets_show:
  assumes "\<forall>x \<in> set xs. x < 256" "no_digit 10 rest"
  shows "read_octets (Suc i) (length xs) (concat (map (\<lambda>x. ''.'' @ show_nat x) xs) @ rest) = Some (xs, rest)"
  using assms(1)
proof (induction xs arbitrary: i)
  case (Cons x xs)
  let ?tail = "concat (map (\<lambda>x. ''.'' @ show_nat x) xs) @ rest"
  have "no_digit 10 ?tail" using assms(2) by (cases xs) (simp_all add: no_digit_def)
  then have "read_number 10 (Some 3) False 256 (show_nat x @ ?tail) = Some (x, ?tail)"
    using Cons.prems unfolding show_nat_radix by (intro read_number_show) auto
  with Cons show ?case by (simp add: read_separator_def)
qed simp

lemma read_ipv4_addr_show [simp]:
  assumes "no_digit 10 rest"
  shows "read_ipv4_addr (show_ipv4 a @ rest) = Some (a, rest)"
proof -
  have "length (ipv4_octets a) = 4" by (simp add: ipv4_octets_def)
  then obtain x xs where xs: "ipv4_octets a = x # xs" "length xs = 3" by (cases "ipv4_octets a") auto
  have small: "\<forall>y \<in> set (x # xs). y < 256"
    unfolding xs(1) [symmetric] ipv4_octets_def by (rule ballI, rule groups_less) simp_all
  let ?tail = "concat (map (\<lambda>x. ''.'' @ show_nat x) xs) @ rest"
  have "no_digit 10 ?tail" using assms by (cases xs) (simp_all add: no_digit_def)
  then have "read_number 10 (Some 3) False 256 (show_nat x @ ?tail) = Some (x, ?tail)"
    using small unfolding show_nat_radix by (intro read_number_show) auto
  moreover have "read_octets (Suc 0) 3 ?tail = Some (xs, rest)"
    using read_octets_show [of xs rest 0] small assms xs(2) by simp
  moreover have "read_octets 0 4 = read_octets 0 (Suc 3)" by simp
  ultimately have "read_octets 0 4 (show_ipv4 a @ rest) = Some (x # xs, rest)"
    by (simp only: read_octets.simps) (simp add: show_ipv4_def xs(1) join_Cons comp_def read_separator_def)
  moreover have "unat a < 2 ^ 32" using unat_bound [of a] by simp
  ultimately show ?thesis
    by (simp add: read_ipv4_addr_def xs(1) [symmetric] ipv4_octets_def)
qed

lemma read_ipv4_addr_None:
  assumes "given_char CHR ''.'' (dropWhile (\<lambda>c. digit_value 10 c \<noteq> None) s) = None"
  shows "read_ipv4_addr s = None"
proof (cases "read_number 10 (Some 3) False 256 s")
  case (Some p)
  then show ?thesis using assms read_number_rest [of 10 "Some 3" False 256 s]
    by (cases p) (auto simp: read_ipv4_addr_def numeral_eq_Suc read_separator_def)
qed (simp add: read_ipv4_addr_def numeral_eq_Suc read_separator_def)

lemma hex_of_decimal: "digit_value 10 c \<noteq> None \<Longrightarrow> digit_value 16 c \<noteq> None"
  by (auto simp: digit_value_def Let_def split: if_splits)

text \<open>A group is not an IPv4 address when no dot follows it.\<close>

lemma read_ipv4_addr_hex:
  assumes "\<forall>c \<in> set h. digit_value 16 c \<noteq> None" and "no_digit 16 rest" and "given_char CHR ''.'' rest = None"
  shows "read_ipv4_addr (h @ rest) = None"
proof (rule read_ipv4_addr_None)
  let ?p = "\<lambda>c. digit_value 10 c \<noteq> None"
  have dot: "c \<noteq> CHR ''.''" if "c \<in> set h" for c using assms(1) that by force
  have "dropWhile ?p rest = rest"
    using assms(2) hex_of_decimal [of "hd rest"] by (cases rest) (auto simp: no_digit_def)
  then have "dropWhile ?p (h @ rest) = rest \<or> (dropWhile ?p (h @ rest) \<noteq> [] \<and> hd (dropWhile ?p (h @ rest)) \<in> set h)"
    by (induction h) auto
  then show "given_char CHR ''.'' (dropWhile ?p (h @ rest)) = None"
  proof
    assume "dropWhile ?p (h @ rest) = rest"
    then show ?thesis using assms(3) by (simp only:)
  next
    assume "dropWhile ?p (h @ rest) \<noteq> [] \<and> hd (dropWhile ?p (h @ rest)) \<in> set h"
    then obtain c cs where "dropWhile ?p (h @ rest) = c # cs" "c \<noteq> CHR ''.''"
      using dot by (metis list.exhaust_sel)
    then show ?thesis by simp
  qed
qed

lemma no_digit_10: "no_digit 16 s \<Longrightarrow> no_digit 10 s"
  using hex_of_decimal [of "hd s"] by (cases "digit_value 10 (hd s)") (auto simp: no_digit_def)

subsection \<open>IPv6\<close>

text \<open>Input at which the groups of an IPv6 address end.\<close>

definition stops :: "string \<Rightarrow> bool" where
  "stops rest \<longleftrightarrow> no_digit 16 rest \<and> given_char CHR ''.'' rest = None \<and>
     (\<forall>s. given_char CHR '':'' rest = Some s \<longrightarrow> no_digit 16 s \<and> given_char CHR ''.'' s = None)"

lemma read_groups_stop:
  assumes "stops rest"
  shows "read_groups limit i rest = ([], False, rest)"
proof -
  have none: "read_ipv4_addr s = None" "read_number 16 (Some 4) True 65536 s = None"
    if "no_digit 16 s" "given_char CHR ''.'' s = None" for s
    using read_ipv4_addr_hex [of "[]"] that read_number_no_digit by simp_all
  have "read_separator CHR '':'' i read_ipv4_addr rest = None"
    "read_separator CHR '':'' i (read_number 16 (Some 4) True 65536) rest = None"
    using assms none by (cases "given_char CHR '':'' rest"; simp add: read_separator_def stops_def)+
  then show ?thesis by (simp add: read_groups.simps [of limit i])
qed

lemma read_number_hex:
  assumes "g < 65536" "no_digit 16 rest"
  shows "read_number 16 (Some 4) True 65536 (show_hex g @ rest) = Some (g, rest)"
  unfolding show_hex_def using assms by (intro read_number_show) auto

lemma read_ipv4_addr_group:
  assumes "no_digit 16 rest" "given_char CHR ''.'' rest = None"
  shows "read_ipv4_addr (show_hex g @ rest) = None"
proof (rule read_ipv4_addr_hex [OF _ assms])
  show "\<forall>c \<in> set (show_hex g). digit_value 16 c \<noteq> None"
    using show_radix_digits [of _ 16 g] by (simp add: show_hex_def)
qed

text \<open>One group, and the groups after a first one.\<close>

definition separated :: "nat \<Rightarrow> string \<Rightarrow> string" where
  "separated i s = (if 0 < i then CHR '':'' # s else s)"

lemma read_separator_separated [simp]: "read_separator CHR '':'' i f (separated i s) = f s"
  by (simp add: read_separator_def separated_def)

lemma read_groups_step:
  assumes "i < limit" "g < 65536" "no_digit 16 rest" "given_char CHR ''.'' rest = None"
  shows "read_groups limit i (separated i (show_hex g @ rest)) =
    (case read_groups limit (Suc i) rest of (gs, v4, s) \<Rightarrow> (g # gs, v4, s))"
  using assms read_number_hex [OF assms(2,3)] read_ipv4_addr_group [OF assms(3,4)]
  by (subst read_groups.simps) (simp split: prod.splits)

definition colon_groups :: "nat list \<Rightarrow> string" where
  "colon_groups gs = concat (map (\<lambda>g. '':'' @ show_hex g) gs)"

lemma colon_groups_stops:
  assumes "stops rest"
  shows "no_digit 16 (colon_groups gs @ rest)" "given_char CHR ''.'' (colon_groups gs @ rest) = None"
  using assms by (cases gs; simp add: colon_groups_def stops_def no_digit_def)+

lemma read_groups_colon:
  assumes "stops rest" "\<forall>g \<in> set gs. g < 65536" "i + length gs \<le> limit" "0 < i"
  shows "read_groups limit i (colon_groups gs @ rest) = (gs, False, rest)"
  using assms(2-)
proof (induction gs arbitrary: i)
  case Nil
  then show ?case using read_groups_stop [OF assms(1)] by (simp add: colon_groups_def)
next
  case (Cons g gs)
  have "colon_groups (g # gs) @ rest = separated i (show_hex g @ colon_groups gs @ rest)"
    using Cons.prems by (simp add: colon_groups_def separated_def)
  then show ?case
    using read_groups_step [of i limit g "colon_groups gs @ rest"] colon_groups_stops [OF assms(1)]
      Cons.IH [of "Suc i"] Cons.prems by simp
qed

lemma fmt_subslice_Cons: "fmt_subslice (g # gs) = show_hex g @ colon_groups gs"
  by (simp add: fmt_subslice_def join_Cons colon_groups_def comp_def)

lemma read_groups_show:
  assumes "stops rest" "\<forall>g \<in> set gs. g < 65536" "length gs \<le> limit"
  shows "read_groups limit 0 (fmt_subslice gs @ rest) = (gs, False, rest)"
proof (cases gs)
  case Nil
  then show ?thesis using read_groups_stop [OF assms(1)] by (simp add: fmt_subslice_def)
next
  case (Cons g gs')
  then show ?thesis
    using read_groups_step [of 0 limit g "colon_groups gs' @ rest"] colon_groups_stops [OF assms(1)]
      read_groups_colon [OF assms(1), of gs' "Suc 0" limit] assms(2,3)
    by (simp add: fmt_subslice_Cons separated_def)
qed

text \<open>The run of zeroes that is left out.\<close>

definition zero_span :: "nat list \<Rightarrow> nat \<times> nat \<Rightarrow> bool" where
  "zero_span xs = (\<lambda>(start, len). start + len \<le> length xs \<and> (\<forall>k < len. xs ! (start + k) = 0))"

lemma zero_span_append: "zero_span xs c \<Longrightarrow> zero_span (xs @ ys) c"
  by (auto simp: zero_span_def nth_append)

lemma longest_zeroes_span:
  assumes "zero_span (xs @ ys) longest" "zero_span xs current"
    and "snd current = 0 \<or> fst current + snd current = length xs"
  shows "zero_span (xs @ ys) (longest_zeroes (length xs) ys longest current)"
  using assms
proof (induction ys arbitrary: xs longest current)
  case (Cons y ys)
  obtain s n where c: "current = (s, n)" by (cases current)
  show ?case
  proof (cases "y = 0")
    case False
    then show ?thesis using Cons.IH [of "xs @ [y]" longest "(0, 0)"] Cons.prems by (simp add: zero_span_def)
  next
    case True
    let ?c = "(if n = 0 then length xs else s, n + 1)"
    have z: "zero_span (xs @ [y]) ?c" "fst ?c + snd ?c = length (xs @ [y])"
      using Cons.prems True unfolding c zero_span_def by (auto simp: nth_append less_Suc_eq)
    moreover have "zero_span (xs @ y # ys) ?c" using zero_span_append [OF z(1), of ys] by simp
    ultimately show ?thesis
      using Cons.IH [of "xs @ [y]" "if snd ?c > snd longest then ?c else longest" ?c] Cons.prems True
      by (cases "n = 0"; cases "snd longest < Suc n") (simp_all add: c Let_def)
  qed
qed simp

lemma zero_span_split:
  assumes "zero_span xs (start, len)"
  shows "xs = take start xs @ replicate len 0 @ drop (start + len) xs"
proof -
  have "take len (drop start xs) = replicate len 0"
    using assms by (intro nth_equalityI) (auto simp: zero_span_def)
  then show ?thesis by (metis append_take_drop_id drop_drop add.commute)
qed

text \<open>The two ways a segment list is printed, and the text before the first colon.\<close>

lemma ipv6_segments_props:
  "length (ipv6_segments a) = 8" "\<forall>g \<in> set (ipv6_segments a). g < 65536"
  "of_nat (ungroup 65536 (ipv6_segments a)) = a"
proof -
  have "unat a < 2 ^ 128" using unat_bound [of a] by simp
  then show "of_nat (ungroup 65536 (ipv6_segments a)) = a" by (simp add: ipv6_segments_def)
  show "\<forall>g \<in> set (ipv6_segments a). g < 65536"
    unfolding ipv6_segments_def by (rule ballI, rule groups_less) simp_all
qed (simp add: ipv6_segments_def)

lemma read_ipv6_addr_plain:
  assumes "stops rest"
  shows "read_ipv6_addr (fmt_subslice (ipv6_segments a) @ rest) = Some (a, rest)"
  using read_groups_show [OF assms, of "ipv6_segments a" 8]
  by (simp add: read_ipv6_addr_def ipv6_segments_props)

lemma stops_double_colon: "stops ('':'' @ '':'' @ rest)"
  by (simp add: stops_def no_digit_def)

lemma read_ipv6_addr_short:
  assumes "stops rest" "zero_span (ipv6_segments a) (start, len)" "1 < len"
  shows "read_ipv6_addr (fmt_subslice (take start (ipv6_segments a)) @ ''::'' @
    fmt_subslice (drop (start + len) (ipv6_segments a)) @ rest) = Some (a, rest)"
proof -
  let ?xs = "ipv6_segments a"
  let ?tail = "fmt_subslice (drop (start + len) ?xs) @ rest"
  have fits: "start + len \<le> 8" using assms(2) by (simp add: zero_span_def ipv6_segments_props(1))
  have small: "\<forall>g \<in> set (take n ?xs). g < 65536" "\<forall>g \<in> set (drop n ?xs). g < 65536" for n
    using ipv6_segments_props(2) by (meson in_set_takeD in_set_dropD)+
  have head: "read_groups 8 0 (fmt_subslice (take start ?xs) @ ''::'' @ ?tail) = (take start ?xs, False, ''::'' @ ?tail)"
    using read_groups_show [OF stops_double_colon, of "take start ?xs" 8 ?tail] small(1) by (simp add: ipv6_segments_props(1))
  have len: "length (take start ?xs) = start" using fits by (simp add: ipv6_segments_props(1))
  have tail: "read_groups (8 - (start + 1)) 0 ?tail = (drop (start + len) ?xs, False, rest)"
    using read_groups_show [OF assms(1) small(2), of "start + len" "8 - (start + 1)"] assms(3)
    by (simp add: ipv6_segments_props(1))
  have "take start ?xs @ replicate (8 - length (drop (start + len) ?xs) - start) 0 @ drop (start + len) ?xs = ?xs"
    using zero_span_split [OF assms(2)] fits by (simp add: ipv6_segments_props(1))
  then show ?thesis
    unfolding read_ipv6_addr_def Let_def head using len tail fits assms(3)
    by (simp add: ipv6_segments_props(3))
qed

lemma read_ipv6_addr_mapped:
  assumes "stops rest" "take 6 (ipv6_segments a) = [0, 0, 0, 0, 0, 65535]"
  shows "read_ipv6_addr (''::ffff:'' @ show_ipv4 (of_nat (ungroup 65536 (drop 6 (ipv6_segments a)))) @ rest) =
    Some (a, rest)"
proof -
  let ?low = "drop 6 (ipv6_segments a)"
  let ?v4 = "of_nat (ungroup 65536 ?low) :: 32 word"
  let ?text = "show_ipv4 ?v4 @ rest"
  have small: "\<forall>g \<in> set ?low. g < 65536" using ipv6_segments_props(2) by (meson in_set_dropD)
  have len: "length ?low = 2" by (simp add: ipv6_segments_props(1))
  have "ungroup 65536 ?low < 2 ^ 32" using ungroup_less [OF _ small] len by simp
  then have "unat ?v4 = ungroup 65536 ?low" by (simp add: unat_of_nat)
  then have low: "groups 65536 2 (unat ?v4) = ?low" using groups_ungroup [OF _ small] len by simp
  have v4: "read_ipv4_addr ?text = Some (?v4, rest)"
    using assms(1) by (simp add: stops_def no_digit_10)
  have "char_of (102 :: nat) = CHR ''f''" by code_simp
  then have hex: "''ffff'' = show_hex 65535" by (simp add: show_hex_def show_radix.simps digit_char_def)
  have "read_groups 7 (Suc 0) ('':'' @ ?text) = (?low, True, rest)"
    using v4 low by (subst read_groups.simps) (simp add: read_separator_def)
  then have tail: "read_groups 7 0 (''ffff:'' @ ?text) = (65535 # ?low, True, rest)"
    using read_groups_step [of 0 7 65535 "'':'' @ ?text", folded hex] by (simp add: separated_def no_digit_def)
  have head: "read_groups 8 0 (''::ffff:'' @ ?text) = ([], False, ''::ffff:'' @ ?text)"
    using read_groups_stop [OF stops_double_colon, of 8 0 "''ffff:'' @ ?text"] by simp
  have "ipv6_segments a = [0, 0, 0, 0, 0, 65535] @ ?low"
    using append_take_drop_id [of 6 "ipv6_segments a"] unfolding assms(2) by (rule sym)
  moreover have "replicate 5 (0 :: nat) = [0, 0, 0, 0, 0]" by (simp add: numeral_eq_Suc)
  ultimately have "replicate 5 0 @ 65535 # ?low = ipv6_segments a" by simp
  then have "of_nat (ungroup 65536 (replicate 5 0 @ 65535 # ?low)) = a" by (simp only: ipv6_segments_props(3))
  then show ?thesis
    unfolding read_ipv6_addr_def Let_def head using tail len by simp
qed

lemma read_ipv6_addr_show [simp]:
  assumes "stops rest"
  shows "read_ipv6_addr (show_ipv6 a @ rest) = Some (a, rest)"
proof -
  obtain start len where z: "longest_zeroes 0 (ipv6_segments a) (0, 0) (0, 0) = (start, len)" by fastforce
  have "zero_span (ipv6_segments a) (start, len)"
    using longest_zeroes_span [of "[]" "ipv6_segments a" "(0, 0)" "(0, 0)"] z by (simp add: zero_span_def)
  then show ?thesis
    using read_ipv6_addr_plain [OF assms, of a] read_ipv6_addr_mapped [OF assms, of a]
      read_ipv6_addr_short [OF assms, of a start len] z
    by (simp add: show_ipv6_def Let_def)
qed

subsection \<open>The parsers of the program\<close>

text \<open>A printed IPv6 address has a colon before any dot, and neither address begins with a bracket.\<close>

definition hex_then_colon :: "string \<Rightarrow> bool" where
  "hex_then_colon s \<longleftrightarrow> (\<exists>h rest. s = h @ CHR '':'' # rest \<and> (\<forall>c \<in> set h. digit_value 16 c \<noteq> None))"

lemma hex_then_colon_simps [simp]:
  "hex_then_colon (CHR '':'' # s)" "hex_then_colon (show_hex g @ CHR '':'' # s)"
proof -
  show "hex_then_colon (CHR '':'' # s)" unfolding hex_then_colon_def
    by (rule exI [of _ "[]"], rule exI [of _ s]) simp
  have "\<forall>c \<in> set (show_hex g). digit_value 16 c \<noteq> None"
    using show_radix_digits [of _ 16 g] by (simp add: show_hex_def)
  then show "hex_then_colon (show_hex g @ CHR '':'' # s)" unfolding hex_then_colon_def by blast
qed

lemma hex_then_colon_groups:
  "hex_then_colon (fmt_subslice xs @ CHR '':'' # s)" "1 < length xs \<Longrightarrow> hex_then_colon (fmt_subslice xs)"
proof -
  show "hex_then_colon (fmt_subslice xs @ CHR '':'' # s)"
  proof (cases xs)
    case (Cons g gs)
    then show ?thesis by (cases gs) (simp_all add: fmt_subslice_Cons colon_groups_def)
  qed (simp add: fmt_subslice_def)
  show "hex_then_colon (fmt_subslice xs)" if "1 < length xs"
    using that by (cases xs rule: remdups_adj.cases) (simp_all add: fmt_subslice_Cons colon_groups_def)
qed

lemma hex_then_colon_show_ipv6: "hex_then_colon (show_ipv6 a)"
  using hex_then_colon_groups(1) [where s = "CHR '':'' # s" for s] hex_then_colon_groups(2) [of "ipv6_segments a"]
  by (simp add: show_ipv6_def Let_def ipv6_segments_props(1) split: prod.split)

lemma read_ipv4_addr_show_ipv6: "read_ipv4_addr (show_ipv6 a @ s) = None"
proof -
  obtain h rest where "show_ipv6 a = h @ CHR '':'' # rest" "\<forall>c \<in> set h. digit_value 16 c \<noteq> None"
    using hex_then_colon_show_ipv6 [of a] unfolding hex_then_colon_def by blast
  then show ?thesis using read_ipv4_addr_hex [of h "CHR '':'' # rest @ s"] by (simp add: no_digit_def)
qed

lemma read_ipv4_addr_bracket: "read_ipv4_addr (CHR ''['' # s) = None"
  using read_ipv4_addr_hex [of "[]"] by (simp add: no_digit_def)

lemma no_bracket_show:
  "given_char CHR ''['' (show_ipv4 a @ s) = None" "given_char CHR ''['' (show_ipv6 b @ s) = None"
proof -
  have ne: "c \<noteq> CHR ''[''" if "digit_value 16 c \<noteq> None" for c using that by force
  have "length (ipv4_octets a) = 4" by (simp add: ipv4_octets_def)
  then obtain x xs where "ipv4_octets a = x # xs" by (cases "ipv4_octets a") auto
  then have "show_ipv4 a = show_nat x @ concat (map (\<lambda>y. ''.'' @ show_nat y) xs)"
    by (simp add: show_ipv4_def join_Cons comp_def)
  moreover have "digit_value 10 (hd (show_nat x)) \<noteq> None"
    unfolding show_nat_radix by (rule show_radix_digits [of _ _ x]) simp_all
  then have "hd (show_nat x) \<noteq> CHR ''[''" by (rule ne [OF hex_of_decimal])
  ultimately show "given_char CHR ''['' (show_ipv4 a @ s) = None"
    by (cases "show_nat x") (auto simp: given_char_def)
  obtain h rest where "show_ipv6 b = h @ CHR '':'' # rest" "\<forall>c \<in> set h. digit_value 16 c \<noteq> None"
    using hex_then_colon_show_ipv6 [of b] unfolding hex_then_colon_def by blast
  then show "given_char CHR ''['' (show_ipv6 b @ s) = None"
    using ne by (cases h) (auto simp: given_char_def)
qed

text \<open>What \<open>Display\<close> prints for an address is that address to the parser, and not a socket address.\<close>

lemma parse_ip_show [simp]: "parse_ip (show_ip ip) = Some ip"
  using read_ipv4_addr_show [of "[]"] read_ipv6_addr_show [of "[]"] read_ipv4_addr_show_ipv6 [of _ "[]"]
  by (cases ip) (simp_all add: parse_ip_def parse_with_def read_ip_addr_def no_digit_def stops_def)

lemma parse_socket_addr_show_ip [simp]: "parse_socket_addr (show_ip ip) = None"
  using read_ipv4_addr_show [of "[]"] read_ipv4_addr_show_ipv6 [of _ "[]"] no_bracket_show [where s = "[]"]
  by (cases ip) (simp_all add: parse_socket_addr_def parse_with_def read_socket_addr_def read_socket_addr_v4_def
      read_socket_addr_v6_def read_port_def no_digit_def)

lemma read_port_show: "read_port ('':'' @ show_nat (unat port)) = Some (port, [])"
  using read_number_show [of 10 "[]" "unat port" 65536 None True] unat_bound [of port]
  by (simp add: read_port_def show_nat_radix no_digit_def)

lemma parse_socket_addr_show [simp]: "parse_socket_addr (show_endpoint ip port) = Some (sock_addr_new ip port)"
proof (cases ip)
  case (V4 a)
  then show ?thesis
    using read_ipv4_addr_show [of "'':'' @ show_nat (unat port)" a] read_port_show [of port]
    by (simp add: parse_socket_addr_def parse_with_def read_socket_addr_def read_socket_addr_v4_def no_digit_def)
next
  case (V6 a)
  have "read_ipv6_addr (show_ipv6 a @ '']:'' @ show_nat (unat port)) = Some (a, '']:'' @ show_nat (unat port))"
    by (rule read_ipv6_addr_show) (simp add: stops_def no_digit_def)
  then show ?thesis
    using V6 read_ipv4_addr_bracket read_port_show [of port]
    by (simp add: parse_socket_addr_def parse_with_def read_socket_addr_def read_socket_addr_v4_def
        read_socket_addr_v6_def read_scope_id_def)
qed

text \<open>A text that starts with neither a hexadecimal digit nor a separator is no address.\<close>

lemma starts_no_address:
  assumes "digit_value 16 c = None" "digit_value 10 c = None" "c \<noteq> CHR '':''" "c \<noteq> CHR ''[''"
  shows "parse_ip (c # s) = None" "parse_socket_addr (c # s) = None"
proof -
  have n: "read_number b m z l (c # s) = None" if "digit_value b c = None" for b m z l
    by (rule read_number_no_digit) (simp add: no_digit_def that)
  have "read_octets 0 (Suc k) (c # s) = None" for k
    by (simp add: read_separator_def n assms(2))
  from this [of 3] have v4: "read_ipv4_addr (c # s) = None" by (simp add: read_ipv4_addr_def)
  have "read_groups 8 0 (c # s) = ([], False, c # s)"
    by (subst read_groups.simps) (simp add: read_separator_def v4 n assms(1))
  then have "read_ipv6_addr (c # s) = None" using assms(3) by (simp add: read_ipv6_addr_def given_char_def)
  with v4 show "parse_ip (c # s) = None" "parse_socket_addr (c # s) = None"
    using assms(4)
    by (simp_all add: parse_ip_def parse_socket_addr_def parse_with_def read_ip_addr_def read_socket_addr_def
        read_socket_addr_v4_def read_socket_addr_v6_def given_char_def)
qed

declare show_ip.simps [simp del] show_endpoint.simps [simp del]

end
