(* ===== verification/Std_Fmt.thy ===== *)
theory Std_Fmt
  imports Ring_Prelude Complex_Main
begin

text \<open>
  What the program uses of \<open>std::time\<close> and \<open>std::fmt\<close> to print a round-trip time:
  \<open>Duration::as_secs_f64\<close>, the product with 1000 and \<open>{:.3}\<close>. A finite \<open>f64\<close> is the rational it
  stands for; every operation rounds its exact result to 53 significant bits, ties to even (no
  operand here is subnormal or overflows). The lemmas bound the accumulated error and show that what is
  printed is the nearest number of microseconds.
\<close>

section \<open>Floating point\<close>

definition round_half_even :: "rat \<Rightarrow> int" where
  "round_half_even x =
     (let f = \<lfloor>x\<rfloor>; r = x - of_int f
      in if r < 1 / 2 \<or> (r = 1 / 2 \<and> even f) then f else f + 1)"

fun bit_len :: "nat \<Rightarrow> nat" where
  "bit_len n = (if n = 0 then 0 else Suc (bit_len (n div 2)))"

declare bit_len.simps [simp del]

text \<open>The exponent of the leading bit of a positive number.\<close>

definition exponent :: "rat \<Rightarrow> int" where
  "exponent x =
     (let (n, d) = quotient_of x; e = int (bit_len (nat n)) - int (bit_len (nat d))
      in if 2 powi e \<le> x then e else e - 1)"

definition f64 :: "rat \<Rightarrow> rat" where
  "f64 x =
     (if x = 0 then 0
      else let ulp = 2 powi (exponent x - 52) in of_int (round_half_even (x / ulp)) * ulp)"

section \<open>Durations\<close>

text \<open>A duration is its number of nanoseconds.\<close>

definition as_secs_f64 :: "nat \<Rightarrow> rat" where
  "as_secs_f64 ns =
     f64 (f64 (of_nat (ns div 10 ^ 9)) + f64 (f64 (of_nat (ns mod 10 ^ 9)) / f64 (10 ^ 9)))"

text \<open>\<open>{:.3}\<close>: the exact value, rounded to the third decimal.\<close>

definition three_digits :: "nat \<Rightarrow> string" where
  "three_digits n = show_nat (n div 100) @ show_nat (n div 10 mod 10) @ show_nat (n mod 10)"

definition fixed3 :: "nat \<Rightarrow> string" where
  "fixed3 k = show_nat (k div 1000) @ ''.'' @ three_digits (k mod 1000)"

definition fmt_3 :: "rat \<Rightarrow> string" where
  "fmt_3 x = fixed3 (nat (round_half_even (x * 1000)))"

definition fmt_ms :: "nat \<Rightarrow> string" where
  "fmt_ms ns = fmt_3 (f64 (as_secs_f64 ns * f64 1000))"

section \<open>The error of an operation\<close>

lemma round_half_even_error: "\<bar>of_int (round_half_even x) - x\<bar> \<le> 1 / 2"
proof -
  have "of_int \<lfloor>x\<rfloor> \<le> x" "x < of_int \<lfloor>x\<rfloor> + 1" by linarith+
  then show ?thesis by (auto simp: round_half_even_def Let_def abs_le_iff)
qed

lemma bit_len_bounds: "n < 2 ^ bit_len n \<and> (0 < n \<longrightarrow> 2 ^ bit_len n \<le> 2 * n)"
proof (induction n rule: bit_len.induct)
  case (1 n)
  show ?case
  proof (cases "n = 0")
    case False
    then have "n div 2 < 2 ^ bit_len (n div 2)" "0 < n div 2 \<longrightarrow> 2 ^ bit_len (n div 2) \<le> 2 * (n div 2)"
      using 1 by blast+
    moreover have "n = 1" if "n div 2 = 0" using that False by simp
    ultimately show ?thesis
      using False by (cases "n div 2 = 0") (auto simp: bit_len.simps [of n] bit_len.simps [of "Suc 0"] bit_len.simps [of 0])
  qed (simp add: bit_len.simps [of 0])
qed

lemma exponent_le:
  assumes "0 < x"
  shows "2 powi exponent x \<le> x"
proof -
  obtain n d where q: "quotient_of x = (n, d)" by fastforce
  have d: "0 < d" and x: "x = of_int n / of_int d" using quotient_of_denom_pos [OF q] quotient_of_div [OF q] by auto
  then have n: "0 < n" using assms by (simp add: zero_less_divide_iff)
  let ?a = "bit_len (nat n)" and ?b = "bit_len (nat d)"
  have "2 ^ ?a \<le> 2 * nat n" "nat d < 2 ^ ?b" using bit_len_bounds n d by auto
  then have "int (2 ^ ?a) \<le> 2 * n" "d < int (2 ^ ?b)" using n d by linarith+
  then have "(of_int (int (2 ^ ?a)) :: rat) \<le> of_int (2 * n)" "(of_int d :: rat) < of_int (int (2 ^ ?b))"
    unfolding of_int_le_iff of_int_less_iff .
  then have ab: "(2 :: rat) ^ ?a / 2 \<le> of_int n" "(of_int d :: rat) \<le> 2 ^ ?b" by simp_all
  have "(2 :: rat) powi (int ?a - int ?b - 1) = 2 ^ ?a / 2 / 2 ^ ?b"
    by (simp add: power_int_diff)
  also have "\<dots> \<le> of_int n / of_int d"
    using ab d n by (intro frac_le) auto
  finally show ?thesis using q x by (auto simp: exponent_def Let_def)
qed

lemma f64_error:
  assumes "0 \<le> x"
  shows "\<bar>f64 x - x\<bar> \<le> x / 2 ^ 53"
proof (cases "x = 0")
  case False
  let ?u = "2 powi (exponent x - 52) :: rat"
  have u: "0 < ?u" by simp
  have "\<bar>of_int (round_half_even (x / ?u)) * ?u - x\<bar> = \<bar>of_int (round_half_even (x / ?u)) - x / ?u\<bar> * ?u"
    using u by (simp add: abs_mult [symmetric, of _ ?u, unfolded abs_of_pos [OF u]] left_diff_distrib)
  also have "\<dots> \<le> 1 / 2 * ?u" using round_half_even_error u by (intro mult_right_mono) auto
  also have "\<dots> = 2 powi exponent x / 2 ^ 53" by (simp add: power_int_diff)
  also have "\<dots> \<le> x / 2 ^ 53" using exponent_le [of x] assms False by (intro divide_right_mono) auto
  finally show ?thesis using False by (simp add: f64_def Let_def)
qed (simp add: f64_def)

lemma round_half_even_int [simp]: "round_half_even (of_int k) = k"
  by (simp add: round_half_even_def)

text \<open>Integers of at most 53 bits are exact.\<close>

lemma f64_of_nat:
  assumes "n < 2 ^ 53"
  shows "f64 (of_nat n) = of_nat n"
proof (cases "n = 0")
  case False
  let ?x = "of_nat n :: rat"
  let ?e = "exponent ?x"
  have "(2 :: rat) powi ?e \<le> ?x" using False by (intro exponent_le) simp
  also have "?x < of_nat (2 ^ 53)" using assms unfolding of_nat_less_iff .
  also have "\<dots> = 2 powi 53" by (simp add: power_int_def)
  finally have "(2 :: rat) powi ?e < 2 powi 53" .
  then have "?e < 53" by (intro power_int_le_imp_less_exp [of "2 :: rat"]) simp_all
  then have "?e - 52 = - int (nat (52 - ?e))" by simp
  then have ulp: "(2 :: rat) powi (?e - 52) = 1 / 2 ^ nat (52 - ?e)"
    by (metis power_int_minus power_int_of_nat inverse_eq_divide)
  moreover have "?x / (1 / 2 ^ nat (52 - ?e)) = of_int (int n * 2 ^ nat (52 - ?e))" by simp
  ultimately have "round_half_even (?x / 2 powi (?e - 52)) = int n * 2 ^ nat (52 - ?e)"
    by (simp only: round_half_even_int)
  then show ?thesis
    using False ulp by (simp add: f64_def Let_def)
qed (simp add: f64_def)

lemma of_nat_div_mod: "(of_nat n :: rat) = of_nat (n div m) * of_nat m + of_nat (n mod m)"
  by (simp only: of_nat_mult [symmetric] of_nat_add [symmetric] div_mult_mod_eq)

text \<open>The error of the sum, the product and the final rounding together.\<close>

lemma accumulated_error:
  fixes s q d b c n :: rat and k :: int
  assumes "0 \<le> s" "0 \<le> q" and d: "\<bar>d - q\<bar> \<le> q / 2 ^ 53" and b: "\<bar>b - (s + d)\<bar> \<le> (s + d) / 2 ^ 53"
    and c: "\<bar>c - b * 1000\<bar> \<le> b * 1000 / 2 ^ 53" and k: "\<bar>of_int k - c * 1000\<bar> \<le> 1 / 2"
    and n: "n = (s + q) * 10 ^ 9" "n < 2 ^ 50"
  shows "\<bar>of_int k * 1000 - n\<bar> < 501"
proof -
  have "d \<le> q + q / 2 ^ 53" "q - q / 2 ^ 53 \<le> d" using d unfolding abs_le_iff by linarith+
  moreover have "b \<le> s + d + (s + d) / 2 ^ 53" "s + d - (s + d) / 2 ^ 53 \<le> b"
    using b unfolding abs_le_iff by linarith+
  moreover have "c \<le> b * 1000 + b * 1000 / 2 ^ 53" "b * 1000 - b * 1000 / 2 ^ 53 \<le> c"
    using c unfolding abs_le_iff by linarith+
  moreover have "of_int k \<le> c * 1000 + 1 / 2" "c * 1000 - 1 / 2 \<le> of_int k"
    using k unfolding abs_le_iff by linarith+
  ultimately have "of_int k * 1000 < n + 501" "n < of_int k * 1000 + 501"
    using assms(1,2) n by (simp_all add: field_simps)
  then show ?thesis by (simp add: abs_less_iff)
qed

lemma f64_nonneg: "0 \<le> x \<Longrightarrow> 0 \<le> f64 x"
proof -
  assume "0 \<le> x"
  then have "x - f64 x \<le> x / 2 ^ 53" using f64_error [of x] unfolding abs_le_iff by linarith
  moreover have "x / 2 ^ 53 \<le> x" using \<open>0 \<le> x\<close> by simp
  ultimately show "0 \<le> f64 x" by linarith
qed

lemma fmt_ms_nearest:
  assumes "ns < 2 ^ 50"
  shows "\<exists>k. fmt_ms ns = fixed3 k \<and> \<bar>1000 * int k - int ns\<bar> \<le> 500"
proof -
  define s where "s = (of_nat (ns div 10 ^ 9) :: rat)"
  define q where "q = (of_nat (ns mod 10 ^ 9) / 10 ^ 9 :: rat)"
  define b where "b = f64 (s + f64 q)"
  define k where "k = round_half_even (f64 (b * 1000) * 1000)"
  have exact: "f64 s = s" "f64 (of_nat (ns mod 10 ^ 9)) = of_nat (ns mod 10 ^ 9)"
    "f64 (of_nat (10 ^ 9)) = of_nat (10 ^ 9)" "f64 (of_nat 1000) = of_nat 1000"
    unfolding s_def using assms
    by (intro f64_of_nat; simp add: div_less_iff_less_mult order.strict_trans [OF mod_less_divisor])+
  then have shown: "fmt_ms ns = fixed3 (nat k)"
    by (simp add: fmt_ms_def fmt_3_def as_secs_f64_def k_def b_def s_def q_def)
  have pos: "0 \<le> s" "0 \<le> q" unfolding s_def q_def by simp_all
  have n: "of_nat ns = (s + q) * 10 ^ 9"
    using of_nat_div_mod [of ns "10 ^ 9"] by (simp add: s_def q_def distrib_right)
  have "(of_nat ns :: rat) < of_nat (2 ^ 50)" using assms unfolding of_nat_less_iff .
  then have small: "(of_nat ns :: rat) < 2 ^ 50" by simp
  have sum: "0 \<le> s + f64 q" using pos f64_nonneg [of q] by simp
  then have product: "0 \<le> b * 1000" unfolding b_def using f64_nonneg by simp
  have "\<bar>of_int k * 1000 - (of_nat ns :: rat)\<bar> < 501"
    using accumulated_error [OF pos f64_error [OF pos(2)] f64_error [OF sum, folded b_def]
        f64_error [OF product] round_half_even_error n small] unfolding k_def .
  then have "of_int \<bar>k * 1000 - int ns\<bar> < (of_int 501 :: rat)" by simp
  then have "\<bar>k * 1000 - int ns\<bar> < 501" unfolding of_int_less_iff .
  then show ?thesis using shown by (intro exI [of _ "nat k"]) auto
qed

end
