(* ===== verification/Output.thy ===== *)
theory Output
  imports Trace_Props Std_Net Std_Fmt
begin

text \<open>
  What src/src/main.rs prints of a trace: \<open>Display\<close> of a probe's result (src/src/trace.rs), the line of
  a hop and the hops that are shown. Standard output is a string. The lemmas state which hops
  appear and give the text of a hop by a reference that looks at each probe on its own.
\<close>

section \<open>Results\<close>

text \<open>\<open>Display for ProbeResult\<close>.\<close>

definition display_probe_result :: "probe_result \<Rightarrow> string" where
  "display_probe_result r =
     fmt_ms (pr_rtt r) @ '' ms'' @
     (case pr_kind r of Unreachable annotation \<Rightarrow> ''  '' @ display_unreachable annotation
      | _ \<Rightarrow> '''')"

text \<open>
  C23: The round-trip time of a result is printed in milliseconds as the nearest microsecond, for
  every time below \<open>2 ^ 50\<close> nanoseconds (thirteen days): the three floating-point roundings on the
  way never move it further than half a microsecond. What follows is the annotation, if any.
\<close>

theorem printed_time_nearest:
  assumes "pr_rtt r < 2 ^ 50"
  shows "\<exists>k. \<bar>1000 * int k - int (pr_rtt r)\<bar> \<le> 500 \<and>
    display_probe_result r = show_nat (k div 1000) @ ''.'' @ three_digits (k mod 1000) @ '' ms'' @
      (case pr_kind r of Hop \<Rightarrow> '''' | Destination \<Rightarrow> '''' | Unreachable u \<Rightarrow> ''  '' @ display_unreachable u)"
proof -
  obtain k where "fmt_ms (pr_rtt r) = fixed3 k" "\<bar>1000 * int k - int (pr_rtt r)\<bar> \<le> 500"
    using fmt_ms_nearest [OF assms] by blast
  then show ?thesis
    by (intro exI [of _ k]) (simp add: display_probe_result_def fixed3_def split: reply_kind.split)
qed

theorem printed_time_nearest_witness:
  "\<exists>k. \<bar>1000 * int k - 12345678\<bar> \<le> 500 \<and>
     display_probe_result \<lparr>pr_source = None, pr_rtt = 12345678, pr_kind = Unreachable (Marker ''!N'')\<rparr> =
       show_nat (k div 1000) @ ''.'' @ three_digits (k mod 1000) @ '' ms  !N''"
  using printed_time_nearest [of "\<lparr>pr_source = None, pr_rtt = 12345678, pr_kind = Unreachable (Marker ''!N'')\<rparr>"]
  by simp

text \<open>\<open>last_source\<close>: \<open>None\<close> before the first answer of the hop.\<close>

fun print_hop_from :: "ip_addr option option \<Rightarrow> probe list \<Rightarrow> string" where
  "print_hop_from last_source [] = ''''"
| "print_hop_from last_source (probe # hop) =
     (case p_result probe of
        Some result \<Rightarrow>
          if last_source \<noteq> Some (pr_source result) then
            let source = (case pr_source result of None \<Rightarrow> ''?'' | Some source \<Rightarrow> show_ip source)
            in ''  '' @ source @ ''  '' @ display_probe_result result @
               print_hop_from (Some (pr_source result)) hop
          else ''  '' @ display_probe_result result @ print_hop_from last_source hop
      | None \<Rightarrow> ''  *'' @ print_hop_from last_source hop)"

definition print_hop_probes :: "probe list \<Rightarrow> string" where
  "print_hop_probes hop = print_hop_from None hop"

text \<open>\<open>{:>2}\<close>.\<close>

definition pad2 :: "string \<Rightarrow> string" where
  "pad2 s = replicate (2 - length s) CHR '' '' @ s"

definition newline :: string where "newline = [CHR 0x0A]"

definition reaches_destination :: "probe list \<Rightarrow> bool" where
  "reaches_destination hop \<longleftrightarrow>
     list_ex (\<lambda>result. terminates_trace (pr_kind result)) (List.map_filter p_result hop)"

fun print_hops :: "probe list list \<Rightarrow> string" where
  "print_hops [] = ''''"
| "print_hops (hop # hops) =
     pad2 (show_nat (unat (p_ttl (hd hop)))) @ print_hop_probes hop @ newline @
     (if reaches_destination hop then '''' else print_hops hops)"

definition print_results :: "probe list \<Rightarrow> string" where
  "print_results probes = print_hops (chunk_by (\<lambda>a b. p_ttl a = p_ttl b) probes)"

section \<open>What is printed\<close>

definition hop_line :: "probe list \<Rightarrow> string" where
  "hop_line hop = pad2 (show_nat (unat (p_ttl (hd hop)))) @ print_hop_probes hop @ newline"

text \<open>The hops up to the first one that reaches the destination, that one included.\<close>

fun shown_hops :: "probe list list \<Rightarrow> probe list list" where
  "shown_hops [] = []"
| "shown_hops (hop # hops) = hop # (if reaches_destination hop then [] else shown_hops hops)"

lemma print_hops_shown: "print_hops hops = concat (map (hop_line) (shown_hops hops))"
  by (induction hops) (simp_all add: hop_line_def)

lemma shown_hops_take:
  "i < length hops \<Longrightarrow> reaches_destination (hops ! i) \<Longrightarrow> \<forall>j < i. \<not> reaches_destination (hops ! j) \<Longrightarrow>
   shown_hops hops = take (Suc i) hops"
proof (induction hops arbitrary: i)
  case (Cons hop hops)
  show ?case
  proof (cases i)
    case 0
    then show ?thesis using Cons.prems by simp
  next
    case (Suc k)
    then have "\<not> reaches_destination hop" using Cons.prems(3) by (metis nth_Cons_0 zero_less_Suc)
    moreover have "\<forall>j < k. \<not> reaches_destination (hops ! j)"
      using Cons.prems(3) Suc by (metis Suc_less_eq nth_Cons_Suc)
    ultimately show ?thesis using Cons.IH [of k] Cons.prems Suc by simp
  qed
qed simp

lemma shown_hops_all: "\<forall>hop \<in> set hops. \<not> reaches_destination hop \<Longrightarrow> shown_hops hops = hops"
  by (induction hops) simp_all

lemma reaches_destination_iff:
  "reaches_destination hop \<longleftrightarrow> (\<exists>p \<in> set hop. \<exists>r. p_result p = Some r \<and> terminates_trace (pr_kind r))"
proof -
  have "r \<in> set (List.map_filter p_result hop) \<longleftrightarrow> (\<exists>p \<in> set hop. p_result p = Some r)" for r
    by (induction hop) (auto simp: List.map_filter_simps split: option.splits)
  then show ?thesis unfolding reaches_destination_def list_ex_iff by blast
qed

lemma first_index:
  assumes "P (i :: nat)"
  obtains k where "k \<le> i" "P k" "\<forall>j < k. \<not> P j"
  using assms exists_least_iff [of P] by (metis not_le)

lemma shown_hops_first:
  assumes "hops \<noteq> []"
  shows "\<exists>k < length hops. shown_hops hops = take (Suc k) hops \<and> (\<forall>j < k. \<not> reaches_destination (hops ! j)) \<and>
    (Suc k = length hops \<or> reaches_destination (hops ! k))"
proof (cases "\<exists>i < length hops. reaches_destination (hops ! i)")
  case True
  then obtain i where i: "i < length hops" "reaches_destination (hops ! i)" by blast
  obtain k where k: "k \<le> i" "reaches_destination (hops ! k)" "\<forall>j < k. \<not> reaches_destination (hops ! j)"
    by (rule first_index [where P = "\<lambda>j. reaches_destination (hops ! j)", OF i(2)])
  then show ?thesis using i(1) shown_hops_take [of k hops] by (intro exI [of _ k]) simp
next
  case False
  then have "shown_hops hops = hops" by (intro shown_hops_all) (metis in_set_conv_nth)
  then show ?thesis using False assms by (intro exI [of _ "length hops - 1"]) simp
qed

text \<open>
  C14: What the output shows of a trace whose destination was reached with every earlier hop
  answered, the condition on which the trace itself stops: the lines of the hops up to the first
  one that reaches the destination and no further, each of them with at least one answer; when no
  hop reaches the destination, the lines of all hops.
\<close>

theorem print_results_until_destination:
  assumes "sorted (map p_ttl probes)"
  shows "let hops = chunk_by (\<lambda>a b. p_ttl a = p_ttl b) probes in
    (destination_reached probes \<longrightarrow>
      (\<exists>i < length hops. print_results probes = concat (map (hop_line) (take (Suc i) hops)) \<and>
         reaches_destination (hops ! i) \<and> (\<forall>j < i. \<not> reaches_destination (hops ! j)) \<and>
         (\<forall>j \<le> i. \<exists>p \<in> set (hops ! j). p_result p \<noteq> None))) \<and>
    ((\<forall>hop \<in> set hops. \<not> reaches_destination hop) \<longrightarrow>
      print_results probes = concat (map (hop_line) hops))"
proof -
  let ?hop = "\<lambda>k. filter (\<lambda>x. p_ttl x = k) probes"
  define ks where "ks = remdups_adj (map p_ttl probes)"
  define hops where "hops = chunk_by (\<lambda>a b. p_ttl a = p_ttl b) probes"
  have hops: "hops = map ?hop ks" unfolding hops_def ks_def by (rule chunk_by_sorted [OF assms])
  have ks: "sorted ks" "set ks = p_ttl ` set probes"
    unfolding ks_def using assms by simp_all
  have out: "print_results probes = concat (map (hop_line) (shown_hops hops))"
    by (simp add: print_results_def print_hops_shown hops_def)
  have "\<exists>i < length hops. print_results probes = concat (map (hop_line) (take (Suc i) hops)) \<and>
      reaches_destination (hops ! i) \<and> (\<forall>j < i. \<not> reaches_destination (hops ! j)) \<and>
      (\<forall>j \<le> i. \<exists>p \<in> set (hops ! j). p_result p \<noteq> None)"
    if reached: "destination_reached probes"
  proof -
    obtain p r where p: "p \<in> set probes" "p_result p = Some r" "terminates_trace (pr_kind r)"
      and all: "\<forall>q \<in> set probes. p_ttl q \<le> p_ttl p \<longrightarrow> (\<exists>q' \<in> set probes. p_ttl q' = p_ttl q \<and> p_result q' \<noteq> None)"
      using reached unfolding destination_reached_def by blast
    obtain m where m: "m < length ks" "ks ! m = p_ttl p"
      using p(1) ks(2) by (metis image_eqI in_set_conv_nth)
    have "reaches_destination (hops ! m)"
      using m p unfolding reaches_destination_iff hops by (intro bexI [of _ p]) auto
    then obtain i where i: "i \<le> m" "reaches_destination (hops ! i)" "\<forall>j < i. \<not> reaches_destination (hops ! j)"
      by (rule first_index [where P = "\<lambda>i. reaches_destination (hops ! i)"])
    have len: "i < length hops" using i(1) m(1) by (simp add: hops)
    have "\<exists>q \<in> set (hops ! j). p_result q \<noteq> None" if "j \<le> i" for j
    proof -
      have j: "j < length ks" "ks ! j \<le> p_ttl p"
        using that i(1) m ks(1) by (auto simp: sorted_nth_mono simp flip: m(2))
      then obtain q where "q \<in> set probes" "p_ttl q = ks ! j" using ks(2) by (metis imageE nth_mem)
      with all j obtain q' where "q' \<in> set probes" "p_ttl q' = ks ! j" "p_result q' \<noteq> None" by metis
      then show ?thesis using j(1) by (intro bexI [of _ q']) (auto simp: hops)
    qed
    then show ?thesis using i len out shown_hops_take [OF len i(2,3)] by auto
  qed
  then show ?thesis using shown_hops_all out unfolding Let_def hops_def [symmetric] by simp
qed

theorem print_results_until_destination_witness:
  "print_results (ls_probes answered_state) = hop_line (ls_probes answered_state)"
proof -
  have c: "chunk_by (\<lambda>a b. p_ttl a = p_ttl b) (ls_probes answered_state) = [ls_probes answered_state]"
    by (simp add: answered_state_def)
  have "destination_reached (ls_probes answered_state)"
    by (simp add: answered_state_def destination_reached_def one_result_def)
  moreover have "sorted (map p_ttl (ls_probes answered_state))" by (simp add: answered_state_def)
  ultimately show ?thesis
    using print_results_until_destination [of "ls_probes answered_state"] by (simp add: c)
qed

section \<open>The answers of a hop\<close>

definition previous_source :: "probe list \<Rightarrow> nat \<Rightarrow> ip_addr option option" where
  "previous_source hop i =
     (let rs = List.map_filter p_result (take i hop)
      in if rs = [] then None else Some (pr_source (last rs)))"

definition probe_field :: "probe list \<Rightarrow> nat \<Rightarrow> string" where
  "probe_field hop i =
     (case p_result (hop ! i) of
        None \<Rightarrow> ''  *''
      | Some r \<Rightarrow>
          (if previous_source hop i = Some (pr_source r) then ''''
           else ''  '' @ (case pr_source r of None \<Rightarrow> ''?'' | Some ip \<Rightarrow> show_ip ip)) @
          ''  '' @ display_probe_result r)"

lemma map_filter_append [simp]: "List.map_filter f (xs @ ys) = List.map_filter f xs @ List.map_filter f ys"
  by (induction xs) (simp_all add: List.map_filter_simps split: option.split)

lemma previous_source_snoc:
  "previous_source (xs @ p # ys) (Suc (length xs)) =
     (case p_result p of None \<Rightarrow> previous_source (xs @ p # ys) (length xs) | Some r \<Rightarrow> Some (pr_source r))"
  by (simp add: previous_source_def List.map_filter_simps Let_def split: option.split)

lemma print_hop_from_fields:
  "print_hop_from (previous_source (xs @ ys) (length xs)) ys =
     concat (map (probe_field (xs @ ys)) [length xs ..< length xs + length ys])"
proof (induction ys arbitrary: xs)
  case (Cons p ys)
  have u: "[length xs ..< length xs + length (p # ys)] = length xs # [Suc (length xs) ..< Suc (length xs) + length ys]"
    by (simp add: upt_conv_Cons del: upt_Suc)
  have rest: "print_hop_from (previous_source (xs @ p # ys) (Suc (length xs))) ys =
      concat (map (probe_field (xs @ p # ys)) [Suc (length xs) ..< Suc (length xs) + length ys])"
    using Cons.IH [of "xs @ [p]"] by simp
  have f: "probe_field (xs @ p # ys) (length xs) =
     (case p_result p of
        None \<Rightarrow> ''  *''
      | Some r \<Rightarrow>
          (if previous_source (xs @ p # ys) (length xs) = Some (pr_source r) then ''''
           else ''  '' @ (case pr_source r of None \<Rightarrow> ''?'' | Some ip \<Rightarrow> show_ip ip)) @
          ''  '' @ display_probe_result r)"
    by (simp add: probe_field_def nth_append)
  show ?case
    unfolding u list.map concat.simps rest [symmetric] f previous_source_snoc
    by (cases "p_result p") (simp_all add: Let_def)
qed simp

text \<open>
  C21: The text of a hop is, in order, a star per unanswered probe and the result of every other
  one, which is preceded by its source exactly when the source is not that of the closest earlier
  answer of the hop.
\<close>

theorem print_hop_probes_fields:
  "print_hop_probes hop = concat (map (probe_field hop) [0..<length hop])"
  using print_hop_from_fields [of "[]" hop]
  by (simp add: print_hop_probes_def previous_source_def List.map_filter_simps)

end
