(* ===== verification/Cli.thy ===== *)
theory Cli
  imports End_To_End Output
begin

text \<open>
  src/src/main.rs: the arguments with the ranges the parser enforces, the choice of the target, the
  method and the trace, and the whole program. The system's name lookup is a \<open>resolver\<close>,
  and looking a name up is one of the calls of the history. Standard
  output is returned as a string next to the result.
\<close>

section \<open>Arguments\<close>

datatype method_arg = ArgIcmp | ArgUdp | ArgTcp
datatype ip_version_arg = VersionAuto | VersionV4 | VersionV6

record args =
  a_target :: string
  a_first_hop :: u8
  a_max_hops :: u8
  a_timeout :: nat
  a_size :: nat
  a_method :: method_arg
  a_ip_version :: ip_version_arg
  a_count :: u16

definition MAX_PROBES_PER_HOP :: int where "MAX_PROBES_PER_HOP = 10"

text \<open>The \<open>value_parser\<close> ranges: \<open>1..\<close> for the hops, \<open>1..MAX_PROBES_PER_HOP\<close> for the count.\<close>

definition args_in_range :: "args \<Rightarrow> bool" where
  "args_in_range a \<longleftrightarrow> 1 \<le> a_first_hop a \<and> 1 \<le> a_max_hops a \<and>
     1 \<le> int (unat (a_count a)) \<and> int (unat (a_count a)) < MAX_PROBES_PER_HOP"

text \<open>
  \<open>to_socket_addrs()\<close> of a host with port 0, by the addresses: a text that is a socket address stands
  for itself, for any other the system is asked for the host before its last colon.
\<close>

type_synonym resolver = "syscall list \<Rightarrow> i32 + ip_addr list"

definition to_socket_addrs :: "resolver \<Rightarrow> string \<Rightarrow> ip_addr list io" where
  "to_socket_addrs C host =
     (case Option.bind (parse_socket_addr (host @ '':0'')) sa_ip of
        Some ip \<Rightarrow> io_return [ip]
      | None \<Rightarrow> io_call C (SysLookup host))"

definition method_build ::
    "platform \<Rightarrow> pnet \<Rightarrow> os \<Rightarrow> method_arg \<Rightarrow> ip_addr \<Rightarrow> nat \<Rightarrow> method_ops io" where
  "method_build P N sys m target packet_len =
     (case m of
        ArgIcmp \<Rightarrow> io_bind (io_lift (icmp_try_new target packet_len)) (\<lambda>x. io_return (icmp_method P sys x))
      | ArgUdp \<Rightarrow> io_bind (io_lift (udp_try_new target packet_len)) (\<lambda>x. io_return (udp_method P sys x))
      | ArgTcp \<Rightarrow> io_bind (tcp_try_new sys target) (\<lambda>x. io_return (tcp_method P N sys x)))"

definition ip_version_matches :: "ip_addr \<Rightarrow> ip_version_arg \<Rightarrow> bool" where
  "ip_version_matches addr want =
     (case want of
        VersionAuto \<Rightarrow> True
      | VersionV4 \<Rightarrow> (case addr of V4 _ \<Rightarrow> True | V6 _ \<Rightarrow> False)
      | VersionV6 \<Rightarrow> (case addr of V4 _ \<Rightarrow> False | V6 _ \<Rightarrow> True))"

definition maybe_ip :: "string \<Rightarrow> ip_addr option" where
  "maybe_ip addr =
     (case parse_socket_addr addr of
        Some addr \<Rightarrow> sa_ip addr
      | None \<Rightarrow> (case parse_ip addr of Some addr \<Rightarrow> Some addr | None \<Rightarrow> None))"

definition resolve_target :: "resolver \<Rightarrow> args \<Rightarrow> ip_addr io" where
  "resolve_target C a =
     (case maybe_ip (a_target a) of
        Some addr \<Rightarrow>
          if \<not> ip_version_matches addr (a_ip_version a) then io_fail (Fail IpVersionMismatch) else io_return addr
      | None \<Rightarrow>
          io_bind (to_socket_addrs C (a_target a)) (\<lambda>addrs.
          io_lift (ok_or (Fail NoMatchingDnsAnswer)
            (find (\<lambda>addr. ip_version_matches addr (a_ip_version a)) addrs))))"

section \<open>The program\<close>

definition header_line :: "args \<Rightarrow> ip_addr \<Rightarrow> string" where
  "header_line a target =
     ''tracing '' @ a_target a @ '' ('' @ show_ip target @ ''), '' @
     show_nat (unat (a_max_hops a)) @ '' hops max, '' @ show_nat (a_size a) @ '' byte packets'' @ newline"

text \<open>The output, the result (\<open>None\<close>: still waiting) and the system calls.\<close>

definition main ::
    "('s, 'q) libs \<Rightarrow> pnet \<Rightarrow> os \<Rightarrow> 'q ring_env \<Rightarrow> ring_round list \<Rightarrow> resolver \<Rightarrow> args
     \<Rightarrow> syscall list \<Rightarrow> string \<times> unit option rust \<times> syscall list" where
  "main L N sys E rounds C a h =
     (if a_max_hops a \<le> a_first_hop a then ('''', Inl (Fail FirstHopNotBelowMax), h) else
      case resolve_target C a h of
        (Inl e, h) \<Rightarrow> ('''', Inl e, h)
      | (Inr target, h) \<Rightarrow>
          (case method_build (lib_platform L) N sys (a_method a) target (a_size a) h of
             (Inl e, h) \<Rightarrow> ('''', Inl e, h)
           | (Inr method, h) \<Rightarrow>
               (case run L sys E rounds method (hop_range (a_first_hop a) (a_max_hops a)) (a_timeout a) (a_count a) h of
                  (Inl e, h) \<Rightarrow> (header_line a target, Inl e, h)
                | (Inr None, h) \<Rightarrow> (header_line a target, Inr None, h)
                | (Inr (Some probes), h) \<Rightarrow>
                    (header_line a target @ print_results probes, Inr (Some ()), h))))"

text \<open>Arguments that name the address 0.0.0.1, for the witnesses.\<close>

definition plain_args :: args where
  "plain_args = \<lparr>a_target = show_ip (V4 1), a_first_hop = 1, a_max_hops = 1, a_timeout = 5, a_size = 60,
     a_method = ArgIcmp, a_ip_version = VersionV6, a_count = 3\<rparr>"

definition no_lookup :: resolver where "no_lookup = (\<lambda>_. Inr [])"

section \<open>The target\<close>

lemma maybe_ip_show [simp]: "maybe_ip (show_ip ip) = Some ip" "maybe_ip (show_endpoint ip port) = Some ip"
proof -
  have "sa_ip (sock_addr_new ip port) = Some ip" by (cases ip) simp_all
  then show "maybe_ip (show_ip ip) = Some ip" "maybe_ip (show_endpoint ip port) = Some ip"
    by (simp_all add: maybe_ip_def)
qed

text \<open>
  C22: The address a trace prints for a target or a hop is, as the target of another run, that same
  address, alone or with any port, without a name lookup, provided it is of the
  requested version; and two addresses print alike only when they are equal.
\<close>

theorem target_text_roundtrip:
  "resolve_target C (a\<lparr>a_target := show_ip ip\<rparr>) h =
     (if ip_version_matches ip (a_ip_version a) then Inr ip else Inl (Fail IpVersionMismatch), h) \<and>
   resolve_target C (a\<lparr>a_target := show_endpoint ip port\<rparr>) h =
     (if ip_version_matches ip (a_ip_version a) then Inr ip else Inl (Fail IpVersionMismatch), h) \<and>
   (show_ip ip = show_ip ip' \<longleftrightarrow> ip = ip')"
proof -
  have inj: "show_ip ip = show_ip ip' \<longleftrightarrow> ip = ip'"
    using maybe_ip_show(1) by (metis option.inject)
  have target: "resolve_target C (a\<lparr>a_target := s\<rparr>) h =
      (if ip_version_matches ip (a_ip_version a) then Inr ip else Inl (Fail IpVersionMismatch), h)"
    if "maybe_ip s = Some ip" for s
    using that by (simp add: resolve_target_def io_defs)
  show ?thesis by (intro conjI target maybe_ip_show inj)
qed

theorem target_text_roundtrip_witness:
  "resolve_target (\<lambda>_. Inl 0) (plain_args\<lparr>a_ip_version := VersionV6, a_target := ''[2001:db8::1]:443''\<rparr>) [] =
     (Inr (V6 0x20010db8000000000000000000000001), [])"
proof -
  have eight: "(8 :: nat) = Suc (Suc (Suc (Suc (Suc (Suc (Suc (Suc 0)))))))" by simp
  have "ipv6_segments 0x20010db8000000000000000000000001 = [0x2001, 0xdb8, 0, 0, 0, 0, 0, 1]"
    unfolding ipv6_segments_def eight by simp
  then have "show_endpoint (V6 0x20010db8000000000000000000000001) 443 = ''[2001:db8::1]:443''"
    by (simp add: show_endpoint.simps show_ipv6_def show_hex_def show_radix.simps show_nat_radix
        digit_char_def char_of_def fmt_subslice_def bit_0)
  then show ?thesis
    using target_text_roundtrip [where C = "\<lambda>_. Inl 0" and a = "plain_args\<lparr>a_ip_version := VersionV6\<rparr>"
        and ip = "V6 0x20010db8000000000000000000000001" and port = 443]
    by (simp add: ip_version_matches_def)
qed

section \<open>The whole program\<close>

text \<open>The name lookup a target needs.\<close>

definition lookups :: "args \<Rightarrow> syscall list" where
  "lookups a =
     (if maybe_ip (a_target a) \<noteq> None \<or> Option.bind (parse_socket_addr (a_target a @ '':0'')) sa_ip \<noteq> None
      then [] else [SysLookup (a_target a)])"

lemma resolve_target_calls: "snd (resolve_target C a h) = h @ lookups a"
  by (auto simp: resolve_target_def to_socket_addrs_def lookups_def io_defs split: option.splits sum.splits)

lemma resolve_target_Inr:
  "resolve_target C a h = (Inr target, h') \<Longrightarrow> ip_version_matches target (a_ip_version a) \<and>
   (\<forall>addr. maybe_ip (a_target a) = Some addr \<longrightarrow> target = addr)"
  by (auto simp: resolve_target_def io_bind_Inr io_lift_def io_return_def io_fail_def ok_or_Inr_iff find_Some_iff
      split: option.splits if_splits)

text \<open>
  C24: The program checks its arguments before anything else: with a first hop that is not below the
  last it fails without output and without a call to the system. Resolving the target makes no call
  when the target is an address, and one name lookup otherwise; when it fails, because the address is
  not of the requested version, the lookup fails or gives no address of that version, the program
  ends with that error and no output. The method is then built for an address of the requested
  version, and nothing is printed until it has been built.
\<close>

theorem main_checks_first:
  "(a_max_hops a \<le> a_first_hop a \<longrightarrow>
      main L N sys E rounds C a h = ('''', Inl (Fail FirstHopNotBelowMax), h)) \<and>
   (a_first_hop a < a_max_hops a \<longrightarrow>
      (\<exists>e. resolve_target C a h = (Inl e, h @ lookups a) \<and>
         main L N sys E rounds C a h = ('''', Inl e, h @ lookups a) \<and>
         (\<forall>addr. maybe_ip (a_target a) = Some addr \<longrightarrow>
            e = Fail IpVersionMismatch \<and> \<not> ip_version_matches addr (a_ip_version a))) \<or>
      (\<exists>target. resolve_target C a h = (Inr target, h @ lookups a) \<and>
         ip_version_matches target (a_ip_version a) \<and>
         (\<forall>addr. maybe_ip (a_target a) = Some addr \<longrightarrow> target = addr) \<and>
         (case method_build (lib_platform L) N sys (a_method a) target (a_size a) (h @ lookups a) of
            (Inl e, h') \<Rightarrow> main L N sys E rounds C a h = ('''', Inl e, h')
          | (Inr _, h') \<Rightarrow> \<exists>results. fst (main L N sys E rounds C a h) = header_line a target @ results)))"
proof (intro conjI impI)
  show "a_max_hops a \<le> a_first_hop a \<Longrightarrow>
      main L N sys E rounds C a h = ('''', Inl (Fail FirstHopNotBelowMax), h)"
    by (simp add: main_def)
next
  assume "a_first_hop a < a_max_hops a"
  then have hops: "\<not> a_max_hops a \<le> a_first_hop a" by simp
  obtain res where res: "resolve_target C a h = (res, h @ lookups a)"
    using resolve_target_calls [of C a h] by (cases "resolve_target C a h") simp
  show "(\<exists>e. resolve_target C a h = (Inl e, h @ lookups a) \<and>
         main L N sys E rounds C a h = ('''', Inl e, h @ lookups a) \<and>
         (\<forall>addr. maybe_ip (a_target a) = Some addr \<longrightarrow>
            e = Fail IpVersionMismatch \<and> \<not> ip_version_matches addr (a_ip_version a))) \<or>
      (\<exists>target. resolve_target C a h = (Inr target, h @ lookups a) \<and>
         ip_version_matches target (a_ip_version a) \<and>
         (\<forall>addr. maybe_ip (a_target a) = Some addr \<longrightarrow> target = addr) \<and>
         (case method_build (lib_platform L) N sys (a_method a) target (a_size a) (h @ lookups a) of
            (Inl e, h') \<Rightarrow> main L N sys E rounds C a h = ('''', Inl e, h')
          | (Inr _, h') \<Rightarrow> \<exists>results. fst (main L N sys E rounds C a h) = header_line a target @ results))"
  proof (cases res)
    case (Inl e)
    have "e = Fail IpVersionMismatch \<and> \<not> ip_version_matches addr (a_ip_version a)"
      if "maybe_ip (a_target a) = Some addr" for addr
      using res Inl that by (auto simp: resolve_target_def io_defs split: if_splits)
    then show ?thesis using hops res Inl by (auto simp: main_def)
  next
    case (Inr target)
    have "case method_build (lib_platform L) N sys (a_method a) target (a_size a) (h @ lookups a) of
        (Inl e, h') \<Rightarrow> main L N sys E rounds C a h = ('''', Inl e, h')
      | (Inr _, h') \<Rightarrow> \<exists>results. fst (main L N sys E rounds C a h) = header_line a target @ results"
      using hops res Inr by (auto simp: main_def split: sum.splits prod.splits option.splits)
    then show ?thesis using res Inr resolve_target_Inr [of C a h target] by auto
  qed
qed

lemma name_is_no_address:
  "parse_ip ''x'' = None" "parse_socket_addr ''x'' = None" "parse_socket_addr ''x:0'' = None"
  by (rule starts_no_address; simp add: digit_value_def)+

text \<open>A name that the system does not know costs one lookup.\<close>

theorem main_checks_first_witness:
  "main one_libs rfc_pnet one_os one_env [] no_lookup plain_args [] = ('''', Inl (Fail FirstHopNotBelowMax), []) \<and>
   main one_libs rfc_pnet one_os one_env [] no_lookup (plain_args\<lparr>a_max_hops := 9\<rparr>) [] =
     ('''', Inl (Fail IpVersionMismatch), []) \<and>
   main one_libs rfc_pnet one_os one_env [] no_lookup (plain_args\<lparr>a_max_hops := 9, a_target := ''x''\<rparr>) [] =
     ('''', Inl (Fail NoMatchingDnsAnswer), [SysLookup ''x''])"
proof -
  have "resolve_target no_lookup (plain_args\<lparr>a_max_hops := 9\<rparr>) [] = (Inl (Fail IpVersionMismatch), [])"
    by (simp add: resolve_target_def plain_args_def ip_version_matches_def io_fail_def)
  moreover have "resolve_target no_lookup (plain_args\<lparr>a_max_hops := 9, a_target := ''x''\<rparr>) [] =
      (Inl (Fail NoMatchingDnsAnswer), [SysLookup ''x''])"
    using name_is_no_address
    by (simp add: resolve_target_def maybe_ip_def to_socket_addrs_def io_defs no_lookup_def)
  ultimately show ?thesis
    using main_checks_first [of plain_args one_libs rfc_pnet one_os one_env "[]" no_lookup "[]"]
      main_checks_first [of "plain_args\<lparr>a_max_hops := 9\<rparr>" one_libs rfc_pnet one_os one_env "[]" no_lookup "[]"]
      main_checks_first [of "plain_args\<lparr>a_max_hops := 9, a_target := ''x''\<rparr>" one_libs rfc_pnet one_os one_env
        "[]" no_lookup "[]"]
    by (simp add: plain_args_def)
qed

text \<open>
  C25: With arguments in the ranges the command line accepts, a trace has at most 2295 probes: the
  count of receive buffers does not overflow, every probe has an identifier of its own, and no UDP
  port wraps, so every UDP reply can be told apart.
\<close>

theorem cli_probe_bounds:
  assumes "args_in_range a"
  shows "let n = length (init_probes (hop_range (a_first_hop a) (a_max_hops a)) (a_count a)) in
    n \<le> 2295 \<and> (\<exists>b. buffer_count n = Inr b \<and> unat b = 2 * n) \<and>
    (\<forall>i < n. probe_index (of_nat i) = i \<and>
       udp_identify_from_error \<lparr>r_source = None, r_destination = Some (sock_addr_new ip (udp_port (of_nat i))),
         r_quoted = [], r_error = None\<rparr> = Some (of_nat i))"
proof -
  let ?n = "length (init_probes (hop_range (a_first_hop a) (a_max_hops a)) (a_count a))"
  have c: "unat (a_count a) \<le> 9" using assms unfolding args_in_range_def MAX_PROBES_PER_HOP_def by linarith
  have lo: "0 < unat (a_first_hop a)" using assms by (simp add: args_in_range_def word_le_nat_alt)
  have "unat (a_max_hops a) < 256" using unat_bound [of "a_max_hops a"] by simp
  then have h: "length (hop_range (a_first_hop a) (a_max_hops a)) \<le> 255"
    unfolding hop_range_props(3) using lo by linarith
  have n: "?n \<le> 2295"
    unfolding length_init_probes using mult_le_mono [OF h c] by simp
  have small: "unat (of_nat i :: u16) = i" if "i < ?n" for i
    using that n by (intro u16_of_nat_small) linarith
  have "buffer_count ?n = Inr (2 * of_nat ?n)" "unat (2 * of_nat ?n :: u16) = 2 * ?n"
    using n u16_of_nat_small [of ?n] u16_of_nat_small [of "2 * ?n"]
    by (simp_all add: buffer_count_def u16_try_from_usize_def)
  moreover have "probe_index (of_nat i) = i \<and>
      udp_identify_from_error \<lparr>r_source = None, r_destination = Some (sock_addr_new ip (udp_port (of_nat i))),
        r_quoted = [], r_error = None\<rparr> = Some (of_nat i)" if "i < ?n" for i
    using small [OF that] that n
    by (simp add: probe_index_def udp_identify_from_error_def checked_sub_udp_port udp_valid_def)
  ultimately show ?thesis using n unfolding Let_def by blast
qed

theorem cli_probe_bounds_witness:
  "length (init_probes (hop_range 1 255) 9) \<le> 2295"
  using cli_probe_bounds [of "plain_args\<lparr>a_max_hops := 255, a_count := 9\<rparr>"]
  by (simp add: plain_args_def args_in_range_def MAX_PROBES_PER_HOP_def Let_def)

text \<open>The runs of equal TTLs are the probes of each TTL.\<close>

lemma chunks_are_filters:
  assumes "map (map p_ttl) (chunk_by (\<lambda>a b. p_ttl a = p_ttl b) probes) = map (replicate n) ttls"
    and "0 < n" "sorted ttls"
  shows "chunk_by (\<lambda>a b. p_ttl a = p_ttl b) probes = map (\<lambda>ttl. filter (\<lambda>p. p_ttl p = ttl) probes) ttls"
proof -
  let ?hops = "chunk_by (\<lambda>a b. p_ttl a = p_ttl b) probes"
  have "map p_ttl probes = concat (map (map p_ttl) ?hops)"
    by (metis concat_chunk_by map_concat)
  then have p: "map p_ttl probes = concat (map (replicate n) ttls)" using assms(1) by simp
  have "sorted (concat (map (replicate n) ks))" if "sorted ks" for ks :: "u8 list"
    using that by (induction ks) (auto simp: sorted_append)
  then have sorted: "sorted (map p_ttl probes)" using p assms(3) by simp
  define ks where "ks = remdups_adj (map p_ttl probes)"
  have c: "?hops = map (\<lambda>ttl. filter (\<lambda>p. p_ttl p = ttl) probes) ks"
    unfolding ks_def by (rule chunk_by_sorted [OF sorted])
  have "ks = ttls"
  proof (rule nth_equalityI)
    show len: "length ks = length ttls" using assms(1) c by (metis length_map)
    fix i assume i: "i < length ks"
    then have "map p_ttl (filter (\<lambda>p. p_ttl p = ks ! i) probes) = replicate n (ttls ! i)"
      using arg_cong [OF assms(1), of "\<lambda>xs. xs ! i"] c len by simp
    then have "set (map p_ttl (filter (\<lambda>p. p_ttl p = ks ! i) probes)) = {ttls ! i}" using assms(2) by simp
    then show "ks ! i = ttls ! i" by auto
  qed
  with c show ?thesis by simp
qed

text \<open>
  C15: What a successful run of the program prints: a line that names the target, then one line per
  TTL, from the first hop on and without gaps, each over all the probes of the trace with that TTL,
  which are as many as requested. The lines end with the first hop that reaches the destination, and
  only when there is none with the last hop.
\<close>

theorem main_output:
  assumes "trace_env L slab_inv slots pending consumed capacity" and "fresh_rings E pending consumed"
    and "main L N sys E rounds C a h = (out, Inr (Some ()), h')" and "0 < unat (a_count a)"
  shows "\<exists>target m h1 h2 probes hops k.
    resolve_target C a h = (Inr target, h1) \<and>
    method_build (lib_platform L) N sys (a_method a) target (a_size a) h1 = (Inr m, h2) \<and>
    run L sys E rounds m (hop_range (a_first_hop a) (a_max_hops a)) (a_timeout a) (a_count a) h2 =
      (Inr (Some probes), h') \<and>
    hops = map (\<lambda>ttl. filter (\<lambda>p. p_ttl p = ttl) probes) (hop_range (a_first_hop a) (a_max_hops a)) \<and>
    (\<forall>hop \<in> set hops. length hop = unat (a_count a)) \<and>
    k < length hops \<and> out = header_line a target @ concat (map (hop_line) (take (Suc k) hops)) \<and>
    (\<forall>j < k. \<not> reaches_destination (hops ! j)) \<and> (Suc k = length hops \<or> reaches_destination (hops ! k))"
proof -
  have lt: "a_first_hop a < a_max_hops a" using assms(3) by (auto simp: main_def not_le split: if_splits)
  then obtain target m h1 h2 probes where t: "resolve_target C a h = (Inr target, h1)"
    and b: "method_build (lib_platform L) N sys (a_method a) target (a_size a) h1 = (Inr m, h2)"
    and r: "run L sys E rounds m (hop_range (a_first_hop a) (a_max_hops a)) (a_timeout a) (a_count a) h2 =
      (Inr (Some probes), h')"
    and out: "out = header_line a target @ print_results probes"
    using assms(3) by (auto simp: main_def split: if_splits sum.splits prod.splits option.splits)
  let ?hops = "chunk_by (\<lambda>a b. p_ttl a = p_ttl b) probes"
  have ttls: "map (map p_ttl) ?hops = map (replicate (unat (a_count a))) (hop_range (a_first_hop a) (a_max_hops a))"
    using run_result [OF assms(1,2) r assms(4)] by simp
  have len: "\<forall>hop \<in> set ?hops. length hop = unat (a_count a)"
  proof
    fix hop assume "hop \<in> set ?hops"
    then have "map p_ttl hop \<in> set (map (map p_ttl) ?hops)" by simp
    then show "length hop = unat (a_count a)" unfolding ttls by (auto dest!: arg_cong [where f = length])
  qed
  have "a_first_hop a \<in> set (hop_range (a_first_hop a) (a_max_hops a))"
    using lt by (simp add: hop_range_props)
  then have "?hops \<noteq> []" using ttls by auto
  then obtain k where k: "k < length ?hops" "shown_hops ?hops = take (Suc k) ?hops"
    "\<forall>j < k. \<not> reaches_destination (?hops ! j)" "Suc k = length ?hops \<or> reaches_destination (?hops ! k)"
    using shown_hops_first by blast
  have "print_results probes = concat (map (hop_line) (take (Suc k) ?hops))"
    using k(2) by (simp add: print_results_def print_hops_shown)
  then show ?thesis
    using t b r out len k(1,3,4) chunks_are_filters [OF ttls assms(4) hop_range_props(2)]
    by (intro exI [of _ target] exI [of _ m] exI [of _ h1] exI [of _ h2] exI [of _ probes]
        exI [of _ ?hops] exI [of _ k]) simp
qed

text \<open>A run of two hops that is ended by its timeout.\<close>

definition two_args :: args where
  "two_args = plain_args\<lparr>a_max_hops := 2, a_ip_version := VersionAuto, a_count := 1\<rparr>"

definition two_method :: method_ops where
  "two_method = icmp_method (linux64 True) one_os \<lparr>icmp_target = V4 1, icmp_payload_len = 32\<rparr>"

definition two_rounds :: "ring_round list" where
  "two_rounds = [\<lparr>rd_submit = Inr 5, rd_events = [timeout_event]\<rparr>]"

lemma two_build: "method_build (linux64 True) N one_os ArgIcmp (V4 1) 60 h = (Inr two_method, h)"
  by (simp add: method_build_def icmp_try_new_def checked_sub_usize_def icmp_min_packet_len_def
      MIN_IPV4_HEADER_LEN_def ECHO_HEADER_LEN_def two_method_def) (simp add: io_return_def)

lemma two_setup:
  "\<exists>readers st h'. trace_setup one_libs one_os one_env two_method (hop_range 1 2) 5 1 h = (Inr (readers, st), h') \<and>
     ls_probes st = init_probes (hop_range 1 2) 1"
proof -
  obtain queues h1 where o: "m_open two_method h = (Inr (0, queues), h1)" and q: "length queues = 2"
    by (simp add: two_method_def icmp_method_def icmp_open_def bound_socket_def io_defs one_os_def)
  have one: "\<exists>r g'. multishot_try_new (linux64 True) one_os q n g = (Inr r, g')" for q n g
    by (simp add: multishot_try_new_def enable_recverr_def io_defs one_os_def Let_def)
  have "\<exists>readers h2. readers_try_new (linux64 True) one_os n qs g = (Inr readers, h2)" for n qs g
  proof (induction qs arbitrary: n g)
    case Nil
    then show ?case by (simp add: io_return_def)
  next
    case (Cons q qs)
    obtain r g1 where "multishot_try_new (linux64 True) one_os q (of_nat n) g = (Inr r, g1)"
      using one by blast
    moreover obtain rs g2 where "readers_try_new (linux64 True) one_os (Suc n) qs g1 = (Inr rs, g2)"
      using Cons.IH by blast
    ultimately show ?case by (simp add: io_bind_def io_return_def)
  qed
  then obtain readers h2 where rd: "readers_try_new (linux64 True) one_os 0 queues h1 = (Inr readers, h2)" by blast
  have len: "length (init_probes (hop_range 1 2) 1) = 2"
    by (simp add: length_init_probes hop_range_props)
  have rings: "create_rings one_libs one_env two_method (length queues) (length (init_probes (hop_range 1 2) 1)) =
      Inr \<lparr>lq_entries = [], lq_consumed = 0, lq_capacity = 5\<rparr>"
    unfolding len q
    by (simp add: create_rings_def one_env_def two_method_def icmp_method_def icmp_max_reply_len_def
        ECHO_HEADER_LEN_def buffer_count_def u16_try_from_usize_def u32_try_from_usize_def
        RECVMSG_OVERHEAD_def NAME_LEN_def RECVERR_CONTROL_LEN_def size_of_u32_def align_up_def)
  have "length readers = 2" using readers_try_new_Inr [OF rd] q by (metis length_map)
  then obtain st where sub: "submit_all one_libs one_env 0 two_method readers (init_probes (hop_range 1 2) 1) 5
      \<lparr>lq_entries = [], lq_consumed = 0, lq_capacity = 5\<rparr> = Inr st"
    using documented.submit_all_room [of "\<lparr>lq_entries = [], lq_consumed = 0, lq_capacity = 5\<rparr>" readers
        "init_probes (hop_range 1 2) 1" two_method one_env True 0 5] len
    by (auto simp: two_method_def icmp_method_def icmp_probe_eq)
  have "ls_probes st = init_probes (hop_range 1 2) 1"
    using documented.submit_all_Inr [OF sub] by simp
  then show ?thesis
    using o rings rd sub by (simp add: trace_setup_def one_features Let_def io_bind_def) (simp add: io_return_def)
qed

theorem main_output_witness:
  "\<exists>out h' hops k. main one_libs rfc_pnet one_os one_env two_rounds no_lookup two_args [] = (out, Inr (Some ()), h') \<and>
     length hops = 2 \<and> out = header_line two_args (V4 1) @ concat (map (hop_line) (take (Suc k) hops)) \<and>
     (Suc k = 2 \<or> reaches_destination (hops ! k))"
proof -
  have t: "resolve_target no_lookup two_args [] = (Inr (V4 1), [])"
    by (simp add: resolve_target_def two_args_def plain_args_def ip_version_matches_def io_return_def)
  obtain readers st h' where s: "trace_setup one_libs one_os one_env two_method (hop_range 1 2) 5 1 [] = (Inr (readers, st), h')"
    using two_setup by blast
  have "\<exists>probes. run one_libs one_os one_env two_rounds two_method (hop_range 1 2) 5 1 [] = (Inr (Some probes), h')"
    using s by (simp add: run_def io_bind_def two_rounds_def submit_and_wait_def process_cqe_def Trace_Loop.complete_def
        timeout_event_def event_user_data trace_done_def loop_result_def io_return_def)
  then obtain probes where r:
    "run one_libs one_os one_env two_rounds two_method (hop_range 1 2) 5 1 [] = (Inr (Some probes), h')" by blast
  have fields: "a_first_hop two_args = 1" "a_max_hops two_args = 2" "a_timeout two_args = 5"
    "a_count two_args = 1" "a_size two_args = 60" "a_method two_args = ArgIcmp"
    by (simp_all add: two_args_def plain_args_def)
  have m: "main one_libs rfc_pnet one_os one_env two_rounds no_lookup two_args [] =
      (header_line two_args (V4 1) @ print_results probes, Inr (Some ()), h')"
    using t two_build [of rfc_pnet "[]"] r by (simp add: main_def fields) (simp add: word_le_nat_alt)
  have "0 < unat (a_count two_args)" by (simp add: two_args_def)
  from main_output [OF documented.trace_env_axioms one_env_fresh m this] obtain target h1 ps hops k where
    target: "resolve_target no_lookup two_args [] = (Inr target, h1)" and
    hops: "hops = map (\<lambda>ttl. filter (\<lambda>p. p_ttl p = ttl) ps) (hop_range 1 2)" and
    out: "header_line two_args (V4 1) @ print_results probes =
       header_line two_args target @ concat (map (hop_line) (take (Suc k) hops))" and
    k: "Suc k = length hops \<or> reaches_destination (hops ! k)"
    unfolding fields by blast
  have "length hops = 2" using hops by (simp add: hop_range_props)
  with m out k target t show ?thesis
    by (intro exI [of _ "header_line two_args (V4 1) @ print_results probes"] exI [of _ h'] exI [of _ hops]
        exI [of _ k]) simp
qed

end
