(* ===== verification/Reply_Buffers.thy ===== *)
theory Reply_Buffers
  imports Trace_Data Method_Icmp Method_Udp Method_Tcp
begin

text \<open>
  The size of the receive buffers: how much of a message fits behind the header, the name and the
  control data that \<open>Multishot::try_new\<close> reserves, and that it is enough for every method to
  identify a reply, however much the kernel has to cut off (\<open>truncated\<close>). \<open>ip_wire\<close> adds the
  IPv4 header of RFC 791 to the contract of the packet views.
\<close>

text \<open>
  A buffer of the size \<open>run\<close> asks for begins with \<open>io_uring_recvmsg_out\<close> and the space the reader's
  \<open>msghdr\<close> reserves; the message has the rest.
\<close>

definition payload_room :: "platform \<Rightarrow> msghdr \<Rightarrow> nat \<Rightarrow> nat" where
  "payload_room P hdr max_reply_len =
     RECVMSG_OVERHEAD P + max_reply_len - (4 * size_of_u32 + msg_namelen hdr + msg_controllen hdr)"

lemma payload_room_multishot:
  assumes "multishot_try_new P sys queue slot h = (Inr reader, h')"
  shows "payload_room P (ms_msghdr reader) n = (if q_err_queue queue then n else RECVERR_CONTROL_LEN P + n)"
  using assms
  by (auto simp: multishot_try_new_def Let_def io_bind_def io_return_def payload_room_def RECVMSG_OVERHEAD_def
      zeroed_msghdr_def split: sum.splits prod.splits if_splits)

definition truncated :: "nat \<Rightarrow> reply \<Rightarrow> reply" where
  "truncated n r = r\<lparr>r_quoted := take n (r_quoted r)\<rparr>"

lemma truncated_fields [simp]:
  "r_source (truncated n r) = r_source r" "r_destination (truncated n r) = r_destination r"
  "r_quoted (truncated n r) = take n (r_quoted r)"
  by (simp_all add: truncated_def)

lemma get_range_cut: "b \<le> n \<Longrightarrow> get_range (take n bs) a b = get_range bs a b"
  by (auto simp: get_range_def drop_take min_def)

section \<open>The IPv4 header\<close>

definition ipv4_header_len :: "bytes \<Rightarrow> nat" where
  "ipv4_header_len p = 4 * unat (p ! 0 AND 15)"

locale ip_wire = tcp_wire +
  assumes ipv4_view: "ipv4_view_ok N p \<longleftrightarrow> 20 \<le> length p"
    and payload: "20 \<le> length p \<Longrightarrow> 20 \<le> ipv4_header_len p \<Longrightarrow>
      ipv4_payload N p = take (be_nat (field p 2 2) - ipv4_header_len p) (drop (ipv4_header_len p) p)"
begin

text \<open>What is read of a segment is in its fixed header.\<close>

lemma segment_cut:
  assumes "20 \<le> n"
  shows "tcp_view_ok N (take n s) = tcp_view_ok N s"
    and "20 \<le> length s \<Longrightarrow> get_source N (take n s) = get_source N s"
    and "20 \<le> length s \<Longrightarrow> get_destination N (take n s) = get_destination N s"
    and "20 \<le> length s \<Longrightarrow> get_acknowledgement N (take n s) = get_acknowledgement N s"
  using assms by (simp_all add: view_iff getters field_take)

text \<open>The identifier in a segment.\<close>

definition segment_id :: "u16 \<Rightarrow> bytes \<Rightarrow> probe_id option" where
  "segment_id port s =
     (if \<not> tcp_view_ok N s then None
      else if (get_source N s, get_destination N s) \<noteq> (DEST_PORT, port) then None
      else Option.bind (checked_sub (get_acknowledgement N s) 1) u16_try_from)"

lemma segment_id_cut: "20 \<le> n \<Longrightarrow> segment_id port (take n s) = segment_id port s"
  using segment_cut [of n s] by (auto simp: segment_id_def view_iff)

lemma segment_id_short: "length s < 20 \<Longrightarrow> segment_id port s = None"
  by (simp add: segment_id_def view_iff)

lemma identify_segment:
  "tcp_replies_identify N target source r =
     Option.bind (r_source r) (\<lambda>a. Option.bind (as_socket a) (\<lambda>(ip, _).
       if ip \<noteq> target then None
       else case target of
         V4 _ \<Rightarrow> if ipv4_view_ok N (r_quoted r) then segment_id (snd source) (ipv4_payload N (r_quoted r)) else None
       | V6 _ \<Rightarrow> segment_id (snd source) (r_quoted r)))"
  by (auto simp: tcp_replies_identify_def segment_id_def split: ip_addr.split intro!: bind_option_cong)

lemma header_len_le: "ipv4_header_len q \<le> 60"
proof -
  have "unat (q ! 0 AND 15) \<le> unat (15 :: u8)" by (intro word_le_nat_alt [THEN iffD1] word_and_le1)
  then show ?thesis by (simp add: ipv4_header_len_def)
qed

text \<open>A datagram that keeps its longest header and the fixed part of the segment.\<close>

lemma datagram_cut:
  assumes "80 \<le> n" "20 \<le> length q" "20 \<le> ipv4_header_len q"
  shows "segment_id port (ipv4_payload N (take n q)) = segment_id port (ipv4_payload N q)"
proof -
  let ?h = "ipv4_header_len q" and ?t = "be_nat (field q 2 2)"
  have h: "ipv4_header_len (take n q) = ?h" using assms(1,2) by (simp add: ipv4_header_len_def)
  have "ipv4_payload N (take n q) = take (?t - ?h) (drop ?h (take n q))"
    using payload [of "take n q"] assms h by (simp add: field_take)
  also have "\<dots> = take (n - ?h) (ipv4_payload N q)"
    using payload [OF assms(2,3)] by (simp add: drop_take min.commute)
  finally show ?thesis using assms(1) header_len_le [of q] by (simp add: segment_id_cut)
qed

lemma identify_cut:
  assumes "80 \<le> n" and "\<And>ip. target = V4 ip \<Longrightarrow> 20 \<le> ipv4_header_len (r_quoted r)"
  shows "tcp_replies_identify N target source (truncated n r) = tcp_replies_identify N target source r"
proof (cases target)
  case (V4 ip)
  have "ipv4_view_ok N (take n q) = ipv4_view_ok N q" for q using assms(1) by (simp add: ipv4_view)
  then show ?thesis
    using V4 assms(1) datagram_cut [OF _ _ assms(2), of n]
    by (auto simp: identify_segment ipv4_view intro!: bind_option_cong)
next
  case (V6 ip)
  then show ?thesis
    using assms(1) by (auto simp: identify_segment segment_id_cut intro!: bind_option_cong)
qed

end

interpretation rfc_ip: ip_wire rfc_pnet
  by unfold_locales (simp_all add: rfc_pnet_def ipv4_header_len_def Let_def)

section \<open>All methods\<close>

lemma tcp_error_cut: "8 \<le> n \<Longrightarrow> tcp_identify_from_error (truncated n r) port = tcp_identify_from_error r port"
  by (auto simp: tcp_identify_from_error_def get_range_cut intro!: bind_option_cong)

lemma sequence_cut: "8 \<le> n \<Longrightarrow> sequence (truncated n r) = sequence r"
  by (simp add: sequence_def get_range_cut)

lemma udp_cut:
  "udp_replies_identify target (truncated n r) = udp_replies_identify target r"
  "udp_identify_from_error (truncated n r) = udp_identify_from_error r"
  by (simp_all add: udp_replies_identify_def udp_identify_from_error_def)

text \<open>What the queues of each method identify replies with.\<close>

lemma icmp_queues:
  "icmp_open P sys self h = (Inr (socket, queues), h') \<Longrightarrow> queue \<in> set queues \<Longrightarrow>
   identify (q_replies queue) = sequence"
  by (auto simp: icmp_open_def io_bind_def io_return_def echo_replies_def error_replies_def split: sum.splits prod.splits)

lemma udp_queues:
  "udp_open P sys self h = (Inr (socket, queues), h') \<Longrightarrow> queue \<in> set queues \<Longrightarrow>
   identify (q_replies queue) =
     (if q_err_queue queue then udp_identify_from_error else udp_replies_identify (udp_target self))"
  by (auto simp: udp_open_def io_bind_def io_return_def udp_replies_def error_replies_def split: sum.splits prod.splits)

lemma tcp_queues:
  "tcp_open P N sys self h = (Inr (socket, queues), h') \<Longrightarrow> queue \<in> set queues \<Longrightarrow>
   identify (q_replies queue) =
     (if q_err_queue queue then (\<lambda>r. tcp_identify_from_error r (snd (tcp_source self)))
      else tcp_replies_identify N (tcp_target self) (tcp_source self))"
  by (auto simp: tcp_open_def io_bind_def io_return_def tcp_replies_def error_replies_def Let_def
      split: sum.splits prod.splits)

text \<open>
  C38: The buffers a trace provides are large enough for every method: whatever the kernel has to cut
  off a message, on either queue of a method's sockets, it is identified as the whole message would be,
  even a TCP answer behind an IPv4 header with options.
\<close>

theorem buffers_hold_replies:
  assumes "ip_wire N"
    and "m \<in> {icmp_method (linux64 le) sys icmp, udp_method (linux64 le) sys udp, tcp_method (linux64 le) N sys tcp}"
    and "m_open m h = (Inr (socket, queues), h1)" and "queue \<in> set queues"
    and "multishot_try_new (linux64 le) sys queue slot h2 = (Inr reader, h3)"
    and "m = tcp_method (linux64 le) N sys tcp \<Longrightarrow> \<exists>ip. tcp_target tcp = V4 ip \<Longrightarrow> \<not> q_err_queue queue \<Longrightarrow>
      20 \<le> ipv4_header_len (r_quoted r)"
  shows "identify (q_replies queue)
      (truncated (payload_room (linux64 le) (ms_msghdr reader) (m_max_reply_len m)) r) =
    identify (q_replies queue) r"
proof -
  have c: "RECVERR_CONTROL_LEN (linux64 le) = 64" by (simp add: RECVERR_CONTROL_LEN_def align_up_def)
  let ?n = "payload_room (linux64 le) (ms_msghdr reader) (m_max_reply_len m)"
  have n: "?n = (if q_err_queue queue then m_max_reply_len m else 64 + m_max_reply_len m)"
    using payload_room_multishot [OF assms(5)] c by simp
  consider "m = icmp_method (linux64 le) sys icmp" | "m = udp_method (linux64 le) sys udp"
    | "m = tcp_method (linux64 le) N sys tcp" using assms(2) by blast
  then show ?thesis
  proof cases
    case 1
    then have "8 \<le> ?n" unfolding n by (simp add: icmp_method_def icmp_max_reply_len_def ECHO_HEADER_LEN_def)
    then show ?thesis using 1 assms(3,4) by (simp add: icmp_method_def icmp_queues sequence_cut)
  next
    case 2
    then show ?thesis using assms(3,4) by (simp add: udp_method_def udp_queues udp_cut)
  next
    case 3
    have "20 \<le> m_max_reply_len m"
      by (simp add: 3 tcp_method_def tcp_max_reply_len_def TCP_MIN_HEADER_LEN_def)
    then have e: "8 \<le> ?n" "\<not> q_err_queue queue \<Longrightarrow> 80 \<le> ?n" using n by simp_all
    have "tcp_open (linux64 le) N sys tcp h = (Inr (socket, queues), h1)"
      using 3 assms(3) by (simp add: tcp_method_def)
    note q = tcp_queues [OF this assms(4)]
    show ?thesis
    proof (cases "q_err_queue queue")
      case True
      then show ?thesis using e(1) by (simp add: q tcp_error_cut)
    next
      case False
      then show ?thesis
        using ip_wire.identify_cut [OF assms(1) e(2) [OF False], of "tcp_target tcp"] assms(6) [OF 3 _ False]
        by (simp add: q)
    qed
  qed
qed

text \<open>
  An acknowledgement behind an IPv4 header of six words and with sixty-one bytes of data, of which the
  buffer has no room for the last.
\<close>

definition long_answer :: reply where
  "long_answer = \<lparr>r_source = Some (SockV4 1 0), r_destination = None,
     r_quoted = [0x46, 0, 0, 105, 0, 0, 0, 0, 0, 0, 0, 0, 0, 0, 0, 0, 0, 0, 0, 0, 0, 0, 0, 0,
       0, 80, 0, 9, 0, 0, 0, 0, 0, 0, 0, 8, 0x50, 4, 0, 0, 0, 0, 0, 0] @ replicate 61 1,
     r_error = None\<rparr>"

definition long_tcp :: tcp where
  "long_tcp = \<lparr>tcp_target = V4 1, tcp_source = (V4 2, 9), tcp_dummy_sock = 0\<rparr>"

definition long_os :: os where
  "long_os = \<lparr>os_socket = (\<lambda>_. Inr 3), os_unit = (\<lambda>_. Inr ()), os_addr = (\<lambda>_. Inl 1), os_domain = (\<lambda>_. Inl 1)\<rparr>"

lemma long_open:
  "\<exists>h. m_open (tcp_method (linux64 True) rfc_pnet long_os long_tcp) [] =
     (Inr (3, [\<lparr>q_socket = 3, q_err_queue = False, q_replies = tcp_replies (linux64 True) rfc_pnet (V4 1) (V4 2, 9)\<rparr>,
       \<lparr>q_socket = 3, q_err_queue = True, q_replies = error_replies (\<lambda>r. tcp_identify_from_error r 9)\<rparr>]), h)"
  by (simp add: tcp_method_def tcp_open_def bound_socket_def long_os_def long_tcp_def io_defs Let_def)

lemma long_reader:
  "multishot_try_new (linux64 True) long_os \<lparr>q_socket = 3, q_err_queue = False, q_replies = q\<rparr> 0 [] =
     (Inr \<lparr>ms_queue = \<lparr>q_socket = 3, q_err_queue = False, q_replies = q\<rparr>, ms_slot = 0,
       ms_msghdr = zeroed_msghdr\<lparr>msg_namelen := 28\<rparr>\<rparr>, [])"
  by (simp add: multishot_try_new_def Let_def NAME_LEN_def) (simp add: io_return_def zeroed_msghdr_def)

theorem buffers_hold_replies_witness:
  "tcp_replies_identify rfc_pnet (V4 1) (V4 2, 9) (truncated 104 long_answer) =
     tcp_replies_identify rfc_pnet (V4 1) (V4 2, 9) long_answer \<and> length (r_quoted long_answer) = 105"
proof -
  obtain h where o: "m_open (tcp_method (linux64 True) rfc_pnet long_os long_tcp) [] =
     (Inr (3, [\<lparr>q_socket = 3, q_err_queue = False, q_replies = tcp_replies (linux64 True) rfc_pnet (V4 1) (V4 2, 9)\<rparr>,
       \<lparr>q_socket = 3, q_err_queue = True, q_replies = error_replies (\<lambda>r. tcp_identify_from_error r 9)\<rparr>]), h)"
    using long_open by blast
  have n: "payload_room (linux64 True) (zeroed_msghdr\<lparr>msg_namelen := 28\<rparr>)
      (m_max_reply_len (tcp_method (linux64 True) rfc_pnet long_os long_tcp)) = 104"
    by (simp add: tcp_method_def tcp_max_reply_len_def long_tcp_def MIN_IPV4_HEADER_LEN_def TCP_MIN_HEADER_LEN_def
        payload_room_def RECVMSG_OVERHEAD_def NAME_LEN_def size_of_u32_def RECVERR_CONTROL_LEN_def align_up_def
        zeroed_msghdr_def)
  have "20 \<le> ipv4_header_len (r_quoted long_answer)" by (simp add: ipv4_header_len_def long_answer_def)
  from buffers_hold_replies [OF rfc_ip.ip_wire_axioms _ o _
      long_reader [of "tcp_replies (linux64 True) rfc_pnet (V4 1) (V4 2, 9)"] this, where tcp = long_tcp
      and icmp = "\<lparr>icmp_target = V4 1, icmp_payload_len = 0\<rparr>" and udp = "\<lparr>udp_target = V4 1, udp_payload_len = 0\<rparr>"] n
  have "tcp_replies_identify rfc_pnet (V4 1) (V4 2, 9) (truncated 104 long_answer) =
      tcp_replies_identify rfc_pnet (V4 1) (V4 2, 9) long_answer"
    by (simp add: tcp_replies_def)
  then show ?thesis by (simp add: long_answer_def)
qed

end
