(* ===== verification/Unit_Tests.thy ===== *)
theory Unit_Tests
  imports Method_Icmp Method_Udp
begin

text \<open>
  The repository's own unit tests (the \<open>test\<close> modules of src/src/icmp.rs and of mod.rs, icmp.rs and udp.rs under
  src/src/method), translated like the code they test: a test is a computation that panics where an
  assertion fails. That none of them does on the model's definitions is a check of the
  model against the code's authors' expectations. The tests of tcp.rs, which need an operating
  system, have a theory of their own.
\<close>

section \<open>Assertions\<close>

definition assert :: "bool \<Rightarrow> unit rust" where
  "assert b = (if b then Inr () else Inl (Panic AssertionFailed))"

definition assert_eq :: "'a \<Rightarrow> 'a \<Rightarrow> unit rust" where
  "assert_eq a b = assert (a = b)"

fun for_each :: "'a list \<Rightarrow> ('a \<Rightarrow> unit rust) \<Rightarrow> unit rust" where
  "for_each [] body = Inr ()"
| "for_each (x # xs) body = try_bind (body x) (\<lambda>_. for_each xs body)"

text \<open>\<open>unwrap()\<close> and \<open>is_err()\<close> of a result; a panic inside it goes on.\<close>

fun unwrap :: "'a rust \<Rightarrow> 'a rust" where
  "unwrap (Inr x) = Inr x"
| "unwrap (Inl (Fail _)) = Inl (Panic UnwrapErr)"
| "unwrap (Inl (Panic p)) = Inl (Panic p)"

fun is_err :: "'a rust \<Rightarrow> bool rust" where
  "is_err (Inr x) = Inr False"
| "is_err (Inl (Fail _)) = Inr True"
| "is_err (Inl (Panic p)) = Inl (Panic p)"

definition slice_to :: "'a list \<Rightarrow> nat \<Rightarrow> 'a list rust" where
  "slice_to xs n = ok_or (Panic IndexOutOfBounds) (get_range xs 0 n)"

definition index :: "'a list \<Rightarrow> nat \<Rightarrow> 'a rust" where
  "index xs i = (if i < length xs then Inr (xs ! i) else Inl (Panic IndexOutOfBounds))"

definition passes :: "unit rust \<Rightarrow> bool" where
  "passes test \<longleftrightarrow> test = Inr ()"

lemma passes_simps [simp]:
  "passes (assert b) \<longleftrightarrow> b" "passes (assert_eq a c) \<longleftrightarrow> a = c"
  "passes (Inr u)" "passes (for_each xs body) \<longleftrightarrow> (\<forall>x \<in> set xs. passes (body x))"
proof -
  show "passes (for_each xs body) \<longleftrightarrow> (\<forall>x \<in> set xs. passes (body x))"
    by (induction xs) (auto simp: passes_def try_bind_Inr_iff)
qed (simp_all add: passes_def assert_eq_def assert_def)

lemma passes_seq [simp]:
  "passes (try_bind (test :: unit rust) (\<lambda>_. rest)) \<longleftrightarrow> passes test \<and> passes rest"
  "passes (try_bind test Inr) \<longleftrightarrow> passes test"
  by (simp_all add: passes_def try_bind_Inr_iff)

definition LOCALHOST_V4 :: ip_addr where "LOCALHOST_V4 = V4 (ipv4_from_octets [127, 0, 0, 1])"
definition LOCALHOST_V6 :: ip_addr where "LOCALHOST_V6 = V6 1"
definition TARGETS :: "ip_addr list" where "TARGETS = [LOCALHOST_V4, LOCALHOST_V6]"
definition PROBE_ID :: probe_id where "PROBE_ID = 1234"
definition PACKET_LENGTH :: nat where "PACKET_LENGTH = 60"

definition ECONNREFUSED :: i32 where "ECONNREFUSED = 111"   \<comment> \<open>Linux\<close>

section \<open>src/src/icmp.rs\<close>

definition v4_error :: "u8 \<Rightarrow> u8 \<Rightarrow> icmp_error" where
  "v4_error ty code = IcmpV4 ty code 0"

definition v6_error :: "u8 \<Rightarrow> u8 \<Rightarrow> icmp_error" where
  "v6_error ty code = IcmpV6 ty code 0"

definition marker :: "string \<Rightarrow> reply_kind" where
  "marker m = Unreachable (Marker m)"

definition other :: "u8 \<Rightarrow> u8 \<Rightarrow> reply_kind" where
  "other ty code = Unreachable (Other ty code)"

definition SOURCE_QUENCH :: u8 where "SOURCE_QUENCH = 4"
definition PARAMETER_PROBLEM :: u8 where "PARAMETER_PROBLEM = 4"

definition v4_test_ttl_exceeded_is_hop :: "unit rust" where
  "v4_test_ttl_exceeded_is_hop = assert_eq (kind (v4_error v4_TIME_EXCEEDED 0)) Hop"

definition v4_test_reassembly_exceeded_is_other :: "unit rust" where
  "v4_test_reassembly_exceeded_is_other =
     assert_eq (kind (v4_error v4_TIME_EXCEEDED 1)) (other v4_TIME_EXCEEDED 1)"

definition v4_test_port_unreachable_is_destination :: "unit rust" where
  "v4_test_port_unreachable_is_destination = assert_eq (kind (v4_error v4_DEST_UNREACH 3)) Destination"

definition v4_test_dest_unreach_markers :: "unit rust" where
  "v4_test_dest_unreach_markers =
     for_each
       [(0, ''!N''), (6, ''!N''), (8, ''!N''), (11, ''!N''), (1, ''!H''), (7, ''!H''), (12, ''!H''),
        (9, ''!X''), (10, ''!X''), (13, ''!X''), (2, ''!P''), (5, ''!S''), (14, ''!V''), (15, ''!C'')]
       (\<lambda>(code, expected). assert_eq (kind (v4_error v4_DEST_UNREACH code)) (marker expected))"

definition v4_test_fragmentation_needed_reports_mtu :: "unit rust" where
  "v4_test_fragmentation_needed_reports_mtu =
     (let error = IcmpV4 v4_DEST_UNREACH 4 1400 in assert_eq (kind error) (Unreachable (TooBig 1400)))"

definition v4_test_unnamed_dest_unreach_code :: "unit rust" where
  "v4_test_unnamed_dest_unreach_code =
     assert_eq (kind (v4_error v4_DEST_UNREACH 99)) (Unreachable (Code 99))"

definition v4_test_unhandled_type_is_other :: "unit rust" where
  "v4_test_unhandled_type_is_other = assert_eq (kind (v4_error SOURCE_QUENCH 0)) (other SOURCE_QUENCH 0)"

definition v6_test_hop_limit_exceeded_is_hop :: "unit rust" where
  "v6_test_hop_limit_exceeded_is_hop = assert_eq (kind (v6_error v6_TIME_EXCEEDED 0)) Hop"

definition v6_test_reassembly_exceeded_is_other :: "unit rust" where
  "v6_test_reassembly_exceeded_is_other =
     assert_eq (kind (v6_error v6_TIME_EXCEEDED 1)) (other v6_TIME_EXCEEDED 1)"

definition v6_test_port_unreachable_is_destination :: "unit rust" where
  "v6_test_port_unreachable_is_destination = assert_eq (kind (v6_error v6_DEST_UNREACH 4)) Destination"

definition v6_test_dest_unreach_markers :: "unit rust" where
  "v6_test_dest_unreach_markers =
     for_each [(0, ''!N''), (1, ''!X''), (2, ''!H''), (3, ''!H'')]
       (\<lambda>(code, expected). assert_eq (kind (v6_error v6_DEST_UNREACH code)) (marker expected))"

definition v6_test_packet_too_big_reports_mtu :: "unit rust" where
  "v6_test_packet_too_big_reports_mtu =
     (let error = IcmpV6 v6_PACKET_TOO_BIG 0 1280 in assert_eq (kind error) (Unreachable (TooBig 1280)))"

definition v6_test_unnamed_dest_unreach_code :: "unit rust" where
  "v6_test_unnamed_dest_unreach_code =
     assert_eq (kind (v6_error v6_DEST_UNREACH 5)) (Unreachable (Code 5))"

definition v6_test_unhandled_type_is_other :: "unit rust" where
  "v6_test_unhandled_type_is_other =
     assert_eq (kind (v6_error PARAMETER_PROBLEM 1)) (other PARAMETER_PROBLEM 1)"

definition icmp_tests :: "unit rust list" where
  "icmp_tests =
     [v4_test_ttl_exceeded_is_hop, v4_test_reassembly_exceeded_is_other,
      v4_test_port_unreachable_is_destination, v4_test_dest_unreach_markers,
      v4_test_fragmentation_needed_reports_mtu, v4_test_unnamed_dest_unreach_code,
      v4_test_unhandled_type_is_other, v6_test_hop_limit_exceeded_is_hop,
      v6_test_reassembly_exceeded_is_other, v6_test_port_unreachable_is_destination,
      v6_test_dest_unreach_markers, v6_test_packet_too_big_reports_mtu,
      v6_test_unnamed_dest_unreach_code, v6_test_unhandled_type_is_other]"

lemma icmp_tests_pass: "list_all passes icmp_tests"
  by (simp add: icmp_tests_def v4_error_def v6_error_def marker_def other_def SOURCE_QUENCH_def
      PARAMETER_PROBLEM_def icmp_constants
      v4_test_ttl_exceeded_is_hop_def v4_test_reassembly_exceeded_is_other_def
      v4_test_port_unreachable_is_destination_def v4_test_dest_unreach_markers_def
      v4_test_fragmentation_needed_reports_mtu_def v4_test_unnamed_dest_unreach_code_def
      v4_test_unhandled_type_is_other_def v6_test_hop_limit_exceeded_is_hop_def
      v6_test_reassembly_exceeded_is_other_def v6_test_port_unreachable_is_destination_def
      v6_test_dest_unreach_markers_def v6_test_packet_too_big_reports_mtu_def
      v6_test_unnamed_dest_unreach_code_def v6_test_unhandled_type_is_other_def)

section \<open>src/src/method/mod.rs\<close>

definition mod_reply :: "icmp_error option \<Rightarrow> reply" where
  "mod_reply error = \<lparr>r_source = None, r_destination = None, r_quoted = [], r_error = error\<rparr>"

definition ERROR_REPLIES :: replies where
  "ERROR_REPLIES = error_replies (\<lambda>_. None)"

definition test_unreachable_display :: "unit rust" where
  "test_unreachable_display =
     try_bind (assert_eq (display_unreachable (Marker ''!N'')) ''!N'') (\<lambda>_.
     try_bind (assert_eq (display_unreachable (Code 99)) ''!<99>'') (\<lambda>_.
     try_bind (assert_eq (display_unreachable (Other 11 1)) ''!<11-1>'') (\<lambda>_.
     assert_eq (display_unreachable (TooBig 1400)) ''!F-1400'')))"

definition test_classify_error_reply :: "unit rust" where
  "test_classify_error_reply =
     (let error = IcmpV4 v4_TIME_EXCEEDED 0 0
      in assert_eq (classify ERROR_REPLIES (mod_reply (Some error))) Hop)"

definition test_classify_without_error :: "unit rust" where
  "test_classify_without_error =
     assert_eq (classify ERROR_REPLIES (mod_reply None)) (Unreachable (Marker ''!?''))"

definition mod_tests :: "unit rust list" where
  "mod_tests = [test_unreachable_display, test_classify_error_reply, test_classify_without_error]"

lemma mod_tests_pass: "list_all passes mod_tests"
  by (simp add: mod_tests_def test_unreachable_display_def test_classify_error_reply_def
      test_classify_without_error_def ERROR_REPLIES_def mod_reply_def classify_error_reply_def
      icmp_constants show_nat.simps char_of_def bit_0)

section \<open>src/src/method/icmp.rs\<close>

definition quoting :: "bytes \<Rightarrow> reply" where
  "quoting quoted = \<lparr>r_source = None, r_destination = None, r_quoted = quoted, r_error = None\<rparr>"

definition icmp_test_probe :: "ip_addr \<Rightarrow> bytes rust" where
  "icmp_test_probe target =
     try_bind (unwrap (icmp_try_new target PACKET_LENGTH)) (\<lambda>icmp.
     try_bind (icmp_probe icmp PROBE_ID) (\<lambda>(packet, _). Inr packet))"

definition ICMP_ERROR_REPLIES :: replies where
  "ICMP_ERROR_REPLIES = error_replies sequence"

definition icmp_test_identify_quoted_probe :: "unit rust" where
  "icmp_test_identify_quoted_probe =
     for_each TARGETS (\<lambda>target. try_bind (icmp_test_probe target) (\<lambda>packet.
       assert_eq (identify ICMP_ERROR_REPLIES (quoting packet)) (Some PROBE_ID)))"

definition icmp_test_identify_echo_reply :: "platform \<Rightarrow> unit rust" where
  "icmp_test_identify_echo_reply P =
     for_each TARGETS (\<lambda>target. try_bind (icmp_test_probe target) (\<lambda>packet.
       assert_eq (identify (echo_replies P) (quoting packet)) (Some PROBE_ID)))"

definition icmp_test_identify_rejects_truncated_reply :: "platform \<Rightarrow> unit rust" where
  "icmp_test_identify_rejects_truncated_reply P =
     for_each TARGETS (\<lambda>target. try_bind (icmp_test_probe target) (\<lambda>packet.
       try_bind (slice_to packet 7) (\<lambda>start.
       let truncated = quoting start in
       try_bind (assert_eq (identify ICMP_ERROR_REPLIES truncated) None) (\<lambda>_.
       assert_eq (identify (echo_replies P) truncated) None))))"

definition icmp_test_classify_echo_replies :: "platform \<Rightarrow> unit rust" where
  "icmp_test_classify_echo_replies P =
     for_each TARGETS (\<lambda>target. try_bind (icmp_test_probe target) (\<lambda>packet.
       assert_eq (classify (echo_replies P) (quoting packet)) Destination))"

definition icmp_test_echo_replies_ignore_host_unreachable :: "platform \<Rightarrow> unit rust" where
  "icmp_test_echo_replies_ignore_host_unreachable P =
     try_bind (assert (ignores_read_error (echo_replies P) (- EHOSTUNREACH P))) (\<lambda>_.
     assert (\<not> ignores_read_error (echo_replies P) (- ECONNREFUSED)))"

text \<open>The tests of the modules \<open>v4\<close> and \<open>v6\<close>, which differ in these three constants only.\<close>

definition icmp_test_probe_addresses_target :: "ip_addr \<Rightarrow> unit rust" where
  "icmp_test_probe_addresses_target target =
     try_bind (unwrap (icmp_try_new target PACKET_LENGTH)) (\<lambda>icmp.
     try_bind (icmp_probe icmp PROBE_ID) (\<lambda>(_, address).
     assert_eq address (sock_addr_new target 0)))"

definition icmp_test_rejects_too_small_packet :: "ip_addr \<Rightarrow> unit rust" where
  "icmp_test_rejects_too_small_packet target =
     try_bind (is_err (icmp_try_new target 0)) (\<lambda>err.
     try_bind (assert err) (\<lambda>_.
     try_bind (is_err (icmp_try_new target (icmp_min_packet_len target - 1))) assert))"

definition icmp_test_probe_length :: "ip_addr \<Rightarrow> nat \<Rightarrow> unit rust" where
  "icmp_test_probe_length target header_len =
     for_each [icmp_min_packet_len target, PACKET_LENGTH, 1500] (\<lambda>packet_len.
       try_bind (unwrap (icmp_try_new target packet_len)) (\<lambda>icmp.
       try_bind (icmp_probe icmp PROBE_ID) (\<lambda>(packet, _).
       try_bind (assert_eq (length packet) (packet_len - header_len)) (\<lambda>_.
       assert_eq (length packet) (icmp_max_reply_len icmp)))))"

definition icmp_test_probe_is_echo_request :: "ip_addr \<Rightarrow> u8 \<Rightarrow> unit rust" where
  "icmp_test_probe_is_echo_request target ECHO_REQUEST =
     try_bind (icmp_test_probe target) (\<lambda>packet.
     try_bind (index packet 0) (\<lambda>b0.
     try_bind (assert_eq b0 ECHO_REQUEST) (\<lambda>_.
     try_bind (index packet 1) (\<lambda>b1. assert_eq b1 0))))"

definition icmp_v4_test_probe_addresses_target :: "unit rust" where
  "icmp_v4_test_probe_addresses_target = icmp_test_probe_addresses_target LOCALHOST_V4"

definition icmp_v4_test_rejects_too_small_packet :: "unit rust" where
  "icmp_v4_test_rejects_too_small_packet = icmp_test_rejects_too_small_packet LOCALHOST_V4"

definition icmp_v4_test_probe_length :: "unit rust" where
  "icmp_v4_test_probe_length = icmp_test_probe_length LOCALHOST_V4 MIN_IPV4_HEADER_LEN"

definition icmp_v4_test_probe_is_echo_request :: "unit rust" where
  "icmp_v4_test_probe_is_echo_request = icmp_test_probe_is_echo_request LOCALHOST_V4 v4_ECHO_REQUEST"

definition icmp_v6_test_probe_addresses_target :: "unit rust" where
  "icmp_v6_test_probe_addresses_target = icmp_test_probe_addresses_target LOCALHOST_V6"

definition icmp_v6_test_rejects_too_small_packet :: "unit rust" where
  "icmp_v6_test_rejects_too_small_packet = icmp_test_rejects_too_small_packet LOCALHOST_V6"

definition icmp_v6_test_probe_length :: "unit rust" where
  "icmp_v6_test_probe_length = icmp_test_probe_length LOCALHOST_V6 IPV6_HEADER_LENGTH"

definition icmp_v6_test_probe_is_echo_request :: "unit rust" where
  "icmp_v6_test_probe_is_echo_request = icmp_test_probe_is_echo_request LOCALHOST_V6 v6_ECHO_REQUEST"

definition icmp_method_tests :: "platform \<Rightarrow> unit rust list" where
  "icmp_method_tests P =
     [icmp_test_identify_quoted_probe, icmp_test_identify_echo_reply P,
      icmp_test_identify_rejects_truncated_reply P, icmp_test_classify_echo_replies P,
      icmp_test_echo_replies_ignore_host_unreachable P,
      icmp_v4_test_probe_addresses_target, icmp_v4_test_rejects_too_small_packet,
      icmp_v4_test_probe_length, icmp_v4_test_probe_is_echo_request,
      icmp_v6_test_probe_addresses_target, icmp_v6_test_rejects_too_small_packet,
      icmp_v6_test_probe_length, icmp_v6_test_probe_is_echo_request]"

lemmas icmp_module_tests =
  icmp_v4_test_probe_addresses_target_def icmp_v4_test_rejects_too_small_packet_def
  icmp_v4_test_probe_length_def icmp_v4_test_probe_is_echo_request_def
  icmp_v6_test_probe_addresses_target_def icmp_v6_test_rejects_too_small_packet_def
  icmp_v6_test_probe_length_def icmp_v6_test_probe_is_echo_request_def

lemma localhost_cases [simp]:
  "(case LOCALHOST_V4 of V4 _ \<Rightarrow> a | V6 _ \<Rightarrow> b) = a" "(case LOCALHOST_V6 of V4 _ \<Rightarrow> a | V6 _ \<Rightarrow> b) = b"
  by (simp_all add: LOCALHOST_V4_def LOCALHOST_V6_def)

lemmas icmp_sizes = icmp_try_new_def checked_sub_usize_def icmp_min_packet_len_def PACKET_LENGTH_def
  MIN_IPV4_HEADER_LEN_def IPV6_HEADER_LENGTH_def ECHO_HEADER_LEN_def icmp_max_reply_len_def

lemma icmp_test_probe_eq:
  "target \<in> set TARGETS \<Longrightarrow> \<exists>n. icmp_test_probe target =
     Inr ([echo_request target, 0, 0, 0, 0, 0] @ u16_to_be PROBE_ID @ replicate n 0)"
  by (auto simp: TARGETS_def icmp_test_probe_def icmp_sizes icmp_probe_eq Let_def)

lemma icmp_method_tests_pass: "list_all passes (icmp_method_tests (linux64 le))"
proof -
  have probes: "passes (for_each TARGETS (\<lambda>target. try_bind (icmp_test_probe target) test))"
    if "\<And>b n. passes (test ([b, 0, 0, 0, 0, 0] @ u16_to_be PROBE_ID @ replicate n 0))" for test
    using icmp_test_probe_eq that by fastforce
  have seq: "sequence (quoting ([b, 0, 0, 0, 0, 0] @ u16_to_be PROBE_ID @ replicate n 0)) = Some PROBE_ID" for b n
    by (simp add: sequence_eq quoting_def field_def)
  have "passes icmp_test_identify_quoted_probe" "passes (icmp_test_identify_echo_reply P)"
    "passes (icmp_test_classify_echo_replies P)" for P
    unfolding icmp_test_identify_quoted_probe_def icmp_test_identify_echo_reply_def icmp_test_classify_echo_replies_def
    using seq by (intro probes; simp add: ICMP_ERROR_REPLIES_def echo_replies_def)+
  moreover have "passes (icmp_test_identify_rejects_truncated_reply P)" for P
    unfolding icmp_test_identify_rejects_truncated_reply_def
    by (intro probes) (simp add: slice_to_def get_range_def ICMP_ERROR_REPLIES_def echo_replies_def sequence_def
        quoting_def Let_def)
  moreover have "passes (icmp_test_echo_replies_ignore_host_unreachable (linux64 le))"
    by (simp add: icmp_test_echo_replies_ignore_host_unreachable_def echo_replies_def ECONNREFUSED_def)
  moreover have "passes (icmp_test_probe_addresses_target target)" "passes (icmp_test_rejects_too_small_packet target)" for target
    by (cases target; simp add: icmp_test_probe_addresses_target_def icmp_test_rejects_too_small_packet_def
        icmp_sizes icmp_probe_eq Let_def)+
  moreover have echo: "passes (icmp_test_probe_is_echo_request target (echo_request target))"
    if "target \<in> set TARGETS" for target
    using icmp_test_probe_eq [OF that] by (auto simp: icmp_test_probe_is_echo_request_def index_def)
  moreover have "passes (icmp_test_probe_is_echo_request LOCALHOST_V4 v4_ECHO_REQUEST)"
    "passes (icmp_test_probe_is_echo_request LOCALHOST_V6 v6_ECHO_REQUEST)"
    using echo [of LOCALHOST_V4] echo [of LOCALHOST_V6] by (simp_all add: TARGETS_def echo_request_def icmp_constants)
  moreover have "passes (icmp_test_probe_length LOCALHOST_V4 MIN_IPV4_HEADER_LEN)"
    "passes (icmp_test_probe_length LOCALHOST_V6 IPV6_HEADER_LENGTH)"
    by (auto simp: icmp_test_probe_length_def icmp_sizes icmp_probe_eq Let_def)
  ultimately show ?thesis by (simp add: icmp_method_tests_def icmp_module_tests)
qed

section \<open>src/src/method/udp.rs\<close>

definition udp_test_min_packet_len :: "ip_addr \<Rightarrow> nat" where
  "udp_test_min_packet_len target =
     (case target of V4 _ \<Rightarrow> MIN_IPV4_HEADER_LEN | V6 _ \<Rightarrow> IPV6_HEADER_LENGTH) + UDP_HEADER_LEN"

definition udp_test_reply :: "sock_addr option \<Rightarrow> reply" where
  "udp_test_reply destination =
     \<lparr>r_source = None, r_destination = destination, r_quoted = [], r_error = None\<rparr>"

definition udp_test_received :: "sock_addr option \<Rightarrow> reply" where
  "udp_test_received source =
     \<lparr>r_source = source, r_destination = None, r_quoted = [], r_error = None\<rparr>"

definition sockaddr :: "ip_addr \<Rightarrow> u16 \<Rightarrow> sock_addr option" where
  "sockaddr target port = Some (sock_addr_new target port)"

definition UDP_ERROR_REPLIES :: replies where
  "UDP_ERROR_REPLIES = error_replies udp_identify_from_error"

definition other_target :: "ip_addr \<Rightarrow> ip_addr" where
  "other_target target =
     (case target of V4 _ \<Rightarrow> V4 (ipv4_from_octets [192, 0, 2, 1])
      | V6 _ \<Rightarrow> V6 0x20010db8000000000000000000000001)"

definition udp_test_probe_addresses_target :: "unit rust" where
  "udp_test_probe_addresses_target =
     for_each TARGETS (\<lambda>target.
       try_bind (unwrap (udp_try_new target PACKET_LENGTH)) (\<lambda>udp.
       try_bind (udp_probe udp PROBE_ID) (\<lambda>(_, address).
       assert_eq (Some address) (sockaddr target (START_PORT + PROBE_ID)))))"

definition udp_test_probe_target_port_wraps :: "unit rust" where
  "udp_test_probe_target_port_wraps =
     for_each TARGETS (\<lambda>target.
       let probe_id = (- 1 - START_PORT) + 1 in
       try_bind (unwrap (udp_try_new target PACKET_LENGTH)) (\<lambda>udp.
       try_bind (udp_probe udp probe_id) (\<lambda>(_, address).
       assert_eq (Some address) (sockaddr target 1))))"

definition udp_test_rejects_too_small_packet :: "unit rust" where
  "udp_test_rejects_too_small_packet =
     for_each TARGETS (\<lambda>target.
       try_bind (is_err (udp_try_new target 0)) (\<lambda>err.
       try_bind (assert err) (\<lambda>_.
       try_bind (is_err (udp_try_new target (udp_test_min_packet_len target - 1))) assert)))"

definition udp_test_probe_length :: "unit rust" where
  "udp_test_probe_length =
     for_each TARGETS (\<lambda>target.
       for_each [udp_test_min_packet_len target, PACKET_LENGTH, 1500] (\<lambda>packet_len.
         try_bind (unwrap (udp_try_new target packet_len)) (\<lambda>udp.
         try_bind (udp_probe udp PROBE_ID) (\<lambda>(packet, _).
         try_bind (assert_eq (length packet) (packet_len - udp_test_min_packet_len target)) (\<lambda>_.
         assert_eq (length packet) (udp_max_reply_len udp))))))"

definition udp_test_identify_error_reply :: "unit rust" where
  "udp_test_identify_error_reply =
     for_each TARGETS (\<lambda>target.
       assert_eq (identify UDP_ERROR_REPLIES (udp_test_reply (sockaddr target (START_PORT + PROBE_ID))))
         (Some PROBE_ID))"

definition udp_test_identify_rejects_unknown_destination :: "unit rust" where
  "udp_test_identify_rejects_unknown_destination =
     try_bind (for_each TARGETS (\<lambda>target.
       assert_eq (identify UDP_ERROR_REPLIES (udp_test_reply (sockaddr target (START_PORT - 1)))) None)) (\<lambda>_.
     assert_eq (identify UDP_ERROR_REPLIES (udp_test_reply None)) None)"

definition udp_test_identify_received_reply :: "platform \<Rightarrow> unit rust" where
  "udp_test_identify_received_reply P =
     for_each TARGETS (\<lambda>target.
       assert_eq (identify (udp_replies P target) (udp_test_received (sockaddr target (START_PORT + PROBE_ID))))
         (Some PROBE_ID))"

definition udp_test_identify_rejects_unknown_source :: "platform \<Rightarrow> unit rust" where
  "udp_test_identify_rejects_unknown_source P =
     for_each TARGETS (\<lambda>target.
       try_bind (assert_eq (identify (udp_replies P target) (udp_test_received (sockaddr target 7))) None) (\<lambda>_.
       let other = other_target target in
       try_bind (assert_eq (identify (udp_replies P target)
         (udp_test_received (sockaddr other (START_PORT + PROBE_ID)))) None) (\<lambda>_.
       assert_eq (identify (udp_replies P target) (udp_test_received None)) None)))"

definition udp_method_tests :: "platform \<Rightarrow> unit rust list" where
  "udp_method_tests P =
     [udp_test_probe_addresses_target, udp_test_probe_target_port_wraps,
      udp_test_rejects_too_small_packet, udp_test_probe_length, udp_test_identify_error_reply,
      udp_test_identify_rejects_unknown_destination, udp_test_identify_received_reply P,
      udp_test_identify_rejects_unknown_source P]"

lemma udp_method_tests_pass: "list_all passes (udp_method_tests P)"
proof -
  have new: "udp_try_new target n = Inr \<lparr>udp_target = target, udp_payload_len = n - udp_test_min_packet_len target\<rparr>"
    if "udp_test_min_packet_len target \<le> n" for target n
    using that by (simp add: udp_try_new_def udp_min_packet_len_def udp_test_min_packet_len_def checked_sub_usize_def Let_def)
  have small: "udp_try_new target n = Inl (Fail (PacketTooSmall (udp_test_min_packet_len target) ''udp''))"
    if "n < udp_test_min_packet_len target" for target n
    using that by (simp add: udp_try_new_def udp_min_packet_len_def udp_test_min_packet_len_def checked_sub_usize_def Let_def)
  have min: "udp_test_min_packet_len target \<le> 48" "0 < udp_test_min_packet_len target" for target
    by (simp_all add: udp_test_min_packet_len_def MIN_IPV4_HEADER_LEN_def IPV6_HEADER_LENGTH_def UDP_HEADER_LEN_def
        split: ip_addr.split)
  have len: "udp_test_min_packet_len target \<le> PACKET_LENGTH" for target
    using min(1) [of target] by (simp add: PACKET_LENGTH_def)
  have len': "udp_test_min_packet_len target \<le> 1500" for target using min(1) [of target] by simp
  have "passes udp_test_probe_addresses_target" "passes udp_test_probe_target_port_wraps"
    "passes udp_test_rejects_too_small_packet" "passes udp_test_probe_length"
    by (simp_all add: udp_test_probe_addresses_target_def udp_test_probe_target_port_wraps_def
        udp_test_rejects_too_small_packet_def udp_test_probe_length_def new small min len len' udp_probe_eq
        sockaddr_def Let_def udp_port_def PROBE_ID_def START_PORT_def udp_max_reply_len_def)
  moreover have "passes udp_test_identify_error_reply" "passes udp_test_identify_rejects_unknown_destination"
    "passes (udp_test_identify_received_reply P)" "passes (udp_test_identify_rejects_unknown_source P)"
    by (simp_all add: udp_test_identify_error_reply_def udp_test_identify_rejects_unknown_destination_def
        udp_test_identify_received_reply_def udp_test_identify_rejects_unknown_source_def UDP_ERROR_REPLIES_def
        udp_replies_def udp_replies_identify_def udp_identify_from_error_def udp_test_reply_def udp_test_received_def
        sockaddr_def checked_sub_def START_PORT_def PROBE_ID_def TARGETS_def other_target_def LOCALHOST_V4_def
        LOCALHOST_V6_def ipv4_from_octets_def be_nat_def Let_def)
  ultimately show ?thesis by (simp add: udp_method_tests_def)
qed

section \<open>The property\<close>

text \<open>
  Every unit test of icmp.rs and of the modules mod.rs, icmp.rs and udp.rs of the methods passes on the
  model, on Linux of either byte order: no assertion fails and nothing panics.
\<close>

lemma unit_tests_pass:
  "list_all passes (icmp_tests @ mod_tests @ icmp_method_tests (linux64 le) @ udp_method_tests (linux64 le))"
  unfolding list_all_append
  by (intro conjI icmp_tests_pass mod_tests_pass icmp_method_tests_pass udp_method_tests_pass)

end
