(* ===== verification/Unit_Tests_Tcp.thy ===== *)
theory Unit_Tests_Tcp
  imports Unit_Tests Method_Tcp
begin

unbundle bit_operations_syntax

text \<open>
  The unit tests of src/src/method/tcp.rs. They open sockets, so a test is a computation over the
  system calls, here on a loopback system that answers every call, gives each socket a descriptor
  of its own and lets an arbitrary function choose the local ports. The packet views that only the
  tests use are a second record of functions with their RFC layout as its contract.
\<close>

section \<open>Packet views of the tests\<close>

record pnet_test =
  get_flags :: "bytes \<Rightarrow> u8"
  get_sequence :: "bytes \<Rightarrow> u32"
  get_checksum :: "bytes \<Rightarrow> u16"
  get_data_offset :: "bytes \<Rightarrow> u8"
  get_option_numbers :: "bytes \<Rightarrow> u8 list"
  set_acknowledgement :: "u32 \<Rightarrow> bytes \<Rightarrow> bytes"
  ip_set_version :: "u8 \<Rightarrow> bytes \<Rightarrow> bytes"
  ip_set_header_length :: "u8 \<Rightarrow> bytes \<Rightarrow> bytes"
  ip_set_total_length :: "u16 \<Rightarrow> bytes \<Rightarrow> bytes"
  ip_set_next_level_protocol :: "u8 \<Rightarrow> bytes \<Rightarrow> bytes"
  ip_set_source :: "32 word \<Rightarrow> bytes \<Rightarrow> bytes"
  ip_set_payload :: "bytes \<Rightarrow> bytes \<Rightarrow> bytes"

text \<open>The crate's constants: flags, the protocol number and the option kinds of RFC 9293.\<close>

definition flags_RST :: u8 where "flags_RST = 4"
definition flags_ACK :: u8 where "flags_ACK = 16"
definition proto_TCP :: u8 where "proto_TCP = 6"

fun option_number :: "tcp_option \<Rightarrow> u8" where
  "option_number (TcpMss _) = 2"
| "option_number TcpSackPerm = 4"
| "option_number (TcpTimestamp _ _) = 8"
| "option_number TcpNop = 1"
| "option_number (TcpWscale _) = 3"

text \<open>
  The fields of the TCP header (RFC 9293) and of an IPv4 header (RFC 791) without options, which
  for the setters is all the tests build.
\<close>

definition test_wire_ok :: "pnet \<Rightarrow> pnet_test \<Rightarrow> bool" where
  "test_wire_ok N T \<longleftrightarrow>
     (\<forall>p. ipv4_view_ok N p \<longleftrightarrow> 20 \<le> length p) \<and>
     (\<forall>p. 20 \<le> length p \<longrightarrow>
        get_flags T p = p ! 13 \<and> get_sequence T p = u32_from_be (field p 4 4) \<and>
        get_checksum T p = u16_from_be (field p 16 2) \<and> get_data_offset T p = drop_bit 4 (p ! 12) \<and>
        (\<forall>v. set_acknowledgement T v p = write_at p 8 (u32_to_be v)) \<and>
        (\<forall>v. ip_set_version T v p = p[0 := push_bit 4 v OR (p ! 0 AND 15)]) \<and>
        (\<forall>v. ip_set_header_length T v p = p[0 := (p ! 0 AND 240) OR (v AND 15)]) \<and>
        (\<forall>v. ip_set_total_length T v p = write_at p 2 (u16_to_be v)) \<and>
        (\<forall>v. ip_set_next_level_protocol T v p = p[9 := v]) \<and>
        (\<forall>v. ip_set_source T v p = write_at p 12 (be_bytes 4 (unat v))) \<and>
        (p ! 0 AND 15 = 5 \<longrightarrow>
          (\<forall>bs. 20 + length bs \<le> length p \<longrightarrow> ip_set_payload T bs p = write_at p 20 bs) \<and>
          ipv4_payload N p = take (be_nat (field p 2 2) - 20) (drop 20 p))) \<and>
     (\<forall>p os. header_len p \<le> length p \<longrightarrow> 20 \<le> header_len p \<longrightarrow>
        field p 20 (header_len p - 20) = concat (map option_bytes os) \<longrightarrow>
        get_option_numbers T p = map option_number os)"

section \<open>Tests with system calls\<close>

fun io_for_each :: "'a list \<Rightarrow> ('a \<Rightarrow> unit io) \<Rightarrow> unit io" where
  "io_for_each [] body = io_return ()"
| "io_for_each (x # xs) body = io_bind (body x) (\<lambda>_. io_for_each xs body)"

definition io_unwrap :: "'a io \<Rightarrow> 'a io" where
  "io_unwrap m = (\<lambda>h. case m h of (r, h) \<Rightarrow> (unwrap r, h))"

text \<open>
  The loopback system: the descriptor of a socket is the number of its \<open>socket\<close> call, its local
  address the loopback address of its family with the port \<open>port\<close> gives it.
\<close>

fun loopback :: "domain \<Rightarrow> u16 \<Rightarrow> sock_addr" where
  "loopback DomainIpv4 p = sock_addr_new LOCALHOST_V4 p"
| "loopback DomainIpv6 p = sock_addr_new LOCALHOST_V6 p"
| "loopback DomainOther p = SockOther 0"

definition loopback_os :: "(fd \<Rightarrow> u16) \<Rightarrow> os" where
  "loopback_os port = \<lparr>
     os_socket = (\<lambda>h. Inr (length h - 1)),
     os_unit = (\<lambda>_. Inr ()),
     os_addr = (\<lambda>h. case last h of
       SysLocalAddr s \<Rightarrow> (case h ! s of SysSocket family _ _ \<Rightarrow> Inr (loopback family (port s)) | _ \<Rightarrow> Inl 9)
     | _ \<Rightarrow> Inl 9),
     os_domain = (\<lambda>_. Inr DomainIpv4)\<rparr>"

section \<open>The helpers of the tests\<close>

definition SOURCE_PORT :: u16 where "SOURCE_PORT = 40000"

definition tcp_test_received :: "sock_addr option \<Rightarrow> bytes \<Rightarrow> reply" where
  "tcp_test_received source quoted =
     \<lparr>r_source = source, r_destination = None, r_quoted = quoted, r_error = None\<rparr>"

definition tcp_test_replies :: "platform \<Rightarrow> pnet \<Rightarrow> ip_addr \<Rightarrow> replies" where
  "tcp_test_replies P N target = tcp_replies P N target (V4 0, SOURCE_PORT)"

definition tcp_test_probe :: "pnet \<Rightarrow> os \<Rightarrow> int \<Rightarrow> ip_addr \<Rightarrow> bytes io" where
  "tcp_test_probe N sys now target =
     io_bind (io_unwrap (tcp_try_new sys target)) (\<lambda>tcp.
     io_bind (io_lift (tcp_probe N tcp now PROBE_ID)) (\<lambda>(packet, _). io_return packet))"

definition segment_between ::
    "pnet \<Rightarrow> pnet_test \<Rightarrow> ip_addr \<Rightarrow> u16 \<Rightarrow> u16 \<Rightarrow> u32 \<Rightarrow> bytes rust" where
  "segment_between N T target source_port destination_port acknowledgement =
     (let segment = replicate TCP_MIN_HEADER_LEN 0 in
      if \<not> tcp_view_ok N segment then Inl (Panic UnwrapErr) else
      let segment = set_source N source_port segment;
          segment = set_destination N destination_port segment;
          segment = set_acknowledgement T acknowledgement segment;
          segment = set_flags N (flags_RST OR flags_ACK) segment;
          segment = set_data_offset N (of_nat (TCP_MIN_HEADER_LEN div 4)) segment
      in case target of
           V6 _ \<Rightarrow> Inr segment
         | V4 source \<Rightarrow>
             let total_len = MIN_IPV4_HEADER_LEN + TCP_MIN_HEADER_LEN;
                 packet = replicate total_len 0
             in if \<not> ipv4_view_ok N packet then Inl (Panic UnwrapErr) else
             let packet = ip_set_version T 4 packet;
                 packet = ip_set_header_length T (of_nat (MIN_IPV4_HEADER_LEN div 4)) packet;
                 packet = ip_set_total_length T (of_nat total_len) packet;
                 packet = ip_set_next_level_protocol T proto_TCP packet;
                 packet = ip_set_source T source packet
             in Inr (ip_set_payload T segment packet))"

definition segment :: "pnet \<Rightarrow> pnet_test \<Rightarrow> ip_addr \<Rightarrow> u32 \<Rightarrow> bytes rust" where
  "segment N T target acknowledgement = segment_between N T target DEST_PORT SOURCE_PORT acknowledgement"

definition tcp_test_error_replies :: "u16 \<Rightarrow> replies" where
  "tcp_test_error_replies source_port = error_replies (\<lambda>r. tcp_identify_from_error r source_port)"

definition traced_probe :: "pnet \<Rightarrow> os \<Rightarrow> int \<Rightarrow> ip_addr \<Rightarrow> (bytes \<times> replies) io" where
  "traced_probe N sys now target =
     io_bind (io_unwrap (tcp_try_new sys target)) (\<lambda>tcp.
     io_bind (io_lift (tcp_probe N tcp now PROBE_ID)) (\<lambda>(packet, _).
     io_return (packet, tcp_test_error_replies (snd (tcp_source tcp)))))"

text \<open>The successor of the probe's identifier, as the target acknowledges it.\<close>

definition probe_ack :: u32 where "probe_ack = ucast PROBE_ID + 1"

section \<open>The tests\<close>

definition tcp_packet :: "pnet \<Rightarrow> bytes \<Rightarrow> bytes rust" where
  "tcp_packet N packet = (if tcp_view_ok N packet then Inr packet else Inl (Panic UnwrapErr))"

definition tcp_test_probe_addresses_target :: "pnet \<Rightarrow> os \<Rightarrow> int \<Rightarrow> unit io" where
  "tcp_test_probe_addresses_target N sys now =
     io_for_each TARGETS (\<lambda>target.
       io_bind (io_unwrap (tcp_try_new sys target)) (\<lambda>tcp.
       io_lift (try_bind (tcp_probe N tcp now PROBE_ID) (\<lambda>(_, address).
       assert_eq (Some address) (sockaddr target DEST_PORT)))))"

definition tcp_test_probe_is_syn :: "pnet \<Rightarrow> pnet_test \<Rightarrow> os \<Rightarrow> int \<Rightarrow> unit io" where
  "tcp_test_probe_is_syn N T sys now =
     io_for_each TARGETS (\<lambda>target.
       io_bind (tcp_test_probe N sys now target) (\<lambda>packet.
       io_lift (try_bind (tcp_packet N packet) (\<lambda>packet.
       try_bind (assert_eq (get_flags T packet) (flags_SYN N)) (\<lambda>_.
       try_bind (assert_eq (get_destination N packet) DEST_PORT) (\<lambda>_.
       assert_eq (get_sequence T packet) (ucast PROBE_ID)))))))"

definition tcp_test_probe_source_port :: "pnet \<Rightarrow> os \<Rightarrow> int \<Rightarrow> unit io" where
  "tcp_test_probe_source_port N sys now =
     io_for_each TARGETS (\<lambda>target.
       io_bind (io_unwrap (tcp_try_new sys target)) (\<lambda>tcp.
       io_bind (io_lift (tcp_probe N tcp now PROBE_ID)) (\<lambda>(packet, _).
       io_bind (io_unwrap (local_socket_addr sys (tcp_dummy_sock tcp))) (\<lambda>(_, port).
       io_lift (try_bind (tcp_packet N packet) (\<lambda>packet.
       assert_eq (get_source N packet) port))))))"

definition tcp_test_probe_checksum :: "pnet \<Rightarrow> pnet_test \<Rightarrow> os \<Rightarrow> int \<Rightarrow> unit io" where
  "tcp_test_probe_checksum N T sys now =
     io_for_each TARGETS (\<lambda>target.
       io_bind (io_unwrap (tcp_try_new sys target)) (\<lambda>tcp.
       io_lift (try_bind (tcp_probe N tcp now PROBE_ID) (\<lambda>(packet, _).
       try_bind (tcp_packet N packet) (\<lambda>packet.
       try_bind (case (fst (tcp_source tcp), target) of
           (V4 source, V4 target) \<Rightarrow> Inr (ipv4_checksum N packet source target)
         | (V6 source, V6 target) \<Rightarrow> Inr (ipv6_checksum N packet source target)
         | _ \<Rightarrow> Inl (Panic UnreachableFamilies)) (\<lambda>checksum.
       assert_eq (get_checksum T packet) checksum))))))"

definition tcp_test_probe_carries_no_payload :: "pnet \<Rightarrow> pnet_test \<Rightarrow> os \<Rightarrow> int \<Rightarrow> unit io" where
  "tcp_test_probe_carries_no_payload N T sys now =
     io_for_each TARGETS (\<lambda>target.
       io_bind (tcp_test_probe N sys now target) (\<lambda>packet.
       io_lift (try_bind (tcp_packet N packet) (\<lambda>tcp_packet.
       try_bind (assert_eq (length packet) (TCP_MIN_HEADER_LEN + TCP_SYN_OPTIONS_LEN)) (\<lambda>_.
       assert_eq (unat (get_data_offset T tcp_packet) * 4) (TCP_MIN_HEADER_LEN + TCP_SYN_OPTIONS_LEN))))))"

definition tcp_test_probe_options :: "pnet \<Rightarrow> pnet_test \<Rightarrow> os \<Rightarrow> int \<Rightarrow> unit io" where
  "tcp_test_probe_options N T sys now =
     io_for_each TARGETS (\<lambda>target.
       io_bind (tcp_test_probe N sys now target) (\<lambda>packet.
       io_lift (try_bind (tcp_packet N packet) (\<lambda>packet.
       let numbers = get_option_numbers T packet
       in assert_eq numbers [2, 4, 8, 1, 3]))))"

definition tcp_test_identify_quoted_probe :: "pnet \<Rightarrow> os \<Rightarrow> int \<Rightarrow> unit io" where
  "tcp_test_identify_quoted_probe N sys now =
     io_for_each TARGETS (\<lambda>target.
       io_bind (traced_probe N sys now target) (\<lambda>(probe, error_replies).
       io_lift (try_bind (slice_to probe 8) (\<lambda>quoted.
       assert_eq (identify error_replies (quoting quoted)) (Some PROBE_ID)))))"

definition tcp_test_identify_rejects_truncated_reply ::
    "platform \<Rightarrow> pnet \<Rightarrow> pnet_test \<Rightarrow> os \<Rightarrow> int \<Rightarrow> unit io" where
  "tcp_test_identify_rejects_truncated_reply P N T sys now =
     io_for_each TARGETS (\<lambda>target.
       io_bind (traced_probe N sys now target) (\<lambda>(probe, error_replies).
       io_lift (try_bind (slice_to probe 7) (\<lambda>quoted.
       try_bind (assert_eq (identify error_replies (quoting quoted)) None) (\<lambda>_.
       try_bind (segment N T target probe_ack) (\<lambda>segment.
       try_bind (slice_to segment (length segment - 1)) (\<lambda>start.
       assert_eq (identify (tcp_test_replies P N target)
         (tcp_test_received (sockaddr target DEST_PORT) start)) None)))))))"

definition tcp_test_identify_received_reply :: "platform \<Rightarrow> pnet \<Rightarrow> pnet_test \<Rightarrow> unit io" where
  "tcp_test_identify_received_reply P N T =
     io_for_each TARGETS (\<lambda>target.
       io_lift (try_bind (segment N T target probe_ack) (\<lambda>segment.
       assert_eq (identify (tcp_test_replies P N target)
         (tcp_test_received (sockaddr target DEST_PORT) segment)) (Some PROBE_ID))))"

definition tcp_test_identify_rejects_unknown_source ::
    "platform \<Rightarrow> pnet \<Rightarrow> pnet_test \<Rightarrow> os \<Rightarrow> int \<Rightarrow> unit io" where
  "tcp_test_identify_rejects_unknown_source P N T sys now =
     io_for_each TARGETS (\<lambda>target.
       io_bind (io_lift (segment N T target probe_ack)) (\<lambda>segment.
       let other = other_target target in
       io_bind (io_lift (assert_eq (identify (tcp_test_replies P N target)
         (tcp_test_received (sockaddr other DEST_PORT) segment)) None)) (\<lambda>_.
       io_bind (io_lift (assert_eq (identify (tcp_test_replies P N target)
         (tcp_test_received None segment)) None)) (\<lambda>_.
       let acknowledgement = probe_ack in
       io_bind (io_for_each [(443, SOURCE_PORT), (DEST_PORT, SOURCE_PORT + 1)]
         (\<lambda>(source_port, destination_port).
           io_lift (try_bind (segment_between N T target source_port destination_port acknowledgement) (\<lambda>segment.
           assert_eq (identify (tcp_test_replies P N target)
             (tcp_test_received (sockaddr target DEST_PORT) segment)) None)))) (\<lambda>_.
       io_bind (traced_probe N sys now target) (\<lambda>(probe, _).
       io_bind (traced_probe N sys now target) (\<lambda>(_, other_trace).
       io_lift (try_bind (slice_to probe 8) (\<lambda>quoted.
       assert_eq (identify other_trace (quoting quoted)) None)))))))))"

definition tcp_test_identify_rejects_zero_acknowledgement :: "platform \<Rightarrow> pnet \<Rightarrow> pnet_test \<Rightarrow> unit io" where
  "tcp_test_identify_rejects_zero_acknowledgement P N T =
     io_for_each TARGETS (\<lambda>target.
       io_lift (try_bind (segment N T target 0) (\<lambda>segment.
       assert_eq (identify (tcp_test_replies P N target)
         (tcp_test_received (sockaddr target DEST_PORT) segment)) None)))"

definition tcp_test_classify_received_replies :: "platform \<Rightarrow> pnet \<Rightarrow> pnet_test \<Rightarrow> unit io" where
  "tcp_test_classify_received_replies P N T =
     io_for_each TARGETS (\<lambda>target.
       io_lift (try_bind (segment N T target probe_ack) (\<lambda>segment.
       assert_eq (classify (tcp_test_replies P N target)
         (tcp_test_received (sockaddr target DEST_PORT) segment)) Destination)))"

definition tcp_test_tcp_replies_ignore_host_unreachable :: "platform \<Rightarrow> pnet \<Rightarrow> unit io" where
  "tcp_test_tcp_replies_ignore_host_unreachable P N =
     io_for_each TARGETS (\<lambda>target.
       io_lift (try_bind (assert (ignores_read_error (tcp_test_replies P N target) (- EHOSTUNREACH P))) (\<lambda>_.
       assert (\<not> ignores_read_error (tcp_test_replies P N target) (- ECONNREFUSED)))))"

section \<open>They pass\<close>

definition io_passes :: "unit io \<Rightarrow> bool" where
  "io_passes test \<longleftrightarrow> (\<forall>h. fst (test h) = Inr ())"

lemma io_passes_lift [simp]: "io_passes (io_lift test) \<longleftrightarrow> passes test"
  by (simp add: io_passes_def passes_def io_lift_def)

lemma io_passes_bind: "io_passes test \<Longrightarrow> io_passes rest \<Longrightarrow> io_passes (io_bind test (\<lambda>_. rest))"
  by (auto simp: io_passes_def io_bind_def split: prod.splits sum.splits) (metis fst_conv sum.distinct(1))

lemma io_passes_for_each: "(\<And>x. x \<in> set xs \<Longrightarrow> io_passes (body x)) \<Longrightarrow> io_passes (io_for_each xs body)"
proof (induction xs)
  case Nil
  then show ?case by (simp add: io_passes_def io_return_def)
next
  case (Cons x xs)
  then show ?case by (simp add: io_passes_bind)
qed

lemma io_lift_try_bind: "io_lift (try_bind m f) = io_bind (io_lift m) (\<lambda>x. io_lift (f x))"
  by (cases m) simp_all

definition loopback_ip :: "ip_addr \<Rightarrow> ip_addr" where
  "loopback_ip target = (case target of V4 _ \<Rightarrow> LOCALHOST_V4 | V6 _ \<Rightarrow> LOCALHOST_V6)"

definition loopback_tcp :: "(fd \<Rightarrow> u16) \<Rightarrow> ip_addr \<Rightarrow> fd \<Rightarrow> tcp" where
  "loopback_tcp port target s =
     \<lparr>tcp_target = target, tcp_source = (loopback_ip target, port s), tcp_dummy_sock = s\<rparr>"

lemma loopback_try_new:
  "\<exists>calls. tcp_try_new (loopback_os port) target h = (Inr (loopback_tcp port target (length h)), h @ calls) \<and>
     length calls = 7 \<and> calls ! 0 = SysSocket (family_of target) Stream ProtoTcp"
  by (cases target)
    (simp_all add: tcp_try_new_def bound_socket_def local_socket_addr_def io_defs loopback_os_def nth_append
      loopback_ip_def loopback_tcp_def family_of_def)

text \<open>A probe of the loopback system, and what runs after it.\<close>

definition loopback_segment :: "ip_addr \<Rightarrow> int \<Rightarrow> u16 \<Rightarrow> u16 \<Rightarrow> bytes" where
  "loopback_segment target now source_port checksum =
     syn_segment source_port (ucast PROBE_ID) (tcp_mss target) (of_int (now div 1000000)) checksum"

context tcp_wire begin

lemma loopback_probe:
  assumes "0 \<le> now"
  shows "\<exists>checksum. tcp_checksum N (loopback_segment target now (port s) checksum) (loopback_ip target) target = Inr checksum \<and>
    tcp_probe N (loopback_tcp port target s) now PROBE_ID =
      Inr (loopback_segment target now (port s) checksum, sock_addr_new target 80)"
proof -
  have "family_of (fst (tcp_source (loopback_tcp port target s))) = family_of (tcp_target (loopback_tcp port target s))"
    by (cases target) (simp_all add: loopback_tcp_def loopback_ip_def LOCALHOST_V4_def LOCALHOST_V6_def family_of_def)
  then obtain p where p: "tcp_probe N (loopback_tcp port target s) now PROBE_ID = Inr (p, sock_addr_new target DEST_PORT)"
    using probe_packet [OF assms, of "loopback_tcp port target s" PROBE_ID] by (auto simp: loopback_tcp_def)
  then show ?thesis
    using probe_is_segment [OF p] by (auto simp: loopback_segment_def loopback_tcp_def DEST_PORT_def)
qed

lemma loopback_run:
  assumes "0 \<le> now"
  shows "\<exists>checksum calls. length calls = 7 \<and> calls ! 0 = SysSocket (family_of target) Stream ProtoTcp \<and>
    tcp_checksum N (loopback_segment target now (port (length h)) checksum) (loopback_ip target) target = Inr checksum \<and>
    (\<forall>g. io_bind (io_unwrap (tcp_try_new (loopback_os port) target)) (\<lambda>tcp.
         io_bind (io_lift (tcp_probe N tcp now PROBE_ID)) (g tcp)) h =
       g (loopback_tcp port target (length h))
         (loopback_segment target now (port (length h)) checksum, sock_addr_new target 80) (h @ calls))"
proof -
  obtain calls where "tcp_try_new (loopback_os port) target h = (Inr (loopback_tcp port target (length h)), h @ calls)"
    "length calls = 7" "calls ! 0 = SysSocket (family_of target) Stream ProtoTcp"
    using loopback_try_new by blast
  moreover obtain checksum where
    "tcp_checksum N (loopback_segment target now (port (length h)) checksum) (loopback_ip target) target = Inr checksum"
    "tcp_probe N (loopback_tcp port target (length h)) now PROBE_ID =
      Inr (loopback_segment target now (port (length h)) checksum, sock_addr_new target 80)"
    using loopback_probe [OF assms] by blast
  ultimately show ?thesis
    by (intro exI [of _ checksum] exI [of _ calls])
      (simp add: io_bind_def io_unwrap_def io_lift_def)
qed

lemma loopback_passes:
  assumes "0 \<le> now"
    and "\<And>s checksum. tcp_checksum N (loopback_segment target now (port s) checksum) (loopback_ip target) target = Inr checksum \<Longrightarrow>
      io_passes (g (loopback_tcp port target s) (loopback_segment target now (port s) checksum, sock_addr_new target 80))"
  shows "io_passes (io_bind (io_unwrap (tcp_try_new (loopback_os port) target)) (\<lambda>tcp.
    io_bind (io_lift (tcp_probe N tcp now PROBE_ID)) (g tcp)))"
  unfolding io_passes_def
proof
  fix h
  show "fst (io_bind (io_unwrap (tcp_try_new (loopback_os port) target)) (\<lambda>tcp.
    io_bind (io_lift (tcp_probe N tcp now PROBE_ID)) (g tcp)) h) = Inr ()"
    using loopback_run [OF assms(1), of target port h] assms(2) unfolding io_passes_def by metis
qed

end

lemma syn_segment_reads:
  "syn_segment sp i mss ts c ! 12 = 0xA0" "syn_segment sp i mss ts c ! 13 = 2"
  "field (syn_segment sp i mss ts c) 0 2 = u16_to_be sp" "field (syn_segment sp i mss ts c) 2 2 = u16_to_be 80"
  "field (syn_segment sp i mss ts c) 4 4 = u32_to_be i" "field (syn_segment sp i mss ts c) 16 2 = u16_to_be c"
  "field (syn_segment sp i mss ts c) 20 20 =
     concat (map option_bytes [TcpMss mss, TcpSackPerm, TcpTimestamp ts 0, TcpNop, TcpWscale 7])"
  by (simp_all add: syn_segment_def nth_append field_def zero_to_be)

definition rst_segment :: "u16 \<Rightarrow> u16 \<Rightarrow> u32 \<Rightarrow> bytes" where
  "rst_segment source_port destination_port acknowledgement =
     u16_to_be source_port @ u16_to_be destination_port @ [0, 0, 0, 0] @ u32_to_be acknowledgement @
     [0x50, 20, 0, 0, 0, 0, 0, 0]"

definition received_rst :: "ip_addr \<Rightarrow> bytes \<Rightarrow> bytes" where
  "received_rst target rst = (case target of V6 _ \<Rightarrow> rst
     | V4 source \<Rightarrow> [0x45, 0] @ u16_to_be 40 @ [0, 0, 0, 0] @ [0, 6, 0, 0] @ be_bytes 4 (unat source) @ [0, 0, 0, 0] @ rst)"

lemma length_rst_segment [simp]: "length (rst_segment sp dp ack) = 20"
  by (simp add: rst_segment_def)

lemma rst_segment_reads:
  "field (rst_segment sp dp ack) 0 2 = u16_to_be sp" "field (rst_segment sp dp ack) 2 2 = u16_to_be dp"
  "field (rst_segment sp dp ack) 8 4 = u32_to_be ack"
  by (simp_all add: rst_segment_def field_def)

locale test_wire = tcp_wire +
  fixes T :: pnet_test
  assumes test_wire: "test_wire_ok N T"
begin

lemma test_getters:
  assumes "20 \<le> length p"
  shows "get_flags T p = p ! 13" "get_sequence T p = u32_from_be (field p 4 4)"
    "get_checksum T p = u16_from_be (field p 16 2)" "get_data_offset T p = drop_bit 4 (p ! 12)"
    "set_acknowledgement T v p = write_at p 8 (u32_to_be v)"
  using test_wire assms by (simp_all add: test_wire_ok_def)

lemma ip_setters:
  assumes "20 \<le> length p"
  shows "ip_set_version T b p = p[0 := push_bit 4 b OR (p ! 0 AND 15)]"
    "ip_set_header_length T b p = p[0 := (p ! 0 AND 240) OR (b AND 15)]"
    "ip_set_total_length T w p = write_at p 2 (u16_to_be w)" "ip_set_next_level_protocol T b p = p[9 := b]"
    "ip_set_source T a p = write_at p 12 (be_bytes 4 (unat a))"
  using test_wire assms by (simp_all add: test_wire_ok_def)

lemma ip_payload:
  assumes "20 \<le> length p" "p ! 0 AND 15 = 5"
  shows "20 + length bs \<le> length p \<Longrightarrow> ip_set_payload T bs p = write_at p 20 bs"
    "ipv4_payload N p = take (be_nat (field p 2 2) - 20) (drop 20 p)"
  using test_wire assms by (simp_all add: test_wire_ok_def)

lemma ip_view_iff: "ipv4_view_ok N p \<longleftrightarrow> 20 \<le> length p"
  using test_wire by (simp add: test_wire_ok_def)

lemma option_numbers_of:
  assumes "header_len p \<le> length p" "20 \<le> header_len p"
    and "field p 20 (header_len p - 20) = concat (map option_bytes os)"
  shows "get_option_numbers T p = map option_number os"
  using test_wire assms unfolding test_wire_ok_def by blast

lemma option_numbers: "get_option_numbers T (syn_segment sp i mss ts c) = [2, 4, 8, 1, 3]"
proof -
  have len: "header_len (syn_segment sp i mss ts c) = 40" by (simp add: header_len_def syn_segment_reads)
  have "get_option_numbers T (syn_segment sp i mss ts c) =
      map option_number [TcpMss mss, TcpSackPerm, TcpTimestamp ts 0, TcpNop, TcpWscale 7]"
    using syn_segment_reads(7) [of sp i mss ts c] by (intro option_numbers_of) (simp_all only: len, simp_all)
  then show ?thesis by simp
qed

lemma segment_between_eq:
  "segment_between N T target sp dp ack = Inr (received_rst target (rst_segment sp dp ack))"
proof -
  define s1 where "s1 = set_acknowledgement T ack (set_destination N dp (set_source N sp (replicate 20 0)))"
  have s1: "s1 = u16_to_be sp @ u16_to_be dp @ [0, 0, 0, 0] @ u32_to_be ack @ replicate 8 0"
    by (simp add: s1_def setters test_getters write_at_def numeral_eq_Suc)
  have rst: "set_data_offset N 5 (set_flags N (flags_RST OR flags_ACK) s1) = rst_segment sp dp ack"
    using wire by (simp add: tcp_wire_ok_def s1 flags_RST_def flags_ACK_def list_update_append nth_append
        rst_segment_def numeral_eq_Suc)
  have ip: "ip_set_payload T rst (ip_set_source T source (ip_set_next_level_protocol T proto_TCP
      (ip_set_total_length T 40 (ip_set_header_length T 5 (ip_set_version T 4 (replicate 40 0)))))) =
    received_rst (V4 source) rst" if "length rst = 20" for rst source
  proof -
    define i1 where "i1 = ip_set_header_length T 5 (ip_set_version T 4 (replicate 40 0))"
    have i1: "i1 = [0x45, 0, 0, 0, 0, 0, 0, 0, 0, 0, 0, 0, 0, 0, 0, 0, 0, 0, 0, 0] @ replicate 20 0"
      by (simp add: i1_def ip_setters numeral_eq_Suc)
    define i2 where "i2 = ip_set_next_level_protocol T proto_TCP (ip_set_total_length T 40 i1)"
    have i2: "i2 = [0x45, 0] @ u16_to_be 40 @ [0, 0, 0, 0] @ [0, 6, 0, 0] @ [0, 0, 0, 0, 0, 0, 0, 0] @ replicate 20 0"
      by (simp add: i2_def i1 ip_setters write_at_def proto_TCP_def list_update_append)
    show ?thesis
      unfolding i1_def [symmetric] i2_def [symmetric]
      using that by (simp add: i2 ip_setters ip_payload write_at_def received_rst_def)
  qed
  show ?thesis
    using rst ip by (cases target)
      (simp_all add: segment_between_def Let_def view_iff ip_view_iff TCP_MIN_HEADER_LEN_def MIN_IPV4_HEADER_LEN_def
        s1_def received_rst_def)
qed

end

lemma tcp_test_probe_bind:
  "io_bind (tcp_test_probe N sys now target) f =
     io_bind (io_unwrap (tcp_try_new sys target)) (\<lambda>tcp.
     io_bind (io_lift (tcp_probe N tcp now PROBE_ID)) (\<lambda>(packet, _). f packet))"
  by (simp add: tcp_test_probe_def io_bind_assoc split_def)

lemma traced_probe_bind:
  "io_bind (traced_probe N sys now target) f =
     io_bind (io_unwrap (tcp_try_new sys target)) (\<lambda>tcp.
     io_bind (io_lift (tcp_probe N tcp now PROBE_ID)) (\<lambda>(packet, _).
     f (packet, tcp_test_error_replies (snd (tcp_source tcp)))))"
  by (simp add: traced_probe_def io_bind_assoc split_def)

lemma slice_to_take: "n \<le> length xs \<Longrightarrow> slice_to xs n = Inr (take n xs)"
  by (simp add: slice_to_def get_range_def)

lemma probe_ack_identifies: "Option.bind (checked_sub probe_ack 1) u16_try_from = Some PROBE_ID"
  by (simp add: probe_ack_def acknowledged_sequence u16_try_from_ucast)

lemma field_loopback:
  "field (loopback_segment target now sp c) 0 2 = u16_to_be sp"
  "field (loopback_segment target now sp c) 2 2 = u16_to_be 80"
  "field (loopback_segment target now sp c) 4 4 = u32_to_be (ucast PROBE_ID)"
  "field (loopback_segment target now sp c) 16 2 = u16_to_be c"
  "loopback_segment target now sp c ! 12 = 0xA0" "loopback_segment target now sp c ! 13 = 2"
  "length (loopback_segment target now sp c) = 40"
  by (simp_all add: loopback_segment_def syn_segment_reads)

text \<open>The error queue's reader identifies the quoted probe by its source port.\<close>

lemma identify_quoted:
  assumes "8 \<le> n" "n \<le> 40"
  shows "identify (tcp_test_error_replies port) (quoting (take n (loopback_segment target now sp c))) =
    (if sp = port then Some PROBE_ID else None)"
proof -
  have "field (take n p) 0 2 = field p 0 2" "field (take n p) 4 4 = field p 4 4" for p :: bytes
    using assms by (simp_all add: field_take)
  then show ?thesis
    using assms by (simp add: tcp_test_error_replies_def tcp_identify_from_error_def quoting_def get_range_field
        field_loopback u16_try_from_ucast)
qed

lemma identify_quoted_short:
  "identify (tcp_test_error_replies port) (quoting (take 7 (loopback_segment target now sp c))) = None"
  by (auto simp: tcp_test_error_replies_def tcp_identify_from_error_def quoting_def get_range_def field_loopback
      split: if_splits option.splits)

context test_wire begin

lemma received_payload:
  assumes "length rst \<le> 20"
  shows "ipv4_view_ok N (received_rst (V4 a) rst)" "ipv4_payload N (received_rst (V4 a) rst) = rst"
proof -
  let ?p = "received_rst (V4 a) rst"
  have "be_nat (u16_to_be 40) = 40" by (simp add: u16_to_be_def be_nat_be_bytes)
  moreover have "20 \<le> length ?p" "?p ! 0 AND 15 = 5" "field ?p 2 2 = u16_to_be 40" "drop 20 ?p = rst"
    by (simp_all add: received_rst_def field_def)
  ultimately show "ipv4_view_ok N ?p" "ipv4_payload N ?p = rst"
    using assms by (simp_all add: ip_view_iff ip_payload)
qed

lemma received_rst_segment:
  "length rst \<le> 20 \<Longrightarrow> received_segment N target (received_rst target rst) rst"
  by (cases target) (simp_all add: received_segment_def received_payload, simp add: received_rst_def)

lemma identify_received:
  assumes "received_segment N target quoted rst"
  shows "identify (tcp_test_replies P N target) (tcp_test_received src quoted) =
     Option.bind src (\<lambda>a. Option.bind (as_socket a) (\<lambda>(ip, _).
       if ip \<noteq> target \<or> length rst < 20 \<or>
         (u16_from_be (field rst 0 2), u16_from_be (field rst 2 2)) \<noteq> (DEST_PORT, SOURCE_PORT) then None
       else Option.bind (checked_sub (u32_from_be (field rst 8 4)) 1) u16_try_from))"
proof (cases "Option.bind src as_socket")
  case None
  then show ?thesis
    by (cases src) (simp_all add: tcp_test_replies_def tcp_replies_def tcp_replies_identify_def tcp_test_received_def)
next
  case (Some p)
  then obtain a ip port where "src = Some a" "as_socket a = Some (ip, port)" by (cases src; cases p) auto
  then show ?thesis
    using assms by (cases target)
      (auto simp: tcp_test_replies_def tcp_replies_def tcp_replies_identify_def tcp_test_received_def received_segment_def
        view_iff getters not_less)
qed

lemma identify_rst:
  "identify (tcp_test_replies P N target) (tcp_test_received src (received_rst target (rst_segment sp dp ack))) =
     Option.bind src (\<lambda>a. Option.bind (as_socket a) (\<lambda>(ip, _).
       if ip \<noteq> target \<or> (sp, dp) \<noteq> (DEST_PORT, SOURCE_PORT) then None
       else Option.bind (checked_sub ack 1) u16_try_from))"
  by (simp add: identify_received [OF received_rst_segment] rst_segment_reads cong: if_cong)

lemma identify_rst_short:
  "identify (tcp_test_replies P N target) (tcp_test_received src (received_rst target (take 19 (rst_segment sp dp ack)))) = None"
proof -
  have "received_segment N target (received_rst target (take 19 (rst_segment sp dp ack))) (take 19 (rst_segment sp dp ack))"
    by (rule received_rst_segment) simp
  then show ?thesis by (subst identify_received) (auto simp: bind_eq_None_conv)
qed

lemma pure_tests_pass:
  "io_passes (tcp_test_identify_received_reply P N T)"
  "io_passes (tcp_test_identify_rejects_zero_acknowledgement P N T)"
  "io_passes (tcp_test_classify_received_replies P N T)"
  "io_passes (tcp_test_tcp_replies_ignore_host_unreachable (linux64 le) N)"
proof -
  have "checked_sub (0 :: u32) 1 = None" by (simp add: checked_sub_def)
  then show "io_passes (tcp_test_identify_received_reply P N T)"
    "io_passes (tcp_test_identify_rejects_zero_acknowledgement P N T)"
    unfolding tcp_test_identify_received_reply_def tcp_test_identify_rejects_zero_acknowledgement_def
    by - (rule io_passes_for_each, simp add: segment_def segment_between_eq identify_rst sockaddr_def probe_ack_identifies)+
  show "io_passes (tcp_test_classify_received_replies P N T)"
    "io_passes (tcp_test_tcp_replies_ignore_host_unreachable (linux64 le) N)"
    unfolding tcp_test_classify_received_replies_def tcp_test_tcp_replies_ignore_host_unreachable_def
    by (rule io_passes_for_each, simp add: segment_def segment_between_eq tcp_test_replies_def tcp_replies_def
        ECONNREFUSED_def)+
qed

lemma packet_tests_pass:
  assumes "0 \<le> now"
  shows "io_passes (tcp_test_probe_addresses_target N (loopback_os port) now)"
    "io_passes (tcp_test_probe_is_syn N T (loopback_os port) now)"
    "io_passes (tcp_test_probe_carries_no_payload N T (loopback_os port) now)"
    "io_passes (tcp_test_probe_options N T (loopback_os port) now)"
    "io_passes (tcp_test_probe_checksum N T (loopback_os port) now)"
proof -
  have view: "tcp_packet N (loopback_segment target now sp c) = Inr (loopback_segment target now sp c)" for target sp c
    by (simp add: tcp_packet_def view_iff field_loopback)
  have syn: "flags_SYN N = 2" using wire by (simp add: tcp_wire_ok_def)
  have options: "get_option_numbers T (loopback_segment target now sp c) = [2, 4, 8, 1, 3]" for target sp c
    by (simp add: loopback_segment_def option_numbers)
  note run = io_passes_for_each loopback_passes [OF assms]
  show "io_passes (tcp_test_probe_addresses_target N (loopback_os port) now)"
    unfolding tcp_test_probe_addresses_target_def io_lift_try_bind
    by (rule run)+ (simp add: sockaddr_def DEST_PORT_def)
  show "io_passes (tcp_test_probe_is_syn N T (loopback_os port) now)"
    "io_passes (tcp_test_probe_carries_no_payload N T (loopback_os port) now)"
    "io_passes (tcp_test_probe_options N T (loopback_os port) now)"
    unfolding tcp_test_probe_is_syn_def tcp_test_probe_carries_no_payload_def tcp_test_probe_options_def tcp_test_probe_bind
    by ((rule run)+, simp add: view test_getters getters field_loopback syn options DEST_PORT_def
        TCP_MIN_HEADER_LEN_def TCP_SYN_OPTIONS_LEN_def)+
  show "io_passes (tcp_test_probe_checksum N T (loopback_os port) now)"
    unfolding tcp_test_probe_checksum_def io_lift_try_bind
    by (rule run)+ (auto simp: view test_getters field_loopback loopback_tcp_def tcp_checksum_def split: ip_addr.splits)
qed

lemma source_port_test_passes:
  assumes "0 \<le> now"
  shows "io_passes (tcp_test_probe_source_port N (loopback_os port) now)"
  unfolding tcp_test_probe_source_port_def
proof (rule io_passes_for_each)
  fix target :: ip_addr
  let ?rest = "\<lambda>tcp (packet, _). io_bind (io_unwrap (local_socket_addr (loopback_os port) (tcp_dummy_sock tcp))) (\<lambda>(_, port).
       io_lift (try_bind (tcp_packet N packet) (\<lambda>packet. assert_eq (get_source N packet) port)))"
  show "io_passes (io_bind (io_unwrap (tcp_try_new (loopback_os port) target)) (\<lambda>tcp.
      io_bind (io_lift (tcp_probe N tcp now PROBE_ID)) (?rest tcp)))"
    unfolding io_passes_def
  proof
    fix h
    obtain c calls where calls: "length calls = 7" "calls ! 0 = SysSocket (family_of target) Stream ProtoTcp"
      and all: "\<forall>g :: tcp \<Rightarrow> bytes \<times> sock_addr \<Rightarrow> unit io. io_bind (io_unwrap (tcp_try_new (loopback_os port) target)) (\<lambda>tcp.
        io_bind (io_lift (tcp_probe N tcp now PROBE_ID)) (g tcp)) h =
        g (loopback_tcp port target (length h))
          (loopback_segment target now (port (length h)) c, sock_addr_new target 80) (h @ calls)"
      using loopback_run [OF assms, of target port h] by blast
    obtain ip where "local_socket_addr (loopback_os port) (length h) (h @ calls) =
        (Inr (ip, port (length h)), h @ calls @ [SysLocalAddr (length h)])"
      using calls by (cases target) (simp_all add: local_socket_addr_def io_defs loopback_os_def nth_append family_of_def)
    then show "fst (io_bind (io_unwrap (tcp_try_new (loopback_os port) target)) (\<lambda>tcp.
        io_bind (io_lift (tcp_probe N tcp now PROBE_ID)) (?rest tcp)) h) = Inr ()"
      unfolding all [rule_format]
      by (simp add: loopback_tcp_def io_bind_def io_unwrap_def io_lift_def tcp_packet_def view_iff getters field_loopback
          assert_eq_def assert_def)
  qed
qed

lemma quote_tests_pass:
  assumes "0 \<le> now"
  shows "io_passes (tcp_test_identify_quoted_probe N (loopback_os port) now)"
    "io_passes (tcp_test_identify_rejects_truncated_reply P N T (loopback_os port) now)"
proof -
  note run = io_passes_for_each loopback_passes [OF assms]
  show "io_passes (tcp_test_identify_quoted_probe N (loopback_os port) now)"
    unfolding tcp_test_identify_quoted_probe_def traced_probe_bind
    by (rule run)+ (simp add: slice_to_take field_loopback identify_quoted loopback_tcp_def)
  have "slice_to (received_rst target (rst_segment sp dp ack)) (length (received_rst target (rst_segment sp dp ack)) - 1) =
      Inr (received_rst target (take 19 (rst_segment sp dp ack)))" for target sp dp ack
    by (cases target) (simp_all add: slice_to_take received_rst_def)
  then show "io_passes (tcp_test_identify_rejects_truncated_reply P N T (loopback_os port) now)"
    unfolding tcp_test_identify_rejects_truncated_reply_def traced_probe_bind
    by - ((rule run)+, simp add: slice_to_take field_loopback identify_quoted_short segment_def segment_between_eq
        identify_rst_short)
qed

text \<open>
  The last assertion of one test compares the ports of two traces. The first one's socket is closed
  before the second is opened, so nothing but the system's choice makes them differ: the test
  passes exactly when it does.
\<close>

lemma two_traces:
  assumes "0 \<le> now"
  shows "\<exists>calls. length calls = 14 \<and>
    io_bind (traced_probe N (loopback_os port) now target) (\<lambda>(probe, _).
      io_bind (traced_probe N (loopback_os port) now target) (\<lambda>(_, other_trace).
      io_lift (try_bind (slice_to probe 8) (\<lambda>quoted. assert_eq (identify other_trace (quoting quoted)) None)))) h =
    (assert (port (length h) \<noteq> port (length h + 7)), h @ calls)"
proof -
  obtain c calls where c: "length calls = 7"
    "\<forall>g :: tcp \<Rightarrow> bytes \<times> sock_addr \<Rightarrow> unit io. io_bind (io_unwrap (tcp_try_new (loopback_os port) target)) (\<lambda>tcp.
        io_bind (io_lift (tcp_probe N tcp now PROBE_ID)) (g tcp)) h =
      g (loopback_tcp port target (length h))
        (loopback_segment target now (port (length h)) c, sock_addr_new target 80) (h @ calls)"
    using loopback_run [OF assms, of target port h] by blast
  obtain c' calls' where c': "length calls' = 7"
    "\<forall>g :: tcp \<Rightarrow> bytes \<times> sock_addr \<Rightarrow> unit io. io_bind (io_unwrap (tcp_try_new (loopback_os port) target)) (\<lambda>tcp.
        io_bind (io_lift (tcp_probe N tcp now PROBE_ID)) (g tcp)) (h @ calls) =
      g (loopback_tcp port target (length (h @ calls)))
        (loopback_segment target now (port (length (h @ calls))) c', sock_addr_new target 80) ((h @ calls) @ calls')"
    using loopback_run [OF assms, of target port "h @ calls"] by blast
  show ?thesis
    unfolding traced_probe_bind c(2) [rule_format] prod.case c'(2) [rule_format]
    by (intro exI [of _ "calls @ calls'"])
      (simp add: c(1) c'(1) slice_to_take field_loopback identify_quoted loopback_tcp_def io_lift_def assert_eq_def)
qed

lemma io_two_asserts:
  "f h = (assert a, h') \<Longrightarrow> g h' = (assert b, h'') \<Longrightarrow>
     fst (io_bind f (\<lambda>_. io_bind g (\<lambda>_. io_return ())) h) = Inr () \<longleftrightarrow> a \<and> b"
  by (simp add: io_bind_def io_return_def assert_def)

lemma unknown_source_test:
  assumes "0 \<le> now"
  shows "io_passes (tcp_test_identify_rejects_unknown_source P N T (loopback_os port) now) \<longleftrightarrow>
    (\<forall>s. port s \<noteq> port (s + 7))"
proof -
  let ?last = "\<lambda>target. io_bind (traced_probe N (loopback_os port) now target) (\<lambda>(probe, _).
       io_bind (traced_probe N (loopback_os port) now target) (\<lambda>(_, other_trace).
       io_lift (try_bind (slice_to probe 8) (\<lambda>quoted. assert_eq (identify other_trace (quoting quoted)) None))))"
  have other: "other_target LOCALHOST_V4 \<noteq> LOCALHOST_V4" "other_target LOCALHOST_V6 \<noteq> LOCALHOST_V6"
    by (simp_all add: other_target_def LOCALHOST_V4_def LOCALHOST_V6_def ipv4_from_octets_def be_nat_def)
  have ports: "(443 :: u16) \<noteq> DEST_PORT" "SOURCE_PORT + 1 \<noteq> SOURCE_PORT"
    by (simp_all add: DEST_PORT_def SOURCE_PORT_def)
  have test: "tcp_test_identify_rejects_unknown_source P N T (loopback_os port) now =
      io_bind (?last LOCALHOST_V4) (\<lambda>_. io_bind (?last LOCALHOST_V6) (\<lambda>_. io_return ()))"
    using other ports
    by (simp add: tcp_test_identify_rejects_unknown_source_def TARGETS_def segment_def segment_between_eq identify_rst
        sockaddr_def assert_eq_def assert_def Let_def)
  have run: "fst (io_bind (?last LOCALHOST_V4) (\<lambda>_. io_bind (?last LOCALHOST_V6) (\<lambda>_. io_return ())) h) = Inr () \<longleftrightarrow>
      port (length h) \<noteq> port (length h + 7) \<and> port (length h + 14) \<noteq> port (length h + 21)" for h
  proof -
    obtain c where c: "length c = 14" and e1: "?last LOCALHOST_V4 h = (assert (port (length h) \<noteq> port (length h + 7)), h @ c)"
      using two_traces [OF assms, of port LOCALHOST_V4 h] by blast
    obtain d where e2: "?last LOCALHOST_V6 (h @ c) =
        (assert (port (length (h @ c)) \<noteq> port (length (h @ c) + 7)), (h @ c) @ d)"
      using two_traces [OF assms, of port LOCALHOST_V6 "h @ c"] by blast
    have "length (h @ c) = length h + 14" "length h + 14 + 7 = length h + 21" using c by simp_all
    then show ?thesis using io_two_asserts [where f = "?last LOCALHOST_V4" and g = "?last LOCALHOST_V6", OF e1 e2] by (simp only:)
  qed
  have lengths: "\<exists>h :: syscall list. length h = s" for s by (rule exI [of _ "replicate s (SysDomain 0)"]) simp
  show ?thesis unfolding io_passes_def test run
  proof (intro iffI allI)
    fix s assume "\<forall>h :: syscall list. port (length h) \<noteq> port (length h + 7) \<and> port (length h + 14) \<noteq> port (length h + 21)"
    then show "port s \<noteq> port (s + 7)" using lengths [of s] by blast
  next
    fix h :: "syscall list" assume "\<forall>s. port s \<noteq> port (s + 7)"
    from spec [OF this, of "length h"] spec [OF this, of "length h + 14"]
    show "port (length h) \<noteq> port (length h + 7) \<and> port (length h + 14) \<noteq> port (length h + 21)"
      by (simp add: add.commute [of "length h" 21])
  qed
qed

end

section \<open>An implementation of the views\<close>

text \<open>The kinds of the options in a header: \<open>NOP\<close> is one byte, any other option has its length in its second.\<close>

function option_kinds :: "bytes \<Rightarrow> u8 list" where
  "option_kinds [] = []"
| "option_kinds (k # bs) =
     k # (if k = 1 then option_kinds bs
          else case bs of [] \<Rightarrow> [] | n # rest \<Rightarrow> option_kinds (drop (unat n - 2) rest))"
  by pat_completeness auto
termination by (relation "measure length") auto

lemma option_kinds_append: "option_kinds (option_bytes opt @ bs) = option_number opt # option_kinds bs"
  by (cases opt) simp_all

lemma option_kinds_options: "option_kinds (concat (map option_bytes os)) = map option_number os"
  by (induction os) (simp_all add: option_kinds_append)

definition rfc_pnet_test :: pnet_test where
  "rfc_pnet_test = \<lparr>
     get_flags = (\<lambda>p. p ! 13),
     get_sequence = (\<lambda>p. u32_from_be (field p 4 4)),
     get_checksum = (\<lambda>p. u16_from_be (field p 16 2)),
     get_data_offset = (\<lambda>p. drop_bit 4 (p ! 12)),
     get_option_numbers = (\<lambda>p. option_kinds (field p 20 (header_len p - 20))),
     set_acknowledgement = (\<lambda>v p. write_at p 8 (u32_to_be v)),
     ip_set_version = (\<lambda>v p. p[0 := push_bit 4 v OR (p ! 0 AND 15)]),
     ip_set_header_length = (\<lambda>v p. p[0 := (p ! 0 AND 240) OR (v AND 15)]),
     ip_set_total_length = (\<lambda>v p. write_at p 2 (u16_to_be v)),
     ip_set_next_level_protocol = (\<lambda>v p. p[9 := v]),
     ip_set_source = (\<lambda>v p. write_at p 12 (be_bytes 4 (unat v))),
     ip_set_payload = (\<lambda>bs p. write_at p 20 bs)\<rparr>"

lemma test_wire_ok_rfc: "test_wire_ok rfc_pnet rfc_pnet_test"
  by (auto simp: test_wire_ok_def rfc_pnet_def rfc_pnet_test_def option_kinds_options)

interpretation rfc_tests: test_wire rfc_pnet rfc_pnet_test
  by unfold_locales (rule test_wire_ok_rfc)

section \<open>Properties\<close>

definition tcp_method_tests :: "platform \<Rightarrow> pnet \<Rightarrow> pnet_test \<Rightarrow> os \<Rightarrow> int \<Rightarrow> unit io list" where
  "tcp_method_tests P N T sys now =
     [tcp_test_probe_addresses_target N sys now, tcp_test_probe_is_syn N T sys now,
      tcp_test_probe_source_port N sys now, tcp_test_probe_checksum N T sys now,
      tcp_test_probe_carries_no_payload N T sys now, tcp_test_probe_options N T sys now,
      tcp_test_identify_quoted_probe N sys now, tcp_test_identify_rejects_truncated_reply P N T sys now,
      tcp_test_identify_received_reply P N T, tcp_test_identify_rejects_unknown_source P N T sys now,
      tcp_test_identify_rejects_zero_acknowledgement P N T, tcp_test_classify_received_replies P N T,
      tcp_test_tcp_replies_ignore_host_unreachable P N]"

text \<open>
  C27: On the loopback system, with any clock after the epoch and packet views of the documented
  layout, the unit tests of tcp.rs all pass, whatever happened before, exactly when the system never gives a
  socket the port of the one that was closed just before: the test of unknown sources compares two
  traces of which the first has already let go of its port.
\<close>

theorem tcp_unit_tests_pass_iff:
  assumes "tcp_wire_ok N" and "test_wire_ok N T" and "0 \<le> now"
  shows "list_all io_passes (tcp_method_tests (linux64 le) N T (loopback_os port) now) \<longleftrightarrow>
    (\<forall>s. port s \<noteq> port (s + 7))"
proof -
  have W: "test_wire N T" using assms(1,2) by (simp add: test_wire_def tcp_wire_def test_wire_axioms_def)
  show ?thesis
    using test_wire.pure_tests_pass [OF W] test_wire.packet_tests_pass [OF W assms(3)]
      test_wire.source_port_test_passes [OF W assms(3)] test_wire.quote_tests_pass [OF W assms(3)]
      test_wire.unknown_source_test [OF W assms(3)]
    by (simp add: tcp_method_tests_def)
qed

theorem tcp_unit_tests_pass_iff_witness:
  "list_all io_passes (tcp_method_tests (linux64 True) rfc_pnet rfc_pnet_test (loopback_os of_nat) 0)"
proof -
  have "(of_nat s :: u16) \<noteq> of_nat (s + 7)" for s
  proof
    assume "(of_nat s :: u16) = of_nat (s + 7)"
    then have "(0 :: u16) = 7" by (simp add: of_nat_add)
    then show False by simp
  qed
  then show ?thesis
    using tcp_unit_tests_pass_iff [OF tcp_wire_ok_rfc test_wire_ok_rfc, of 0 True of_nat] by simp
qed

end
