(* ===== verification/Spec2Isabelle.thy ===== *)
theory Spec2Isabelle
  imports Cli Reply_Buffers Unit_Tests_Tcp
begin

text \<open>
  A verification library for ringroute, a traceroute for Linux built on io_uring (a Rust program of
  eight files under src/src). The definitions translate the program function by function; the
  theorems say what a trace does with every probe, when it ends and with which report, that the
  three probing methods recognise the replies to their own probes, and that the text the program
  reads and prints means what it should.

  \<^bold>\<open>The program.\<close> \<open>main\<close> (main.rs) reads the arguments, resolves the target, builds a probing
  method and calls \<open>trace::run\<close> (trace.rs). \<open>run\<close> asks the method (method/icmp.rs, udp.rs, tcp.rs,
  behind the traits of method/mod.rs) for a socket to send on and for the queues replies arrive on,
  schedules one multishot receive per queue, one send per probe and one timeout on the ring, and
  then handles completions until the destination has answered behind a gapless run of answered hops or
  the timeout has fired. A receive's buffer is read with net.rs (socket addresses and the control
  message of an error queue), turned into a \<open>Reply\<close>, given to the queue's \<open>Replies\<close> to find the
  probe it answers and what it means (icmp.rs for ICMP errors), and recorded in that probe. \<open>main\<close>
  prints the probes hop by hop.

  \<^bold>\<open>Theories and the code they model.\<close>

  \<^item> Ring_Prelude: machine integers, byte slices, panics and error values (\<open>rust\<close>), checked
    arithmetic, big-endian fields, decimal printing, \<open>chunk_by\<close>; the hints the other theories rest on.
  \<^item> Platform: \<open>std::net\<close> addresses and \<open>SockAddr\<close>, the libc crate as the record \<open>platform\<close>, the
    operating system as the record \<open>os\<close>, and computations \<open>io\<close> that record their system calls.
  \<^item> Reply_Kinds: \<open>ReplyKind\<close> and \<open>Unreachable\<close> of method/mod.rs, \<open>IcmpError::kind\<close> of icmp.rs.
  \<^item> Net: net.rs. \<open>parse_ip_recverr\<close>'s walk over control messages is a recursion on the offset, with
    each of its additions checked for overflow.
  \<^item> Methods: \<open>Reply\<close>, \<open>Replies\<close>, \<open>ErrorReplies\<close>, \<open>ReplyQueue\<close> and \<open>Method\<close> of method/mod.rs; a
    \<open>dyn\<close> object is the record of its functions.
  \<^item> Method_Icmp, Method_Udp, Method_Tcp: the three methods; building a probe, recognising a reply,
    opening the sockets in the order of the code's system calls.
  \<^item> Uring: the bitfield, slab and submission queue libraries trace.rs drives.
  \<^item> Trace_Data, Trace_Read, Trace_Loop, Trace_Run: trace.rs, in this order: user data, send buffers
    and their pointers, \<open>schedule_write\<close>, \<open>Multishot\<close>; \<open>handle_read\<close>; the loop; the setup and \<open>run\<close>.
  \<^item> Trace_Kernel, Trace_Props, Run_Props: the kernel's contract and the properties of traces.
  \<^item> End_To_End: the methods, net.rs, icmp.rs and trace.rs together: a message as Linux lays it out
    becomes the result of exactly the probe it is about.
  \<^item> Reply_Buffers: the size of the receive buffers against what the methods read of a reply.
  \<^item> Std_Net, Std_Fmt: the parts of the standard library that read and print addresses and
    durations, which the program's text depends on.
  \<^item> Output, Cli: main.rs, first what it prints and then its arguments, target resolution and \<open>main\<close>.
  \<^item> Unit_Tests, Unit_Tests_Tcp: the repository's test modules, translated as computations that
    panic where an assertion fails, and proved not to (one of them exactly up to a race it contains).

  \<^bold>\<open>State and steps.\<close> The state of a trace is the record \<open>loop_state\<close>: the slab of send buffers that
  are out (\<open>ls_sending\<close>), the probes with their send times and results (\<open>ls_probes\<close>), the submission
  queue (\<open>ls_sq\<close>) and the log (\<open>ls_log\<close>). A \<open>ring_round\<close> is one turn of the loop as the kernel decides it:
  what \<open>submit_and_wait\<close> answers and the list of completions found afterwards; each completion is an
  \<open>event\<close>, with the contents of the provided buffers and the clock at that moment. \<open>process_cqe\<close> is
  the loop's body for one completion, \<open>process_batch\<close> the inner and \<open>run_loop\<close> the outer loop. System calls
  are an \<open>io\<close> computation over the history of calls made so far, so their order is part of what is
  proved. Errors are values: \<open>Inl (Fail e)\<close> for an \<open>Err\<close>, \<open>Inl (Panic p)\<close> for a panic, with one
  constructor of \<open>panic_site\<close> for each kind of place that can panic.

  \<^bold>\<open>Interfaces.\<close> Each is a locale, with the laws its client uses as its assumptions and an
  interpretation on an executable provider:

  \<^item> \<open>libc_layout\<close> (sizes, alignments and constants of libc), interpreted by \<open>linux64\<close>, for both
    byte orders.
  \<^item> \<open>probe_codec\<close> (a reply that quotes a probe is identified as that probe), interpreted by each of the
    methods: \<open>icmp_codec\<close>, \<open>udp_codec\<close> and, as a \<open>sublocale\<close> of \<open>tcp_wire\<close>, TCP's.
  \<^item> \<open>tcp_wire\<close> and its extensions \<open>ip_wire\<close> and \<open>test_wire\<close> (the packet views of the pnet crate, by
    the header layouts of RFC 9293 and RFC 791), interpreted by \<open>rfc_pnet\<close> and \<open>rfc_pnet_test\<close>.
  \<^item> \<open>bitfield_layout\<close>, \<open>slab_contract\<close>, \<open>sq_contract\<close>, interpreted by \<open>lsb_bitfield\<close>, \<open>vec_slab_ops\<close> and
    \<open>list_sq_ops\<close>; \<open>trace_env\<close> puts them together for the loop and is interpreted by \<open>documented_libs\<close>.

  \<^bold>\<open>What the lemmas show.\<close>

  \<^item> Safety of the loop: under the kernel's contract no completion can make it panic; it leaves early
    only with no send outstanding, which the end by timeout does not guarantee.
  \<^item> Refinement: every step of the loop moves at most one probe along the state machine \<open>phase_step\<close>
    (queued, sent or failed, answered); results and send times are written once.
  \<^item> Liveness: the timeout's completion ends the loop, and the setup succeeds for every trace that fits.
  \<^item> Function: the setup's queue contents, the test for being done, which probe a reply is credited
    to, the report of \<open>run\<close>, every receive that ended being scheduled again, all against references
    written independently of the code.
  \<^item> Wire formats: probes byte for byte, round trips through the layouts Linux uses, for exactly
    which identifiers a UDP reply is recognised, and that the buffers hold what identification needs.
  \<^item> Text: which hops are printed and how, that a printed time is the nearest microsecond, that a
    printed address is read back as the same target without a name lookup.

  \<^bold>\<open>The kernel's contract\<close> (Trace_Kernel). \<open>event_ok\<close> says that a completion carries a user data the
  program made, that a send completes once (its key is still in the slab), that a successful
  receive names a filled buffer that parses, and that an error is a positive errno below 2 to the
  31; \<open>batch_ok\<close> and \<open>rounds_ok\<close> say so along a run. A new ring is empty (\<open>fresh_rings\<close>) and has
  room for as many entries as were asked for (\<open>sized_rings\<close>). Nothing is assumed about the order of
  completions, their number, or who sent a message and what it contains.

  \<^bold>\<open>Bounds.\<close> No definition uses fuel. \<open>run_loop\<close> consumes a list of rounds and is \<open>Waiting\<close> when the
  list is used up, so a statement that the trace returns is one about \<open>Returned\<close>. Recursions in
  net.rs and the text parsers go down on the length of what is left. \<open>usize\<close> is a \<open>nat\<close> where the
  code only measures slices, with the bound as a hypothesis (a slice has at most 2 to the 63 minus 1
  bytes), and a word where it is masked. A trace has at most 32767 probes (the buffer ring's size
  is a \<open>u16\<close> that is doubled); the command line allows at most 2295. Times are
  printed exactly below 2 to the 50 nanoseconds.

  \<^bold>\<open>Parameters.\<close> What is not under src/src is an argument: libc's constants and layouts, the answers of
  the operating system, the pnet, slab, io_uring and bitfield crates, \<open>RecvMsgOut::parse\<close>, and the
  system's name lookup. The standard library is modelled.

  \<^bold>\<open>Not modelled.\<close> The parser clap derives for the arguments (generated; its ranges are
  \<open>args_in_range\<close>) and its help text; the set-up of env_logger; the context strings anyhow adds to
  errors (each error is a constructor here); the memory the kernel holds, except for which send buffers are still
  in the slab and which submissions it has taken; closing the sockets and the ring when \<open>run\<close>
  returns; panics of \<open>print!\<close> on a closed standard output; the build files.

  \<^bold>\<open>Next.\<close> An explicit ownership of the message headers (slab entries and readers) by the kernel,
  so that the two SAFETY comments of trace.rs become statements about a store; the error texts of
  \<open>anyhow\<close> as \<open>main\<close> reports them.
\<close>

end
